(* ===== verification/Yanix_Prelude.thy ===== *)
theory Yanix_Prelude
  imports Main "HOL-Library.Word" "HOL-Library.Monad_Syntax"
begin

unbundle bit_operations_syntax

text \<open>
  What every component of the kernel model shares: the machine types of the i386 build
  (all C pointers, \<^verbatim>\<open>unsigned long\<close>, \<^verbatim>\<open>size_t\<close>, \<^verbatim>\<open>offset_t\<close> and \<^verbatim>\<open>uint32_t\<close> are 32 bits wide),
  the error numbers, and the generic lemmas on words and on the option monad that the component
  theories rest on.

  Operations that can go wrong at the C level (a null or wild pointer is followed, an array is
  indexed out of its bounds, a loop never ends) have an \<open>option\<close> result: \<open>None\<close> is
  the undefined behaviour or the divergence, \<open>Some\<close> is an ordinary return. Error returns of
  the kernel itself (\<open>-1\<close> with an \<open>errno\<close>) are ordinary values.
\<close>

type_synonym u8 = "8 word"
type_synonym u16 = "16 word"
type_synonym u32 = "32 word"
type_synonym addr = "32 word"

text \<open>Simplification rules that move arithmetic between machine words and natural numbers,
  and rules about the pointer structures of the kernel.\<close>

named_theorems word_conv
named_theorems ptr_simps
named_theorems op_defs

text \<open>The error numbers used by the modelled code (\<^verbatim>\<open>kernel/include/errno.h\<close>).\<close>

abbreviation (input) "ENOENT \<equiv> (2 :: int)"
abbreviation (input) "ENOMEM \<equiv> (12 :: int)"
abbreviation (input) "EFAULT \<equiv> (14 :: int)"

subsection \<open>Words as natural numbers\<close>

lemma unat_plus_nowrap [word_conv]:
  fixes a b :: "'a::len word"
  shows "unat a + unat b < 2 ^ LENGTH('a) \<Longrightarrow> unat (a + b) = unat a + unat b"
  by (simp add: unat_word_ariths)

lemma unat_minus_nowrap [word_conv]:
  fixes a b :: "'a::len word"
  shows "b \<le> a \<Longrightarrow> unat (a - b) = unat a - unat b"
  by (rule unat_sub)

lemma unat_of_nat_nowrap [word_conv]:
  "n < 2 ^ LENGTH('a) \<Longrightarrow> unat (of_nat n :: 'a::len word) = n"
  by (simp add: unat_of_nat take_bit_nat_eq_self)

lemma unat_u32_less: "unat (x :: u32) < 2 ^ 32"
  by (rule order_less_le_trans [OF unsigned_less]) simp

lemma of_nat_word_eqD:
  assumes "(of_nat i :: 'a::len word) = of_nat j"
    and "i < 2 ^ LENGTH('a)" and "j < 2 ^ LENGTH('a)"
  shows "i = j"
proof -
  have "unat (of_nat i :: 'a word) = unat (of_nat j :: 'a word)"
    using assms(1) by simp
  then show ?thesis using assms(2,3) by (simp add: unat_of_nat_nowrap)
qed

text \<open>Page arithmetic: the offset in a 4096-byte page and the page's start.\<close>

lemma and_FFF: "(x :: u32) AND 0xFFF = take_bit 12 x"
  by (simp add: take_bit_eq_mask mask_eq_exp_minus_1)

lemma unat_and_FFF: "unat ((x :: u32) AND 0xFFF) = unat x mod 4096"
  by (simp add: and_FFF unsigned_take_bit_eq) (simp add: take_bit_eq_mod)

lemma and_FFF_0: "(x :: u32) AND 0xFFF = 0 \<longleftrightarrow> 4096 dvd unat x"
  by (simp add: unat_and_FFF dvd_eq_mod_eq_0 flip: unat_eq_0)

lemma and_FFFFF000: "(x :: u32) AND 0xFFFFF000 = x - (x AND 0xFFF)"
proof -
  have "(0xFFF OR 0xFFFFF000 :: u32) = - 1" by simp
  then have "x AND (0xFFF OR 0xFFFFF000) = x" by (simp only: and.right_neutral)
  then have "(x AND 0xFFF) OR (x AND 0xFFFFF000) = x"
    by (simp only: bit.conj_disj_distrib)
  moreover have "(x AND 0xFFF) AND (x AND 0xFFFFF000) = 0"
    by (simp add: and.left_commute and.assoc)
  ultimately have "x = (x AND 0xFFF) + (x AND 0xFFFFF000)"
    using word_plus_and_or [of "x AND 0xFFF" "x AND 0xFFFFF000"] by simp
  then show ?thesis by (simp add: algebra_simps)
qed

subsection \<open>The option monad\<close>

lemma bind_SomeE:
  assumes "Option.bind x f = Some y"
  obtains z where "x = Some z" and "f z = Some y"
  using assms by (cases x) auto

lemma if_Some_None_eq [simp]: "((if b then Some x else None) = Some y) \<longleftrightarrow> b \<and> x = y"
  by simp

end
