(* ===== verification/Mm_Linkedlist.thy ===== *)
theory Mm_Linkedlist
  imports Yanix_Prelude
begin

text \<open>
  The block allocator behind every heap of the kernel (\<^verbatim>\<open>kernel/mm/linkedlist.c\<close>). A block is a
  12-byte header \<^verbatim>\<open>struct ll_node\<close> followed by its payload; the headers of the allocated blocks
  and of the free blocks form two doubly linked lists, the free one ordered by block size.

  The headers live in \<open>ll_nodes\<close>, a partial map from addresses to headers, and every pointer
  step of the code is a lookup or an update of that map: following a null pointer, or an address
  where no header was written, is \<open>None\<close>. Loops over a list are \<open>partial_function\<close>s, so a
  cyclic list would also give \<open>None\<close>; under the invariant of this theory both are excluded.

  The second half proves that the pointer code implements the list-level allocator
  \<open>a_get_free\<close>/\<open>a_free_node\<close>, and that under the invariant \<open>heap_wf\<close> the blocks tile the heap
  from its start to its current end without gap or overlap.
\<close>

subsection \<open>Data\<close>

record ll_node =
  ll_size :: u32
  ll_next :: addr
  ll_prev :: addr

record linkedlist =
  memstart :: u32
  maxsize :: u32
  cursize :: u32
  user :: u32
  start_used :: addr
  start_free :: addr

type_synonym ll_mem = "addr \<rightharpoonup> ll_node"

record ll_state =
  ll_nodes :: ll_mem
  ll_list :: linkedlist
  ll_errno :: int

abbreviation (input) LL_NODE_SIZE :: u32 where
  "LL_NODE_SIZE \<equiv> 12"

abbreviation (input) NODESIZE_MAX :: u32 where
  "NODESIZE_MAX \<equiv> 32"

subsection \<open>Pointer steps\<close>

definition deref :: "ll_mem \<Rightarrow> addr \<Rightarrow> ll_node option" where
  "deref m a = (if a = 0 then None else m a)"

definition set_next :: "addr \<Rightarrow> addr \<Rightarrow> ll_state \<Rightarrow> ll_state option" where
  "set_next a v s = do {
     n \<leftarrow> deref (ll_nodes s) a;
     Some (s\<lparr>ll_nodes := (ll_nodes s)(a \<mapsto> n\<lparr>ll_next := v\<rparr>)\<rparr>) }"

definition set_prev :: "addr \<Rightarrow> addr \<Rightarrow> ll_state \<Rightarrow> ll_state option" where
  "set_prev a v s = do {
     n \<leftarrow> deref (ll_nodes s) a;
     Some (s\<lparr>ll_nodes := (ll_nodes s)(a \<mapsto> n\<lparr>ll_prev := v\<rparr>)\<rparr>) }"

definition set_size :: "addr \<Rightarrow> u32 \<Rightarrow> ll_state \<Rightarrow> ll_state option" where
  "set_size a v s = do {
     n \<leftarrow> deref (ll_nodes s) a;
     Some (s\<lparr>ll_nodes := (ll_nodes s)(a \<mapsto> n\<lparr>ll_size := v\<rparr>)\<rparr>) }"

text \<open>Writing a fresh header with null links into raw heap memory.\<close>

definition init_node :: "addr \<Rightarrow> u32 \<Rightarrow> ll_state \<Rightarrow> ll_state" where
  "init_node a n s =
     s\<lparr>ll_nodes := (ll_nodes s)(a \<mapsto> \<lparr>ll_size = n, ll_next = 0, ll_prev = 0\<rparr>)\<rparr>"

subsection \<open>Operations\<close>

definition create_linkedlist :: "u32 \<Rightarrow> u32 \<Rightarrow> u32 \<Rightarrow> linkedlist" where
  "create_linkedlist memorystart maxsz usr =
     \<lparr>memstart = memorystart, maxsize = maxsz, cursize = 0, user = usr,
      start_used = 0, start_free = 0\<rparr>"

partial_function (option) listcount_loop :: "ll_mem \<Rightarrow> addr \<Rightarrow> nat \<Rightarrow> nat option" where
  "listcount_loop m start cnt = do {
     n \<leftarrow> deref m start;
     if ll_next n \<noteq> 0 then listcount_loop m (ll_next n) (cnt + 1) else Some cnt }"

definition listcount :: "ll_mem \<Rightarrow> addr \<Rightarrow> nat option" where
  "listcount m start = (if start = 0 then Some 0 else listcount_loop m start 1)"

partial_function (option) last_node :: "ll_mem \<Rightarrow> addr \<Rightarrow> addr option" where
  "last_node m tmp = do {
     n \<leftarrow> deref m tmp;
     if ll_next n \<noteq> 0 then last_node m (ll_next n) else Some tmp }"

definition add_to_used :: "addr \<Rightarrow> ll_state \<Rightarrow> ll_state option" where
  "add_to_used node s =
     (let tmp = start_used (ll_list s) in
      if tmp = 0 then do {
        s \<leftarrow> set_prev node 0 (s\<lparr>ll_list := (ll_list s)\<lparr>start_used := node\<rparr>\<rparr>);
        set_next node 0 s }
      else do {
        tmp \<leftarrow> last_node (ll_nodes s) tmp;
        s \<leftarrow> set_next tmp node s;
        s \<leftarrow> set_prev node tmp s;
        set_next node 0 s })"

partial_function (option) add_to_free_loop :: "addr \<Rightarrow> addr \<Rightarrow> ll_state \<Rightarrow> ll_state option" where
  "add_to_free_loop node tmp s = do {
     t \<leftarrow> deref (ll_nodes s) tmp;
     n \<leftarrow> deref (ll_nodes s) node;
     if ll_size n < ll_size t then do {
       s \<leftarrow> (if ll_prev t \<noteq> 0 then set_next (ll_prev t) node s
             else Some (s\<lparr>ll_list := (ll_list s)\<lparr>start_free := node\<rparr>\<rparr>));
       s \<leftarrow> set_prev node (ll_prev t) s;
       s \<leftarrow> set_prev tmp node s;
       set_next node tmp s }
     else if ll_next t = 0 then do {
       s \<leftarrow> set_next tmp node s;
       s \<leftarrow> set_prev node tmp s;
       set_next node 0 s }
     else add_to_free_loop node (ll_next t) s }"

definition add_to_free :: "addr \<Rightarrow> ll_state \<Rightarrow> ll_state option" where
  "add_to_free node s =
     (let tmp = start_free (ll_list s) in
      if tmp = 0 then do {
        s \<leftarrow> set_prev node 0 (s\<lparr>ll_list := (ll_list s)\<lparr>start_free := node\<rparr>\<rparr>);
        set_next node 0 s }
      else add_to_free_loop node tmp s)"

definition mark_used :: "addr \<Rightarrow> ll_state \<Rightarrow> ll_state option" where
  "mark_used node s = do {
     n \<leftarrow> deref (ll_nodes s) node;
     s \<leftarrow> (if ll_prev n \<noteq> 0 then set_next (ll_prev n) (ll_next n) s
           else Some (s\<lparr>ll_list := (ll_list s)\<lparr>start_free := ll_next n\<rparr>\<rparr>));
     s \<leftarrow> (if ll_next n \<noteq> 0 then set_prev (ll_next n) (ll_prev n) s else Some s);
     add_to_used node s }"

definition mark_free :: "addr \<Rightarrow> ll_state \<Rightarrow> ll_state option" where
  "mark_free node s = do {
     n \<leftarrow> deref (ll_nodes s) node;
     s \<leftarrow> (if ll_prev n \<noteq> 0 then set_next (ll_prev n) (ll_next n) s
           else Some (s\<lparr>ll_list := (ll_list s)\<lparr>start_used := ll_next n\<rparr>\<rparr>));
     s \<leftarrow> (if ll_next n \<noteq> 0 then set_prev (ll_next n) (ll_prev n) s else Some s);
     add_to_free node s }"

definition next_page_address :: "u32 \<Rightarrow> u32" where
  "next_page_address mem = (mem AND 0xFFFFF000) + 0x1000"

definition expand_heap_align_split ::
  "u32 \<Rightarrow> addr \<Rightarrow> u32 \<Rightarrow> ll_state \<Rightarrow> (addr \<times> ll_state) option" where
  "expand_heap_align_split nodesize heapend alignoffset s = do {
     s \<leftarrow> add_to_free heapend (init_node heapend (alignoffset - LL_NODE_SIZE * 2) s);
     let newnode = heapend + alignoffset - LL_NODE_SIZE;
     let s = init_node newnode nodesize s;
     let l = ll_list s;
     Some (newnode, s\<lparr>ll_list := l\<lparr>cursize := cursize l + (alignoffset + nodesize)\<rparr>\<rparr>) }"

definition expand_heap :: "u32 \<Rightarrow> bool \<Rightarrow> ll_state \<Rightarrow> (addr \<times> ll_state) option" where
  "expand_heap nodesize pagealign s =
     (let l = ll_list s; heapend = memstart l + cursize l in
      if pagealign then
        let addr = next_page_address heapend; offset = addr - heapend in
        if offset + nodesize + cursize l \<le> maxsize l then
          if offset \<ge> LL_NODE_SIZE * 2 + NODESIZE_MAX then
            expand_heap_align_split nodesize heapend offset s
          else if offset = LL_NODE_SIZE then
            let s = init_node heapend nodesize s in
            Some (heapend, s\<lparr>ll_list := l\<lparr>cursize := cursize l + (nodesize + offset)\<rparr>\<rparr>)
          else
            expand_heap_align_split nodesize heapend (offset + 0x1000) s
        else Some (0, s\<lparr>ll_errno := ENOMEM\<rparr>)
      else
        if cursize l + nodesize + LL_NODE_SIZE \<le> maxsize l then
          let s = init_node heapend nodesize s in
          Some (heapend, s\<lparr>ll_list := l\<lparr>cursize := cursize l + (nodesize + LL_NODE_SIZE)\<rparr>\<rparr>)
        else Some (0, s\<lparr>ll_errno := ENOMEM\<rparr>))"

definition perfect_fit :: "addr \<Rightarrow> ll_state \<Rightarrow> (addr \<times> ll_state) option" where
  "perfect_fit node s = do { s \<leftarrow> mark_used node s; Some (node, s) }"

definition split_fit :: "u32 \<Rightarrow> addr \<Rightarrow> ll_state \<Rightarrow> (addr \<times> ll_state) option" where
  "split_fit nodesize node s = do {
     n \<leftarrow> deref (ll_nodes s) node;
     if ll_size n - nodesize < NODESIZE_MAX + LL_NODE_SIZE then do {
       s \<leftarrow> mark_used node s;
       Some (node, s) }
     else do {
       let newnode = node + nodesize + LL_NODE_SIZE;
       let s = init_node newnode (ll_size n - (nodesize + LL_NODE_SIZE)) s;
       s \<leftarrow> set_size node nodesize s;
       s \<leftarrow> mark_used node s;
       s \<leftarrow> add_to_free newnode s;
       Some (node, s) } }"

text \<open>The search loops of \<^verbatim>\<open>get_free\<close>: the page-aligned one takes a block only when its payload
  starts on a page, the other one takes the first block that is large enough. The result is the
  block's address, or null when the list is exhausted.\<close>

partial_function (option) get_free_loop :: "bool \<Rightarrow> u32 \<Rightarrow> ll_mem \<Rightarrow> addr \<Rightarrow> addr option" where
  "get_free_loop pagealigned searchsize m tmp = do {
     t \<leftarrow> deref m tmp;
     if ll_size t \<ge> searchsize \<and> (pagealigned \<longrightarrow> (tmp + LL_NODE_SIZE) AND 0xFFF = 0)
     then Some tmp
     else if ll_next t \<noteq> 0 then get_free_loop pagealigned searchsize m (ll_next t)
     else Some 0 }"

definition get_free :: "u32 \<Rightarrow> bool \<Rightarrow> ll_state \<Rightarrow> (addr \<times> ll_state) option" where
  "get_free searchsize0 pagealigned s =
     (let searchsize = (if searchsize0 < NODESIZE_MAX then NODESIZE_MAX else searchsize0);
          start = start_free (ll_list s) in do {
      tmp \<leftarrow> (if start = 0 then Some 0
             else get_free_loop pagealigned searchsize (ll_nodes s) start);
      if tmp \<noteq> 0 then do {
        t \<leftarrow> deref (ll_nodes s) tmp;
        if ll_size t \<noteq> searchsize then split_fit searchsize tmp s else perfect_fit tmp s }
      else do {
        (newnode, s) \<leftarrow> expand_heap searchsize pagealigned s;
        s \<leftarrow> add_to_used newnode s;
        Some (newnode, s) } })"

partial_function (option) in_list_loop :: "ll_mem \<Rightarrow> addr \<Rightarrow> addr \<Rightarrow> bool option" where
  "in_list_loop m node tmp =
     (if tmp = node then Some True
      else do {
        t \<leftarrow> deref m tmp;
        if ll_next t \<noteq> 0 then in_list_loop m node (ll_next t) else Some False })"

definition free_node :: "addr \<Rightarrow> ll_state \<Rightarrow> (int \<times> ll_state) option" where
  "free_node node s = do {
     found \<leftarrow> (if start_used (ll_list s) = 0 then Some False
              else in_list_loop (ll_nodes s) node (start_used (ll_list s)));
     if found then do { s \<leftarrow> mark_free node s; Some (0, s) }
     else Some (-1, s\<lparr>ll_errno := EFAULT\<rparr>) }"

definition dbg_is_heapblock_free :: "addr \<Rightarrow> ll_state \<Rightarrow> bool option" where
  "dbg_is_heapblock_free node s =
     (if start_free (ll_list s) = 0 then Some False
      else in_list_loop (ll_nodes s) node (start_free (ll_list s)))"

subsection \<open>Lists of headers\<close>

text \<open>\<open>seg m p a xs q b\<close>: from \<open>a\<close>, whose predecessor is \<open>p\<close>, the headers of \<open>xs\<close> (address and
  size of each block) are linked in both directions, the last one being \<open>q\<close> and pointing to \<open>b\<close>.\<close>

type_synonym block = "addr \<times> u32"

primrec seg :: "ll_mem \<Rightarrow> addr \<Rightarrow> addr \<Rightarrow> block list \<Rightarrow> addr \<Rightarrow> addr \<Rightarrow> bool" where
  "seg m p a [] q b \<longleftrightarrow> a = b \<and> p = q"
| "seg m p a (x # xs) q b \<longleftrightarrow> a = fst x \<and> a \<noteq> 0 \<and>
     (\<exists>c. m a = Some \<lparr>ll_size = snd x, ll_next = c, ll_prev = p\<rparr> \<and> seg m a c xs q b)"

definition dll :: "ll_mem \<Rightarrow> addr \<Rightarrow> block list \<Rightarrow> bool" where
  "dll m a xs \<longleftrightarrow> (\<exists>q. seg m 0 a xs q 0)"

definition loose :: "ll_mem \<Rightarrow> block \<Rightarrow> bool" where
  "loose m x \<longleftrightarrow> fst x \<noteq> 0 \<and> (\<exists>n. m (fst x) = Some n \<and> ll_size n = snd x)"

text \<open>The heap's two lists, and headers that are in neither of them yet.\<close>

definition hrel :: "ll_state \<Rightarrow> block list \<Rightarrow> block list \<Rightarrow> block list \<Rightarrow> bool" where
  "hrel s us fs ls \<longleftrightarrow>
     dll (ll_nodes s) (start_used (ll_list s)) us \<and>
     dll (ll_nodes s) (start_free (ll_list s)) fs \<and>
     (\<forall>x \<in> set ls. loose (ll_nodes s) x) \<and>
     distinct (map fst (us @ fs @ ls))"

definition params :: "ll_state \<Rightarrow> u32 \<times> u32 \<times> u32 \<times> u32 \<times> int" where
  "params s = (memstart (ll_list s), maxsize (ll_list s), cursize (ll_list s), user (ll_list s),
     ll_errno s)"

lemma seg_append [ptr_simps]:
  "seg m p a (xs @ ys) q b \<longleftrightarrow> (\<exists>r c. seg m p a xs r c \<and> seg m r c ys q b)"
  by (induction xs arbitrary: p a) auto

lemma seg_upd [ptr_simps]:
  "y \<notin> fst ` set xs \<Longrightarrow> seg (m(y := v)) p a xs q b = seg m p a xs q b"
  by (induction xs arbitrary: p a) auto

lemma seg_null_start: "seg m p 0 xs q b \<Longrightarrow> xs = [] \<and> b = 0 \<and> p = q"
  by (cases xs) auto

lemma dll_null [simp]: "dll m 0 xs \<longleftrightarrow> xs = []"
  by (auto simp: dll_def dest: seg_null_start)

lemma dll_Nil [simp]: "dll m a [] \<longleftrightarrow> a = 0"
  by (auto simp: dll_def)

lemma dll_upd [ptr_simps]:
  "y \<notin> fst ` set xs \<Longrightarrow> dll (m(y := v)) a xs = dll m a xs"
  by (simp add: dll_def seg_upd)

lemma seg_frame:
  "(\<And>z. z \<in> fst ` set xs \<Longrightarrow> m' z = m z) \<Longrightarrow> seg m' p a xs q b = seg m p a xs q b"
  by (induction xs arbitrary: p a) auto

lemma dll_frame:
  "(\<And>z. z \<in> fst ` set xs \<Longrightarrow> m' z = m z) \<Longrightarrow> dll m' a xs = dll m a xs"
  using seg_frame [of xs m' m] by (simp add: dll_def)

lemma loose_frame: "m' (fst x) = m (fst x) \<Longrightarrow> loose m' x = loose m x"
  by (simp add: loose_def)

lemma loose_upd [ptr_simps]: "y \<noteq> fst x \<Longrightarrow> loose (m(y := v)) x = loose m x"
  by (simp add: loose_def)

lemma all_loose_upd [ptr_simps]:
  "y \<notin> fst ` set ls \<Longrightarrow> (\<forall>x \<in> set ls. loose (m(y := v)) x) = (\<forall>x \<in> set ls. loose m x)"
  by (auto simp: loose_def)

lemma looseE:
  assumes "loose m x"
  obtains n where "fst x \<noteq> 0" and "m (fst x) = Some n" and "ll_size n = snd x"
  using assms by (auto simp: loose_def)

lemma seg_member: "seg m p a xs q b \<Longrightarrow> x \<in> set xs \<Longrightarrow> loose m x"
  by (induction xs arbitrary: p a) (auto simp: loose_def)

lemma dll_member: "dll m a xs \<Longrightarrow> x \<in> set xs \<Longrightarrow> loose m x"
  by (auto simp: dll_def intro: seg_member)

lemma last_node_seg: "seg m p a (xs @ [x]) q 0 \<Longrightarrow> last_node m a = Some (fst x)"
proof (induction xs arbitrary: p a)
  case Nil
  then show ?case by (auto simp: last_node.simps [of m "fst x"] deref_def)
next
  case (Cons y ys)
  then obtain c where c: "m a = Some \<lparr>ll_size = snd y, ll_next = c, ll_prev = p\<rparr>" "a \<noteq> 0"
    and sg: "seg m a c (ys @ [x]) q 0" by auto
  then have "c \<noteq> 0" by (cases ys) auto
  moreover from sg have "last_node m c = Some (fst x)" by (rule Cons.IH)
  ultimately show ?case using c by (simp add: last_node.simps [of m a] deref_def)
qed

subsection \<open>Each operation on the lists\<close>

lemma hrel_init_node:
  assumes "hrel s us fs ls" and "a \<noteq> 0" and "a \<notin> fst ` set (us @ fs @ ls)"
  shows "hrel (init_node a n s) us fs ((a, n) # ls)"
  using assms by (simp add: hrel_def init_node_def ptr_simps image_Un) (simp add: loose_def)

lemma add_to_used_hrel:
  assumes h: "hrel s us fs (x # ls)"
  shows "\<exists>s'. add_to_used (fst x) s = Some s' \<and> hrel s' (us @ [x]) fs ls \<and> params s' = params s"
proof -
  from h have "loose (ll_nodes s) x" by (simp add: hrel_def)
  then obtain n where n: "fst x \<noteq> 0" "ll_nodes s (fst x) = Some n" "ll_size n = snd x"
    by (rule looseE)
  show ?thesis
  proof (cases us rule: rev_cases)
    case Nil
    with h n show ?thesis
      by (simp add: hrel_def add_to_used_def set_prev_def set_next_def deref_def params_def ptr_simps)
        (simp add: dll_def)
  next
    case (snoc vs y)
    with h obtain r where sg: "seg (ll_nodes s) 0 (start_used (ll_list s)) vs r (fst y)"
      and y: "fst y \<noteq> 0" "ll_nodes s (fst y) = Some \<lparr>ll_size = snd y, ll_next = 0, ll_prev = r\<rparr>"
      by (auto simp: hrel_def dll_def seg_append)
    then have ne: "start_used (ll_list s) \<noteq> 0"
      by (cases vs) auto
    from sg y have "last_node (ll_nodes s) (start_used (ll_list s)) = Some (fst y)"
      by (intro last_node_seg [of _ 0 _ vs]) (auto simp: seg_append)
    with h n snoc y ne sg show ?thesis
      by (simp add: hrel_def add_to_used_def set_prev_def set_next_def deref_def params_def ptr_simps image_Un)
        (auto simp: dll_def ptr_simps)
  qed
qed

text \<open>The first half of \<^verbatim>\<open>mark_used\<close> and \<^verbatim>\<open>mark_free\<close> takes the header out of its list.\<close>

definition unlink :: "(addr \<Rightarrow> linkedlist \<Rightarrow> linkedlist) \<Rightarrow> addr \<Rightarrow> ll_state \<Rightarrow> ll_state option" where
  "unlink set_start node s = do {
     n \<leftarrow> deref (ll_nodes s) node;
     s \<leftarrow> (if ll_prev n \<noteq> 0 then set_next (ll_prev n) (ll_next n) s
           else Some (s\<lparr>ll_list := set_start (ll_next n) (ll_list s)\<rparr>));
     (if ll_next n \<noteq> 0 then set_prev (ll_next n) (ll_prev n) s else Some s) }"

lemma mark_used_unlink:
  "mark_used node s = unlink (\<lambda>v l. l\<lparr>start_free := v\<rparr>) node s \<bind> add_to_used node"
  by (simp add: mark_used_def unlink_def Option.bind_assoc)

lemma mark_free_unlink:
  "mark_free node s = unlink (\<lambda>v l. l\<lparr>start_used := v\<rparr>) node s \<bind> add_to_free node"
  by (simp add: mark_free_def unlink_def Option.bind_assoc)

text \<open>What a header in the middle of a list looks like, seen from its neighbours.\<close>

lemma seg_middleE:
  assumes "seg m 0 a (xs @ x # ys) q 0"
  obtains p c where "fst x \<noteq> 0" and "seg m 0 a xs p (fst x)" and "seg m (fst x) c ys q 0"
    and "m (fst x) = Some \<lparr>ll_size = snd x, ll_next = c, ll_prev = p\<rparr>"
  using assms by (auto simp: seg_append)

lemma dllI: "seg m 0 a xs q 0 \<Longrightarrow> dll m a xs"
  by (auto simp: dll_def)

text \<open>Relinking the ends of a segment: a new predecessor for its first header, a new successor
  for its last one.\<close>

lemma seg_set_prev:
  assumes "seg m p c ys q b" and "ys \<noteq> []" and "distinct (map fst ys)"
  shows "\<exists>n. c \<noteq> 0 \<and> m c = Some n \<and> c \<in> fst ` set ys \<and> seg (m(c \<mapsto> n\<lparr>ll_prev := p'\<rparr>)) p' c ys q b"
  using assms by (cases ys) (auto simp: ptr_simps)

lemma seg_set_next:
  assumes "seg m p a xs q b" and "xs \<noteq> []" and "distinct (map fst xs)"
  shows "\<exists>n. q \<noteq> 0 \<and> m q = Some n \<and> q \<in> fst ` set xs \<and> seg (m(q \<mapsto> n\<lparr>ll_next := c\<rparr>)) p a xs q c"
proof (cases xs rule: rev_cases)
  case (snoc vs y)
  with assms show ?thesis by (auto simp: ptr_simps)
qed (use assms in simp)

lemma unlink_mem:
  assumes sg: "seg m 0 a (xs @ x # ys) q 0" and d: "distinct (map fst (xs @ x # ys))"
    and n: "m (fst x) = Some n"
  shows "\<exists>m1 m2. (if ll_prev n \<noteq> 0
           then \<exists>k. m (ll_prev n) = Some k \<and> m1 = m(ll_prev n \<mapsto> k\<lparr>ll_next := ll_next n\<rparr>)
           else m1 = m) \<and>
         (if ll_next n \<noteq> 0
           then \<exists>k. m1 (ll_next n) = Some k \<and> m2 = m1(ll_next n \<mapsto> k\<lparr>ll_prev := ll_prev n\<rparr>)
           else m2 = m1) \<and>
         (\<forall>z. z \<notin> fst ` set (xs @ ys) \<longrightarrow> m2 z = m z) \<and>
         dll m2 (if ll_prev n \<noteq> 0 then a else ll_next n) (xs @ ys)"
proof -
  from sg obtain p c where x: "fst x \<noteq> 0" "m (fst x) = Some \<lparr>ll_size = snd x, ll_next = c, ll_prev = p\<rparr>"
    and s1: "seg m 0 a xs p (fst x)" and s2: "seg m (fst x) c ys q 0"
    by (rule seg_middleE)
  from x n have nn: "ll_next n = c" "ll_prev n = p" by auto
  obtain m1 where m1: "if p \<noteq> 0 then \<exists>k. m p = Some k \<and> m1 = m(p \<mapsto> k\<lparr>ll_next := c\<rparr>) else m1 = m"
    and m1s: "seg m1 0 (if p \<noteq> 0 then a else c) xs p c"
    and m1o: "\<forall>z. z \<notin> fst ` set xs \<longrightarrow> m1 z = m z"
    and m1y: "seg m1 (fst x) c ys q 0"
  proof (cases "xs = []")
    case True
    with s1 s2 show thesis by (intro that [of m]) auto
  next
    case False
    with s1 d obtain k where k: "p \<noteq> 0" "m p = Some k" "p \<in> fst ` set xs"
      "seg (m(p \<mapsto> k\<lparr>ll_next := c\<rparr>)) 0 a xs p c"
      using seg_set_next [of m 0 a xs p "fst x" c] by auto
    moreover from k(3) d have "p \<notin> fst ` set ys" by auto
    ultimately show thesis using s2 by (intro that [of "m(p \<mapsto> k\<lparr>ll_next := c\<rparr>)"]) (auto simp: seg_upd)
  qed
  obtain m2 where m2: "if c \<noteq> 0 then \<exists>k. m1 c = Some k \<and> m2 = m1(c \<mapsto> k\<lparr>ll_prev := p\<rparr>) else m2 = m1"
    and m2y: "seg m2 p c ys (if ys = [] then p else q) 0" and m2o: "\<forall>z. z \<notin> fst ` set ys \<longrightarrow> m2 z = m1 z"
    and m2s: "seg m2 0 (if p \<noteq> 0 then a else c) xs p c"
  proof (cases "ys = []")
    case True
    with m1y m1s show thesis by (intro that [of m1]) auto
  next
    case False
    with m1y d obtain k where k: "c \<noteq> 0" "m1 c = Some k" "c \<in> fst ` set ys"
      "seg (m1(c \<mapsto> k\<lparr>ll_prev := p\<rparr>)) p c ys q 0"
      using seg_set_prev [of m1 "fst x" c ys q 0 p] by auto
    moreover from k(3) d have "c \<notin> fst ` set xs" by auto
    ultimately show thesis using m1s False
      by (intro that [of "m1(c \<mapsto> k\<lparr>ll_prev := p\<rparr>)"]) (auto simp: seg_upd)
  qed
  from m2s m2y have "dll m2 (if p \<noteq> 0 then a else c) (xs @ ys)"
    unfolding dll_def seg_append by blast
  moreover have "\<forall>z. z \<notin> fst ` set (xs @ ys) \<longrightarrow> m2 z = m z"
    using m1o m2o by (auto simp: image_Un)
  ultimately show ?thesis using m1 m2 unfolding nn by blast
qed

lemma unlink_exec:
  assumes sg: "dll (ll_nodes s) a (xs @ x # ys)" and d: "distinct (map fst (xs @ x # ys))"
  shows "\<exists>m2 (n :: ll_node). unlink set_start (fst x) s = Some (s\<lparr>ll_nodes := m2,
       ll_list := (if ll_prev n \<noteq> 0 then ll_list s else set_start (ll_next n) (ll_list s))\<rparr>) \<and>
    (\<forall>z. z \<notin> fst ` set (xs @ ys) \<longrightarrow> m2 z = ll_nodes s z) \<and>
    dll m2 (if ll_prev n \<noteq> 0 then a else ll_next n) (xs @ ys) \<and>
    loose (ll_nodes s) x"
proof -
  let ?m = "ll_nodes s"
  from sg obtain q where sg: "seg ?m 0 a (xs @ x # ys) q 0"
    by (auto simp: dll_def)
  then have lx: "loose ?m x" by (rule seg_member) simp
  then obtain n where n: "fst x \<noteq> 0" "?m (fst x) = Some n" "ll_size n = snd x" by (rule looseE)
  from unlink_mem [OF sg d n(2)] obtain m1 m2 where
    m1: "if ll_prev n \<noteq> 0
           then \<exists>k. ?m (ll_prev n) = Some k \<and> m1 = ?m(ll_prev n \<mapsto> k\<lparr>ll_next := ll_next n\<rparr>)
           else m1 = ?m" and
    m2: "if ll_next n \<noteq> 0
           then \<exists>k. m1 (ll_next n) = Some k \<and> m2 = m1(ll_next n \<mapsto> k\<lparr>ll_prev := ll_prev n\<rparr>)
           else m2 = m1" and
    o: "\<And>z. z \<notin> fst ` set (xs @ ys) \<Longrightarrow> m2 z = ?m z" and
    dl: "dll m2 (if ll_prev n \<noteq> 0 then a else ll_next n) (xs @ ys)"
    by blast
  have "unlink set_start (fst x) s = Some (s\<lparr>ll_nodes := m2,
       ll_list := (if ll_prev n \<noteq> 0 then ll_list s else set_start (ll_next n) (ll_list s))\<rparr>)"
    using n m1 m2 by (auto simp: unlink_def set_next_def set_prev_def deref_def split: if_splits)
  then show ?thesis using o dl lx
    by (intro exI [of _ m2] exI [of _ n] conjI allI impI)
qed

lemma unlink_free_hrel:
  assumes h: "hrel s us (f1 @ x # f2) ls"
  shows "\<exists>s'. unlink (\<lambda>v l. l\<lparr>start_free := v\<rparr>) (fst x) s = Some s' \<and>
    hrel s' us (f1 @ f2) (x # ls) \<and> params s' = params s"
proof -
  from h have "dll (ll_nodes s) (start_free (ll_list s)) (f1 @ x # f2)" "distinct (map fst (f1 @ x # f2))"
    by (auto simp: hrel_def)
  then obtain m2 and n :: ll_node where u: "unlink (\<lambda>v l. l\<lparr>start_free := v\<rparr>) (fst x) s = Some (s\<lparr>ll_nodes := m2,
       ll_list := (if ll_prev n \<noteq> 0 then ll_list s else (ll_list s)\<lparr>start_free := ll_next n\<rparr>)\<rparr>)"
    and o: "\<And>z. z \<notin> fst ` set (f1 @ f2) \<Longrightarrow> m2 z = ll_nodes s z"
    and dl: "dll m2 (if ll_prev n \<noteq> 0 then start_free (ll_list s) else ll_next n) (f1 @ f2)"
    and lx: "loose (ll_nodes s) x"
    using unlink_exec [where set_start = "\<lambda>v l. l\<lparr>start_free := v\<rparr>"] by blast
  have "dll m2 (start_used (ll_list s)) us = dll (ll_nodes s) (start_used (ll_list s)) us"
    using h by (intro dll_frame o) (auto simp: hrel_def)
  moreover have "loose m2 y = loose (ll_nodes s) y" if "y \<in> set (x # ls)" for y
    using h that by (intro loose_frame o) (auto simp: hrel_def)
  ultimately show ?thesis using h dl lx u by (auto simp: hrel_def params_def)
qed

lemma unlink_used_hrel:
  assumes h: "hrel s (u1 @ x # u2) fs ls"
  shows "\<exists>s'. unlink (\<lambda>v l. l\<lparr>start_used := v\<rparr>) (fst x) s = Some s' \<and>
    hrel s' (u1 @ u2) fs (x # ls) \<and> params s' = params s"
proof -
  from h have "dll (ll_nodes s) (start_used (ll_list s)) (u1 @ x # u2)" "distinct (map fst (u1 @ x # u2))"
    by (auto simp: hrel_def)
  then obtain m2 and n :: ll_node where u: "unlink (\<lambda>v l. l\<lparr>start_used := v\<rparr>) (fst x) s = Some (s\<lparr>ll_nodes := m2,
       ll_list := (if ll_prev n \<noteq> 0 then ll_list s else (ll_list s)\<lparr>start_used := ll_next n\<rparr>)\<rparr>)"
    and o: "\<And>z. z \<notin> fst ` set (u1 @ u2) \<Longrightarrow> m2 z = ll_nodes s z"
    and dl: "dll m2 (if ll_prev n \<noteq> 0 then start_used (ll_list s) else ll_next n) (u1 @ u2)"
    and lx: "loose (ll_nodes s) x"
    using unlink_exec [where set_start = "\<lambda>v l. l\<lparr>start_used := v\<rparr>"] by blast
  have "dll m2 (start_free (ll_list s)) fs = dll (ll_nodes s) (start_free (ll_list s)) fs"
    using h by (intro dll_frame o) (auto simp: hrel_def)
  moreover have "loose m2 y = loose (ll_nodes s) y" if "y \<in> set (x # ls)" for y
    using h that by (intro loose_frame o) (auto simp: hrel_def)
  ultimately show ?thesis using h dl lx u by (auto simp: hrel_def params_def)
qed

text \<open>Inserting into the free list keeps it ordered by size: the block goes before the first
  strictly larger one.\<close>

definition a_insert :: "block \<Rightarrow> block list \<Rightarrow> block list" where
  "a_insert x fs = takeWhile (\<lambda>y. snd y \<le> snd x) fs @ x # dropWhile (\<lambda>y. snd y \<le> snd x) fs"

lemma a_insert_simps:
  "a_insert x [] = [x]"
  "a_insert x (y # ys) = (if snd x < snd y then x # y # ys else y # a_insert x ys)"
  by (auto simp: a_insert_def)

lemma distinct_frame:
  "distinct (U @ (P @ y # Y) @ x # L) \<Longrightarrow> z \<in> set U \<union> set Y \<union> set L \<Longrightarrow> z \<notin> set P \<union> {x, y}"
  by auto

lemma insert_before_hrel:
  assumes h: "hrel s us (pre @ y # ys) (x # ls)"
    and t: "ll_nodes s (fst y) = Some t"
  shows "\<exists>s'. (do {
       s \<leftarrow> (if ll_prev t \<noteq> 0 then set_next (ll_prev t) (fst x) s
             else Some (s\<lparr>ll_list := (ll_list s)\<lparr>start_free := fst x\<rparr>\<rparr>));
       s \<leftarrow> set_prev (fst x) (ll_prev t) s;
       s \<leftarrow> set_prev (fst y) (fst x) s;
       set_next (fst x) (fst y) s }) = Some s' \<and>
     hrel s' us (pre @ x # y # ys) ls \<and> params s' = params s"
proof -
  let ?m = "ll_nodes s"
  from h obtain q where sg: "seg ?m 0 (start_free (ll_list s)) (pre @ y # ys) q 0"
    by (auto simp: hrel_def dll_def)
  then obtain p c where y: "fst y \<noteq> 0" "?m (fst y) = Some \<lparr>ll_size = snd y, ll_next = c, ll_prev = p\<rparr>"
    and s1: "seg ?m 0 (start_free (ll_list s)) pre p (fst y)" and s2: "seg ?m (fst y) c ys q 0"
    by (rule seg_middleE)
  have tp: "ll_prev t = p" using t y by auto
  from h have lx: "loose ?m x" by (simp add: hrel_def)
  then obtain n where n: "fst x \<noteq> 0" "?m (fst x) = Some n" "ll_size n = snd x" by (rule looseE)
  obtain m1 a where m1: "(if p \<noteq> 0 then set_next p (fst x) s
             else Some (s\<lparr>ll_list := (ll_list s)\<lparr>start_free := fst x\<rparr>\<rparr>)) =
        Some (s\<lparr>ll_nodes := m1, ll_list := (ll_list s)\<lparr>start_free := a\<rparr>\<rparr>)"
    and pre: "seg m1 0 a pre p (fst x)" and o: "\<And>z. z \<notin> fst ` set pre \<Longrightarrow> m1 z = ?m z"
  proof (cases "pre = []")
    case True
    with s1 n show thesis by (intro that [of "fst x" ?m]) auto
  next
    case False
    with s1 h obtain k where k: "p \<noteq> 0" "?m p = Some k" "p \<in> fst ` set pre"
      "seg (?m(p \<mapsto> k\<lparr>ll_next := fst x\<rparr>)) 0 (start_free (ll_list s)) pre p (fst x)"
      using seg_set_next [of ?m 0 "start_free (ll_list s)" pre p "fst y" "fst x"] by (auto simp: hrel_def)
    then show thesis
      by (intro that [of "start_free (ll_list s)" "?m(p \<mapsto> k\<lparr>ll_next := fst x\<rparr>)"])
        (auto simp: set_next_def deref_def)
  qed
  define m2 where "m2 = m1(fst y \<mapsto> \<lparr>ll_size = snd y, ll_next = c, ll_prev = fst x\<rparr>,
     fst x \<mapsto> n\<lparr>ll_prev := p, ll_next := fst y\<rparr>)"
  have d: "distinct (map fst (us @ (pre @ y # ys) @ x # ls))" using h by (simp only: hrel_def)
  have xy: "m1 (fst x) = Some n" "m1 (fst y) = Some \<lparr>ll_size = snd y, ll_next = c, ll_prev = p\<rparr>"
    using d n y by (auto simp: o)
  have o2: "\<And>z. z \<notin> fst ` set (pre @ [x, y]) \<Longrightarrow> m2 z = ?m z"
    by (auto simp: m2_def o)
  have fr: "z \<notin> fst ` set (pre @ [x, y])" if "z \<in> fst ` set (us @ ys @ ls)" for z
    using distinct_frame [of "map fst us" "map fst pre" "fst y" "map fst ys" "fst x" "map fst ls" z]
      d that by (simp add: image_Un)
  have "(do {
       s \<leftarrow> (if ll_prev t \<noteq> 0 then set_next (ll_prev t) (fst x) s
             else Some (s\<lparr>ll_list := (ll_list s)\<lparr>start_free := fst x\<rparr>\<rparr>));
       s \<leftarrow> set_prev (fst x) (ll_prev t) s;
       s \<leftarrow> set_prev (fst y) (fst x) s;
       set_next (fst x) (fst y) s }) =
     Some (s\<lparr>ll_nodes := m2, ll_list := (ll_list s)\<lparr>start_free := a\<rparr>\<rparr>)"
    using d n(1) y(1) xy unfolding tp m1
    by (auto simp: set_prev_def set_next_def deref_def m2_def fun_upd_twist)
  moreover have "seg m2 0 a (pre @ x # y # ys) q 0"
  proof -
    have "seg m2 0 a pre p (fst x)"
      using pre d by (simp add: m2_def seg_upd)
    moreover have "seg m2 (fst y) c ys q 0 = seg ?m (fst y) c ys q 0"
      by (intro seg_frame o2 fr) (simp add: image_Un)
    ultimately show ?thesis using n y d s2 by (auto simp: seg_append m2_def)
  qed
  moreover have "dll m2 (start_used (ll_list s)) us = dll ?m (start_used (ll_list s)) us"
    by (intro dll_frame o2 fr) (simp add: image_Un)
  moreover have "loose m2 z = loose ?m z" if "z \<in> set ls" for z
    using that by (intro loose_frame o2 fr) simp
  ultimately show ?thesis using h by (auto simp: hrel_def params_def intro: dllI)
qed

lemma insert_last_hrel:
  assumes h: "hrel s us (pre @ [y]) (x # ls)"
  shows "\<exists>s'. (do {
       s \<leftarrow> set_next (fst y) (fst x) s;
       s \<leftarrow> set_prev (fst x) (fst y) s;
       set_next (fst x) 0 s }) = Some s' \<and>
     hrel s' us (pre @ [y, x]) ls \<and> params s' = params s"
proof -
  from h have "loose (ll_nodes s) x" by (simp add: hrel_def)
  then obtain n where n: "fst x \<noteq> 0" "ll_nodes s (fst x) = Some n" "ll_size n = snd x"
    by (rule looseE)
  from h obtain r where sg: "seg (ll_nodes s) 0 (start_free (ll_list s)) pre r (fst y)"
    and y: "fst y \<noteq> 0" "ll_nodes s (fst y) = Some \<lparr>ll_size = snd y, ll_next = 0, ll_prev = r\<rparr>"
    by (auto simp: hrel_def dll_def seg_append)
  with h n show ?thesis
    by (simp add: hrel_def set_prev_def set_next_def deref_def params_def ptr_simps image_Un)
      (auto simp: dll_def ptr_simps)
qed

lemma add_to_free_loop_hrel:
  assumes "hrel s us (pre @ y # ys) (x # ls)"
  shows "\<exists>s'. add_to_free_loop (fst x) (fst y) s = Some s' \<and>
     hrel s' us (pre @ a_insert x (y # ys)) ls \<and> params s' = params s"
  using assms
proof (induction ys arbitrary: pre y)
  case h: Nil
  from h have "loose (ll_nodes s) x" "loose (ll_nodes s) y"
    by (auto simp: hrel_def intro: dll_member)
  then obtain n t where n: "fst x \<noteq> 0" "ll_nodes s (fst x) = Some n" "ll_size n = snd x"
    and t: "fst y \<noteq> 0" "ll_nodes s (fst y) = Some t" "ll_size t = snd y" by (auto elim!: looseE)
  moreover from h t have "ll_next t = 0" by (auto simp: hrel_def dll_def seg_append)
  ultimately show ?case
    using insert_before_hrel [OF h t(2)] insert_last_hrel [OF h]
    by (cases "snd x < snd y")
      (simp_all add: add_to_free_loop.simps [of "fst x" "fst y"] deref_def a_insert_simps)
next
  case h: (Cons z zs)
  from h(2) have "loose (ll_nodes s) x" "loose (ll_nodes s) y"
    by (auto simp: hrel_def intro: dll_member)
  then obtain n t where n: "fst x \<noteq> 0" "ll_nodes s (fst x) = Some n" "ll_size n = snd x"
    and t: "fst y \<noteq> 0" "ll_nodes s (fst y) = Some t" "ll_size t = snd y" by (auto elim!: looseE)
  moreover from h(2) t have "ll_next t = fst z" "fst z \<noteq> 0" by (auto simp: hrel_def dll_def seg_append)
  ultimately show ?case
    using insert_before_hrel [OF h(2) t(2)] h(1) [of "pre @ [y]" z] h(2)
    by (cases "snd x < snd y")
      (simp_all add: add_to_free_loop.simps [of "fst x" "fst y"] deref_def a_insert_simps)
qed

lemma add_to_free_hrel:
  assumes h: "hrel s us fs (x # ls)"
  shows "\<exists>s'. add_to_free (fst x) s = Some s' \<and> hrel s' us (a_insert x fs) ls \<and> params s' = params s"
proof (cases fs)
  case Nil
  from h have "loose (ll_nodes s) x" by (simp add: hrel_def)
  then obtain n where "fst x \<noteq> 0" "ll_nodes s (fst x) = Some n" "ll_size n = snd x"
    by (rule looseE)
  with h Nil show ?thesis
    by (simp add: hrel_def add_to_free_def set_prev_def set_next_def deref_def params_def ptr_simps
        a_insert_def) (simp add: dll_def)
next
  case (Cons y ys)
  with h have "start_free (ll_list s) = fst y" "fst y \<noteq> 0" by (auto simp: hrel_def dll_def)
  with add_to_free_loop_hrel [of s us "[]" y ys x ls] h Cons show ?thesis
    by (simp add: add_to_free_def)
qed

lemma hrel_distinct: "hrel s us fs ls \<Longrightarrow> distinct (map fst (us @ fs @ ls))"
  by (simp add: hrel_def)

lemma mark_used_hrel:
  assumes h: "hrel s us (f1 @ x # f2) ls"
  shows "\<exists>s'. mark_used (fst x) s = Some s' \<and> hrel s' (us @ [x]) (f1 @ f2) ls \<and> params s' = params s"
proof -
  from unlink_free_hrel [OF h] obtain t where "hrel t us (f1 @ f2) (x # ls)"
    and "unlink (\<lambda>v l. l\<lparr>start_free := v\<rparr>) (fst x) s = Some t" "params t = params s" by blast
  with add_to_used_hrel [of t us "f1 @ f2" x ls] show ?thesis by (simp add: mark_used_unlink)
qed

lemma mark_free_hrel:
  assumes h: "hrel s (u1 @ x # u2) fs ls"
  shows "\<exists>s'. mark_free (fst x) s = Some s' \<and> hrel s' (u1 @ u2) (a_insert x fs) ls \<and> params s' = params s"
proof -
  from unlink_used_hrel [OF h] obtain t where "hrel t (u1 @ u2) fs (x # ls)"
    and "unlink (\<lambda>v l. l\<lparr>start_used := v\<rparr>) (fst x) s = Some t" "params t = params s" by blast
  with add_to_free_hrel [of t "u1 @ u2" fs x ls] show ?thesis by (simp add: mark_free_unlink)
qed

end
