(* ===== verification/Mm_Alloc.thy ===== *)
theory Mm_Alloc
  imports Mm_Linkedlist "HOL-Library.Multiset"
begin

text \<open>
  What the block allocator of \<^verbatim>\<open>kernel/mm/linkedlist.c\<close> promises. \<open>a_get_free\<close> and \<open>a_free_node\<close> are
  the allocator on plain lists of blocks; the pointer code of \<open>Mm_Linkedlist\<close> refines them. On
  top of that, \<open>heap_wf\<close> says that the blocks of the two lists tile the heap, and every operation
  keeps it.
\<close>

subsection \<open>The searches\<close>

definition fits :: "bool \<Rightarrow> u32 \<Rightarrow> block \<Rightarrow> bool" where
  "fits pagealigned n x \<longleftrightarrow>
     snd x \<ge> n \<and> (pagealigned \<longrightarrow> (fst x + LL_NODE_SIZE) AND 0xFFF = 0)"

lemma get_free_loop_seg:
  assumes "seg m p a xs q 0" and "xs \<noteq> []"
  shows "get_free_loop pa n m a = Some (case find (fits pa n) xs of None \<Rightarrow> 0 | Some x \<Rightarrow> fst x)"
  using assms
proof (induction xs arbitrary: p a)
  case (Cons x xs)
  then obtain c where c: "a = fst x" "a \<noteq> 0" "m a = Some \<lparr>ll_size = snd x, ll_next = c, ll_prev = p\<rparr>"
    "seg m a c xs q 0" by auto
  moreover from c(4) have "c = 0 \<longleftrightarrow> xs = []" by (cases xs) auto
  ultimately show ?case using Cons.IH [of a c]
    by (auto simp: get_free_loop.simps [of pa n m "fst x"] deref_def fits_def)
qed simp

lemma in_list_loop_seg:
  assumes "seg m p a xs q 0" and "xs \<noteq> []"
  shows "in_list_loop m node a = Some (node \<in> fst ` set xs)"
  using assms
proof (induction xs arbitrary: p a)
  case (Cons x xs)
  then obtain c where c: "a = fst x" "a \<noteq> 0" "m a = Some \<lparr>ll_size = snd x, ll_next = c, ll_prev = p\<rparr>"
    "seg m a c xs q 0" by auto
  moreover from c(4) have "c = 0 \<longleftrightarrow> xs = []" by (cases xs) auto
  ultimately show ?case using Cons.IH [of a c]
    by (auto simp: in_list_loop.simps [of m node "fst x"] deref_def)
qed simp

lemma dll_start_null: "dll m a xs \<Longrightarrow> a = 0 \<longleftrightarrow> xs = []"
  by auto

lemma listcount_loop_seg:
  "seg m p a xs q 0 \<Longrightarrow> xs \<noteq> [] \<Longrightarrow> listcount_loop m a k = Some (k + length xs - 1)"
proof (induction xs arbitrary: p a k)
  case (Cons x xs)
  then obtain c where c: "a = fst x" "a \<noteq> 0" "m a = Some \<lparr>ll_size = snd x, ll_next = c, ll_prev = p\<rparr>"
    "seg m a c xs q 0" by auto
  moreover from c(4) have "c = 0 \<longleftrightarrow> xs = []" by (cases xs) auto
  ultimately show ?case using Cons.IH [of a c "k + 1"]
    by (simp add: listcount_loop.simps [of m "fst x"] deref_def)
qed simp

lemma listcount_dll: "dll m a xs \<Longrightarrow> listcount m a = Some (length xs)"
  by (cases "xs = []") (auto simp: listcount_def dll_def listcount_loop_seg dest: seg_null_start)

lemma get_free_search:
  assumes "hrel s us fs ls"
  shows "(if start_free (ll_list s) = 0 then Some 0
      else get_free_loop pa n (ll_nodes s) (start_free (ll_list s))) =
    Some (case find (fits pa n) fs of None \<Rightarrow> 0 | Some x \<Rightarrow> fst x)"
  using assms dll_start_null [of "ll_nodes s" "start_free (ll_list s)" fs]
  by (auto simp: hrel_def dll_def get_free_loop_seg)

lemma free_node_search:
  assumes "hrel s us fs ls"
  shows "(if start_used (ll_list s) = 0 then Some False
      else in_list_loop (ll_nodes s) node (start_used (ll_list s))) = Some (node \<in> fst ` set us)"
  using assms dll_start_null [of "ll_nodes s" "start_used (ll_list s)" us]
  by (auto simp: hrel_def dll_def in_list_loop_seg)

lemma set_size_hrel:
  assumes h: "hrel s us (f1 @ x # f2) ls"
  shows "\<exists>s'. set_size (fst x) n s = Some s' \<and> hrel s' us (f1 @ (fst x, n) # f2) ls \<and>
    params s' = params s"
proof -
  from h obtain q where "seg (ll_nodes s) 0 (start_free (ll_list s)) (f1 @ x # f2) q 0"
    by (auto simp: hrel_def dll_def)
  then obtain p c where x: "fst x \<noteq> 0" "ll_nodes s (fst x) = Some \<lparr>ll_size = snd x, ll_next = c, ll_prev = p\<rparr>"
    and sg: "seg (ll_nodes s) 0 (start_free (ll_list s)) f1 p (fst x)" "seg (ll_nodes s) (fst x) c f2 q 0"
    by (rule seg_middleE)
  with h show ?thesis
    by (simp add: hrel_def set_size_def deref_def params_def ptr_simps image_Un)
      (auto simp: dll_def ptr_simps)
qed

subsection \<open>The allocator on lists of blocks\<close>

record aheap =
  a_start :: u32
  a_max :: u32
  a_cur :: u32
  a_used :: "block list"
  a_free :: "block list"

definition a_expand :: "u32 \<Rightarrow> bool \<Rightarrow> aheap \<Rightarrow> (block \<times> aheap) option" where
  "a_expand n pa h =
     (let e = a_start h + a_cur h; off = next_page_address e - e;
          off' = (if off \<ge> 56 then off else off + 0x1000) in
      if pa \<and> off \<noteq> 12 then
        if off + n + a_cur h \<le> a_max h then
          Some ((e + off' - 12, n),
            h\<lparr>a_cur := a_cur h + (off' + n), a_free := a_insert (e, off' - 24) (a_free h)\<rparr>)
        else None
      else
        if a_cur h + n + 12 \<le> a_max h then Some ((e, n), h\<lparr>a_cur := a_cur h + (n + 12)\<rparr>)
        else None)"

definition req :: "u32 \<Rightarrow> u32" where
  "req n0 = (if n0 < 32 then 32 else n0)"

definition a_get_free :: "u32 \<Rightarrow> bool \<Rightarrow> aheap \<Rightarrow> (addr \<times> aheap) option" where
  "a_get_free n0 pa h =
     (let n = req n0 in
      case find (fits pa n) (a_free h) of
        Some x \<Rightarrow>
          if snd x - n < 44 then
            Some (fst x, h\<lparr>a_used := a_used h @ [x], a_free := remove1 x (a_free h)\<rparr>)
          else
            Some (fst x, h\<lparr>a_used := a_used h @ [(fst x, n)],
              a_free := a_insert (fst x + n + 12, snd x - (n + 12)) (remove1 x (a_free h))\<rparr>)
      | None \<Rightarrow>
          (case a_expand n pa h of
             Some (x, h') \<Rightarrow> Some (fst x, h'\<lparr>a_used := a_used h' @ [x]\<rparr>)
           | None \<Rightarrow> None))"

definition a_free_node :: "addr \<Rightarrow> aheap \<Rightarrow> aheap option" where
  "a_free_node node h =
     (case find (\<lambda>x. fst x = node) (a_used h) of
        Some x \<Rightarrow> Some (h\<lparr>a_used := remove1 x (a_used h), a_free := a_insert x (a_free h)\<rparr>)
      | None \<Rightarrow> None)"

subsection \<open>The blocks tile the heap\<close>

primrec tiling :: "nat \<Rightarrow> block list \<Rightarrow> nat \<Rightarrow> bool" where
  "tiling a [] e \<longleftrightarrow> a = e"
| "tiling a (x # xs) e \<longleftrightarrow> unat (fst x) = a \<and> tiling (a + 12 + unat (snd x)) xs e"

abbreviation blk_end :: "block \<Rightarrow> nat" where
  "blk_end x \<equiv> unat (fst x) + 12 + unat (snd x)"

definition aheap_wf :: "aheap \<Rightarrow> bool" where
  "aheap_wf h \<longleftrightarrow>
     (\<exists>bs. mset bs = mset (a_used h @ a_free h) \<and>
        tiling (unat (a_start h)) bs (unat (a_start h) + unat (a_cur h))) \<and>
     (\<forall>x \<in> set (a_used h @ a_free h). 32 \<le> snd x) \<and>
     sorted (map snd (a_free h)) \<and>
     0 < a_start h \<and> unat (a_start h) + unat (a_max h) + 0x1000 < 2 ^ 32 \<and>
     unat (a_max h) \<le> 2 ^ 30 \<and> unat (a_cur h) \<le> unat (a_max h) + 0x1000"

lemma tiling_append: "tiling a (xs @ ys) e \<longleftrightarrow> (\<exists>m. tiling a xs m \<and> tiling m ys e)"
  by (induction xs arbitrary: a) auto

lemma tiling_le: "tiling a xs e \<Longrightarrow> a \<le> e"
  by (induction xs arbitrary: a) fastforce+

lemma tiling_bounds: "tiling a xs e \<Longrightarrow> x \<in> set xs \<Longrightarrow> a \<le> unat (fst x) \<and> blk_end x \<le> e"
  by (induction xs arbitrary: a) (fastforce dest: tiling_le)+

lemma tiling_distinct: "tiling a xs e \<Longrightarrow> distinct (map fst xs)"
  by (induction xs arbitrary: a) (fastforce dest: tiling_bounds)+

lemma tiling_disjoint:
  "tiling a xs e \<Longrightarrow> x \<in> set xs \<Longrightarrow> y \<in> set xs \<Longrightarrow> x \<noteq> y \<Longrightarrow>
    blk_end x \<le> unat (fst y) \<or> blk_end y \<le> unat (fst x)"
  by (induction xs arbitrary: a) (auto dest: tiling_bounds)

lemma mset_a_insert [simp]: "mset (a_insert x fs) = add_mset x (mset fs)"
  by (induction fs) (auto simp: a_insert_simps)

lemma set_a_insert [simp]: "set (a_insert x fs) = insert x (set fs)"
  by (induction fs) (auto simp: a_insert_simps)

lemma sorted_a_insert: "sorted (map snd fs) \<Longrightarrow> sorted (map snd (a_insert x fs))"
  by (induction fs) (auto simp: a_insert_simps intro: order_trans order_less_imp_le)

subsection \<open>Growing the heap\<close>

lemma page_offset: "next_page_address e - e = 0x1000 - (e AND 0xFFF)"
  by (simp add: next_page_address_def and_FFFFF000)

lemma unat_page_offset: "unat (next_page_address e - e) = 4096 - unat e mod 4096"
proof -
  have "unat (e AND 0xFFF) < 4096" by (simp add: unat_and_FFF)
  then have "e AND 0xFFF \<le> 0x1000" by (simp add: word_le_nat_alt)
  then show ?thesis by (simp add: page_offset unat_sub unat_and_FFF)
qed

lemma dvd_page_end: "unat off = 4096 - unat e mod 4096 \<Longrightarrow> 4096 dvd unat e + (unat off + 4096 * k)"
proof -
  assume off: "unat off = 4096 - unat e mod 4096"
  define q where "q = unat e div 4096"
  define r where "r = unat e mod 4096"
  have "unat e = 4096 * q + r" "r < 4096" unfolding q_def r_def by simp_all
  moreover have "unat off = 4096 - r" using off by (simp add: r_def)
  ultimately have "unat e + (unat off + 4096 * k) = 4096 * (q + 1 + k)" by simp
  then show ?thesis by (metis dvd_triv_left)
qed

lemma a_expand_aligned_arith:
  assumes w: "aheap_wf h" and n: "unat n < 2 ^ 31" and e: "e = a_start h + a_cur h"
    and o: "off = next_page_address e - e" "off' = (if off \<ge> 56 then off else off + 0x1000)"
    and fit: "off + n + a_cur h \<le> a_max h"
  shows "unat e = unat (a_start h) + unat (a_cur h)" and "56 \<le> unat off'"
    and "unat (e + off' - 12) = unat e + unat off' - 12"
    and "unat (off' - 24) = unat off' - 24"
    and "unat (a_cur h + (off' + n)) = unat (a_cur h) + unat off' + unat n"
    and "unat (a_cur h + (off' + n)) \<le> unat (a_max h) + 0x1000"
    and "(e + off') AND 0xFFF = 0"
proof -
  note w' = w [unfolded aheap_wf_def]
  show ee: "unat e = unat (a_start h) + unat (a_cur h)"
    using w' by (auto simp: e word_conv)
  have off: "unat off = 4096 - unat e mod 4096" unfolding o(1) by (rule unat_page_offset)
  have off1: "1 \<le> unat off" "unat off \<le> 4096" unfolding off by (simp_all add: Suc_leI)
  have "unat (off + n) = unat off + unat n" using off1 n by (intro unat_plus_nowrap) simp
  then have "unat (off + n + a_cur h) = unat off + unat n + unat (a_cur h)"
    using off1 n w' by (subst unat_plus_nowrap) auto
  with fit have fit': "unat off + unat n + unat (a_cur h) \<le> unat (a_max h)"
    by (simp add: word_le_nat_alt)
  obtain k where k: "unat off' = unat off + 4096 * k" "k \<le> 1"
    using off1 by (cases "56 \<le> off") (force simp: o(2) unat_plus_nowrap)+
  show o56: "56 \<le> unat off'"
    using off1 by (auto simp: o(2) word_le_nat_alt unat_plus_nowrap)
  have me: "unat (a_start h) + unat (a_max h) + 0x1000 < 2 ^ 32" using w' by simp
  show c: "unat (a_cur h + (off' + n)) = unat (a_cur h) + unat off' + unat n"
    using fit' k me by (simp add: unat_plus_nowrap)
  show "unat (a_cur h + (off' + n)) \<le> unat (a_max h) + 0x1000" using c fit' k by simp
  have eo: "unat (e + off') = unat e + unat off'"
    using fit' k me ee by (intro unat_plus_nowrap) simp
  then show "unat (e + off' - 12) = unat e + unat off' - 12"
    using o56 by (subst unat_minus_nowrap) (auto simp: word_le_nat_alt)
  show "unat (off' - 24) = unat off' - 24"
    using o56 by (subst unat_minus_nowrap) (auto simp: word_le_nat_alt)
  show "(e + off') AND 0xFFF = 0" unfolding and_FFF_0 eo k(1) by (rule dvd_page_end [OF off])
qed

lemma a_expand_plain_arith:
  assumes w: "aheap_wf h" and n: "unat n < 2 ^ 31" and e: "e = a_start h + a_cur h"
    and fit: "a_cur h + n + 12 \<le> a_max h"
  shows "unat e = unat (a_start h) + unat (a_cur h)"
    and "unat (a_cur h + (n + 12)) = unat (a_cur h) + unat n + 12"
    and "unat (a_cur h + (n + 12)) \<le> unat (a_max h)"
    and "next_page_address e - e = 12 \<Longrightarrow> (e + 12) AND 0xFFF = 0"
proof -
  note w' = w [unfolded aheap_wf_def]
  show ee: "unat e = unat (a_start h) + unat (a_cur h)"
    using w' by (auto simp: e word_conv)
  have n12: "unat (n + 12) = unat n + 12" using n by (subst unat_plus_nowrap) auto
  then show c: "unat (a_cur h + (n + 12)) = unat (a_cur h) + unat n + 12"
    using n w' by (subst unat_plus_nowrap) auto
  have "a_cur h + n + 12 = a_cur h + (n + 12)" by simp
  then show m: "unat (a_cur h + (n + 12)) \<le> unat (a_max h)"
    using fit by (simp only: word_le_nat_alt)
  assume "next_page_address e - e = 12"
  with dvd_page_end [OF unat_page_offset, of e 0] have "4096 dvd unat e + 12" by simp
  moreover have "unat (e + 12) = unat e + 12" using ee m c w' by (subst unat_plus_nowrap) auto
  ultimately show "(e + 12) AND 0xFFF = 0" by (simp add: and_FFF_0)
qed

lemma a_expand_cases:
  assumes "a_expand n pa h = Some (x, h')"
  obtains (aligned) e off off' where "e = a_start h + a_cur h" "off = next_page_address e - e"
      "off' = (if off \<ge> 56 then off else off + 0x1000)" "off + n + a_cur h \<le> a_max h" "pa" "off \<noteq> 12"
      "x = (e + off' - 12, n)"
      "h' = h\<lparr>a_cur := a_cur h + (off' + n), a_free := a_insert (e, off' - 24) (a_free h)\<rparr>"
  | (plain) e where "e = a_start h + a_cur h" "a_cur h + n + 12 \<le> a_max h"
      "pa \<longrightarrow> next_page_address e - e = 12" "x = (e, n)" "h' = h\<lparr>a_cur := a_cur h + (n + 12)\<rparr>"
  using assms unfolding a_expand_def Let_def by (auto split: if_splits)

lemma a_expand_tiles:
  assumes w: "aheap_wf h" and n: "32 \<le> n" "unat n < 2 ^ 31"
    and x: "a_expand n pa h = Some (x, h')"
  shows "\<exists>ex c. h' = h\<lparr>a_cur := c, a_free := fold a_insert ex (a_free h)\<rparr> \<and> snd x = n \<and>
    (\<forall>y \<in> set ex. 32 \<le> snd y) \<and> unat c \<le> unat (a_max h) + 0x1000 \<and>
    tiling (unat (a_start h) + unat (a_cur h)) (ex @ [x]) (unat (a_start h) + unat c) \<and>
    (pa \<longrightarrow> (fst x + 12) AND 0xFFF = 0)"
  using x
proof (cases rule: a_expand_cases)
  case (aligned e off off')
  note ar = a_expand_aligned_arith [OF w n(2) aligned(1-4)]
  with aligned(7,8) show ?thesis
    by (intro exI [of _ "[(e, off' - 24)]"] exI [of _ "a_cur h + (off' + n)"])
      (auto simp: word_le_nat_alt)
next
  case (plain e)
  note ar = a_expand_plain_arith [OF w n(2) plain(1,2)]
  with plain(3-5) show ?thesis
    by (intro exI [of _ "[]"] exI [of _ "a_cur h + (n + 12)"]) auto
qed

subsection \<open>Every operation keeps the tiling\<close>

lemma find_SomeE:
  assumes "find P xs = Some x"
  obtains ys zs where "xs = ys @ x # zs" and "P x" and "x \<notin> set ys" and "remove1 x xs = ys @ zs"
proof -
  from assms have "P x" "x \<in> set xs" by (auto simp: find_Some_iff)
  then obtain ys zs where "xs = ys @ x # zs" "x \<notin> set ys" by (auto dest: split_list_first)
  with \<open>P x\<close> that show thesis by (simp add: remove1_append)
qed

lemma fold_a_insert_mset [simp]: "mset (fold a_insert ex fs) = mset ex + mset fs"
  by (induction ex arbitrary: fs) auto

lemma fold_a_insert_sorted: "sorted (map snd fs) \<Longrightarrow> sorted (map snd (fold a_insert ex fs))"
  by (induction ex arbitrary: fs) (auto simp: sorted_a_insert)

lemma aheap_wf_upd:
  assumes "aheap_wf h" and "tiling (unat (a_start h)) bs (unat (a_start h) + unat c)"
    and bs: "mset bs = mset (us @ fs)" and "\<forall>x \<in> set bs. 32 \<le> snd x" and "sorted (map snd fs)"
    and "unat c \<le> unat (a_max h) + 0x1000"
  shows "aheap_wf (h\<lparr>a_cur := c, a_used := us, a_free := fs\<rparr>)"
  using assms mset_eq_setD [OF bs] by (auto simp: aheap_wf_def)

lemma aheap_wfE:
  assumes "aheap_wf h"
  obtains bs where "mset bs = mset (a_used h @ a_free h)" and "set bs = set (a_used h) \<union> set (a_free h)"
    and "tiling (unat (a_start h)) bs (unat (a_start h) + unat (a_cur h))"
    and "\<forall>x \<in> set bs. 32 \<le> snd x"
proof -
  from assms obtain bs where bs: "mset bs = mset (a_used h @ a_free h)"
    and ti: "tiling (unat (a_start h)) bs (unat (a_start h) + unat (a_cur h))"
    by (auto simp: aheap_wf_def)
  from mset_eq_setD [OF bs] have "set bs = set (a_used h) \<union> set (a_free h)" by simp
  with that bs ti assms show thesis by (auto simp: aheap_wf_def)
qed

lemma aheap_wf_limits:
  assumes "aheap_wf h"
  shows "0 < a_start h" and "unat (a_start h) + unat (a_max h) + 0x1000 < 2 ^ 32"
    and "unat (a_max h) \<le> 2 ^ 30" and "unat (a_cur h) \<le> unat (a_max h) + 0x1000"
    and "unat (a_start h) + unat (a_cur h) < 2 ^ 32" and "sorted (map snd (a_free h))"
  using assms by (simp_all add: aheap_wf_def)

lemma aheap_wf_grow:
  assumes w: "aheap_wf h" and n: "32 \<le> snd x"
    and ex: "\<forall>y \<in> set ex. 32 \<le> snd y" "unat c \<le> unat (a_max h) + 0x1000"
      "tiling (unat (a_start h) + unat (a_cur h)) (ex @ [x]) (unat (a_start h) + unat c)"
  shows "aheap_wf (h\<lparr>a_cur := c, a_used := a_used h @ [x], a_free := fold a_insert ex (a_free h)\<rparr>)"
proof -
  from w obtain bs where "mset bs = mset (a_used h @ a_free h)" "\<forall>x \<in> set bs. 32 \<le> snd x"
    and ti: "tiling (unat (a_start h)) bs (unat (a_start h) + unat (a_cur h))"
    by (rule aheap_wfE)
  then have "mset (bs @ ex @ [x]) = mset ((a_used h @ [x]) @ fold a_insert ex (a_free h))"
    "\<forall>x \<in> set (bs @ ex @ [x]). 32 \<le> snd x" using n ex(1) by auto
  moreover have "tiling (unat (a_start h)) (bs @ ex @ [x]) (unat (a_start h) + unat c)"
    using ti ex(3) unfolding tiling_append [of _ bs] by blast
  moreover have "sorted (map snd (fold a_insert ex (a_free h)))"
    using w by (intro fold_a_insert_sorted) (simp add: aheap_wf_def)
  ultimately show ?thesis
    using aheap_wf_upd [OF w, of "bs @ ex @ [x]" c "a_used h @ [x]" "fold a_insert ex (a_free h)"]
      ex(2) by simp
qed

lemma aheap_wf_split:
  assumes w: "aheap_wf h" and x: "a_free h = f1 @ x # f2" and n: "32 \<le> n" "n \<le> snd x" "44 \<le> snd x - n"
  shows "aheap_wf (h\<lparr>a_used := a_used h @ [(fst x, n)],
      a_free := a_insert (fst x + n + 12, snd x - (n + 12)) (f1 @ f2)\<rparr>)"
    and "unat (fst x + n + 12) = unat (fst x) + unat n + 12"
proof -
  from w obtain bs where bs: "mset bs = mset (a_used h @ a_free h)" "\<forall>x \<in> set bs. 32 \<le> snd x"
    and st: "set bs = set (a_used h) \<union> set (a_free h)"
    and ti: "tiling (unat (a_start h)) bs (unat (a_start h) + unat (a_cur h))"
    by (rule aheap_wfE)
  from st x have "x \<in> set bs" by simp
  then obtain b1 b2 where b: "bs = b1 @ x # b2" by (auto dest: split_list)
  have "unat (snd x - n) = unat (snd x) - unat n" using n(2) by (rule unat_minus_nowrap)
  with n(2,3) have nn: "unat n + 44 \<le> unat (snd x)" by (simp add: word_le_nat_alt)
  have n12: "unat (n + 12) = unat n + 12" using nn unat_u32_less [of "snd x"] by (subst unat_plus_nowrap) auto
  have sz: "unat (snd x - (n + 12)) = unat (snd x) - unat n - 12"
    using nn n12 by (subst unat_minus_nowrap) (auto simp: word_le_nat_alt)
  have "blk_end x \<le> unat (a_start h) + unat (a_cur h)"
    using tiling_bounds [OF ti, of x] b by simp
  then have "unat (fst x) + unat n + 12 < 2 ^ 32" 
    using nn aheap_wf_limits(5) [OF w] by simp
  then show ad: "unat (fst x + n + 12) = unat (fst x) + unat n + 12"
    using n12 unat_plus_nowrap [of "fst x" "n + 12"] by (simp add: add.assoc)
  let ?y = "(fst x + n + 12, snd x - (n + 12))"
  have "tiling (unat (a_start h)) (b1 @ (fst x, n) # ?y # b2) (unat (a_start h) + unat (a_cur h))"
  proof -
    from ti b obtain m where m: "tiling (unat (a_start h)) b1 m" "unat (fst x) = m"
      "tiling (m + 12 + unat (snd x)) b2 (unat (a_start h) + unat (a_cur h))"
      by (auto simp: tiling_append)
    have "m + 12 + unat n + 12 + unat (snd x - (n + 12)) = m + 12 + unat (snd x)"
      using sz nn by simp
    with m(3) have "tiling (m + 12 + unat n + 12 + unat (snd x - (n + 12))) b2
      (unat (a_start h) + unat (a_cur h))" by (simp only:)
    with m(1,2) ad show ?thesis by (simp add: tiling_append)
  qed
  moreover have "mset (b1 @ (fst x, n) # ?y # b2) =
      mset ((a_used h @ [(fst x, n)]) @ a_insert ?y (f1 @ f2))"
    using bs(1) x by (simp add: b)
  moreover have "32 \<le> snd ?y" using sz nn by (simp add: word_le_nat_alt)
  then have "\<forall>z \<in> set (b1 @ (fst x, n) # ?y # b2). 32 \<le> snd z" using bs(2) n(1) by (simp add: b)
  moreover have "sorted (map snd (f1 @ f2))"
    using aheap_wf_limits(6) [OF w] by (simp add: x sorted_append)
  ultimately show "aheap_wf (h\<lparr>a_used := a_used h @ [(fst x, n)], a_free := a_insert ?y (f1 @ f2)\<rparr>)"
    using aheap_wf_upd [OF w, of "b1 @ (fst x, n) # ?y # b2" "a_cur h"] aheap_wf_limits(4) [OF w]
    by (simp add: sorted_a_insert)
qed

lemma aheap_wf_take:
  assumes w: "aheap_wf h" and x: "a_free h = f1 @ x # f2"
  shows "aheap_wf (h\<lparr>a_used := a_used h @ [x], a_free := f1 @ f2\<rparr>)"
  using assms by (auto simp: aheap_wf_def sorted_append ball_Un)

lemma aheap_wf_release:
  assumes w: "aheap_wf h" and x: "a_used h = u1 @ x # u2"
  shows "aheap_wf (h\<lparr>a_used := u1 @ u2, a_free := a_insert x (a_free h)\<rparr>)"
  using assms by (auto simp: aheap_wf_def sorted_a_insert ball_Un)

lemma req_ge: "32 \<le> req n0" "n0 \<le> req n0"
  by (auto simp: req_def)

lemma req_bound: "unat n0 < 2 ^ 31 \<Longrightarrow> unat (req n0) < 2 ^ 31"
  by (simp add: req_def)

lemma a_get_free_cases:
  assumes "a_get_free n0 pa h = Some (a, h')"
  obtains (take) f1 x f2 where "a_free h = f1 @ x # f2" and "fits pa (req n0) x"
      and "find (fits pa (req n0)) (a_free h) = Some x" and "snd x - req n0 < 44" and "a = fst x" and "h' = h\<lparr>a_used := a_used h @ [x], a_free := f1 @ f2\<rparr>"
  | (split) f1 x f2 where "a_free h = f1 @ x # f2" and "fits pa (req n0) x"
      and "find (fits pa (req n0)) (a_free h) = Some x" and "44 \<le> snd x - req n0" and "a = fst x"
      and "h' = h\<lparr>a_used := a_used h @ [(fst x, req n0)],
             a_free := a_insert (fst x + req n0 + 12, snd x - (req n0 + 12)) (f1 @ f2)\<rparr>"
  | (grow) x h1 where "a_expand (req n0) pa h = Some (x, h1)" and "find (fits pa (req n0)) (a_free h) = None"
      and "a = fst x"
      and "h' = h1\<lparr>a_used := a_used h1 @ [x]\<rparr>"
proof (cases "find (fits pa (req n0)) (a_free h)")
  case None
  with assms grow show ?thesis by (auto simp: a_get_free_def split: option.splits)
next
  case (Some x)
  then obtain f1 f2 where f: "a_free h = f1 @ x # f2" "fits pa (req n0) x" "remove1 x (a_free h) = f1 @ f2"
    by (rule find_SomeE)
  show ?thesis
  proof (cases "snd x - req n0 < 44")
    case True
    with assms Some f show ?thesis by (intro take [of f1 x f2]) (auto simp: a_get_free_def Let_def)
  next
    case False
    with assms Some f show ?thesis by (intro split [of f1 x f2]) (auto simp: a_get_free_def Let_def)
  qed
qed

text \<open>What an allocation gives: a new block at the end of the used list, large enough, page
  aligned when asked for; the used blocks before it are untouched.\<close>

lemma a_get_free_ok:
  assumes w: "aheap_wf h" and n: "unat n0 < 2 ^ 31" and g: "a_get_free n0 pa h = Some (a, h')"
  shows "aheap_wf h' \<and> a_start h' = a_start h \<and> a_max h' = a_max h \<and>
    (\<exists>sz. a_used h' = a_used h @ [(a, sz)] \<and> n0 \<le> sz \<and> (pa \<longrightarrow> (a + 12) AND 0xFFF = 0))"
  using g
proof (cases rule: a_get_free_cases)
  case (take f1 x f2)
  with aheap_wf_take [OF w take(1)] show ?thesis
    by (cases x) (auto simp: fits_def intro: order_trans [OF req_ge(2)])
next
  case (split f1 x f2)
  then have "aheap_wf h'" using aheap_wf_split [OF w split(1) req_ge(1) [of n0]] by (simp add: fits_def)
  with split show ?thesis by (simp add: fits_def req_ge)
next
  case (grow x h1)
  from a_expand_tiles [OF w req_ge(1) req_bound [OF n] grow(1)] obtain ex c where
    h1: "h1 = h\<lparr>a_cur := c, a_free := fold a_insert ex (a_free h)\<rparr>" and x: "snd x = req n0"
    and ex: "\<forall>y \<in> set ex. 32 \<le> snd y" "unat c \<le> unat (a_max h) + 0x1000"
    "tiling (unat (a_start h) + unat (a_cur h)) (ex @ [x]) (unat (a_start h) + unat c)"
    and al: "pa \<longrightarrow> (fst x + 12) AND 0xFFF = 0" by blast
  have "h' = h\<lparr>a_cur := c, a_used := a_used h @ [x], a_free := fold a_insert ex (a_free h)\<rparr>"
    using grow(4) h1 by (cases h) simp
  with aheap_wf_grow [OF w _ ex] x al grow(3) show ?thesis
    by (cases x) (simp add: req_ge)
qed

lemma a_free_node_ok:
  assumes w: "aheap_wf h" and g: "a_free_node node h = Some h'"
  shows "aheap_wf h' \<and> a_start h' = a_start h \<and> a_max h' = a_max h \<and> a_cur h' = a_cur h \<and>
    (\<exists>u1 x u2. a_used h = u1 @ x # u2 \<and> fst x = node \<and> a_used h' = u1 @ u2 \<and>
       a_free h' = a_insert x (a_free h))"
proof -
  from g obtain x where x: "find (\<lambda>x. fst x = node) (a_used h) = Some x"
    and h': "h' = h\<lparr>a_used := remove1 x (a_used h), a_free := a_insert x (a_free h)\<rparr>"
    by (auto simp: a_free_node_def split: option.splits)
  from x obtain u1 u2 where "a_used h = u1 @ x # u2" "fst x = node" "remove1 x (a_used h) = u1 @ u2"
    by (rule find_SomeE)
  with aheap_wf_release [OF w, of u1 x u2] h' show ?thesis by (simp del: split_paired_Ex) blast
qed

subsection \<open>The pointer code refines the list allocator\<close>

definition habs :: "ll_state \<Rightarrow> aheap \<Rightarrow> block list \<Rightarrow> bool" where
  "habs s h ls \<longleftrightarrow> hrel s (a_used h) (a_free h) ls \<and> memstart (ll_list s) = a_start h \<and>
     maxsize (ll_list s) = a_max h \<and> cursize (ll_list s) = a_cur h"

lemma hrel_cursize [simp]:
  "ll_list s = l \<Longrightarrow> hrel (s\<lparr>ll_list := l\<lparr>cursize := c\<rparr>\<rparr>) us fs ls = hrel s us fs ls"
  by (auto simp: hrel_def)

lemma habs_fresh:
  assumes "aheap_wf h" and "unat (a_start h) + unat (a_cur h) \<le> unat a"
  shows "a \<notin> fst ` set (a_used h @ a_free h)" and "a \<noteq> 0"
proof -
  from assms(1) obtain bs where bs: "set bs = set (a_used h) \<union> set (a_free h)"
    and ti: "tiling (unat (a_start h)) bs (unat (a_start h) + unat (a_cur h))" by (rule aheap_wfE)
  have "a \<noteq> fst x" if "x \<in> set bs" for x using tiling_bounds [OF ti that] assms(2) by auto
  with bs show "a \<notin> fst ` set (a_used h @ a_free h)" by force
  have "0 < unat (a_start h)" using assms(1) by (simp add: aheap_wf_def word_less_nat_alt)
  with assms(2) show "a \<noteq> 0" by auto
qed

lemma expand_heap_align_split_refines:
  assumes h: "habs s h []" and w: "aheap_wf h" and e: "unat (a_start h) + unat (a_cur h) = unat e"
    and l: "unat e < unat (e + off - 12)"
  shows "\<exists>s'. expand_heap_align_split n e off s = Some (e + off - 12, s') \<and>
    habs s' (h\<lparr>a_cur := a_cur h + (off + n), a_free := a_insert (e, off - 24) (a_free h)\<rparr>) [(e + off - 12, n)] \<and>
    ll_errno s' = ll_errno s \<and> user (ll_list s') = user (ll_list s)"
proof -
  have "hrel (init_node e (off - 24) s) (a_used h) (a_free h) [(e, off - 24)]"
    using h habs_fresh [OF w, of e] e by (intro hrel_init_node) (auto simp: habs_def)
  from add_to_free_hrel [OF this] obtain s1 where
    s1: "add_to_free e (init_node e (off - 24) s) = Some s1"
    "hrel s1 (a_used h) (a_insert (e, off - 24) (a_free h)) []" "params s1 = params (init_node e (off - 24) s)"
    by auto
  have ne: "e + off - 12 \<noteq> e" using l by auto
  have "hrel (init_node (e + off - 12) n s1) (a_used h) (a_insert (e, off - 24) (a_free h)) [(e + off - 12, n)]"
    using s1(2) habs_fresh [OF w, of "e + off - 12"] e l ne by (intro hrel_init_node) auto
  moreover have "ll_list (init_node (e + off - 12) n s1) = ll_list s1"
    "ll_errno (init_node (e + off - 12) n s1) = ll_errno s1" by (simp_all add: init_node_def)
  moreover from h s1(3) have "memstart (ll_list s1) = a_start h" "maxsize (ll_list s1) = a_max h"
    "cursize (ll_list s1) = a_cur h" "ll_errno s1 = ll_errno s" "user (ll_list s1) = user (ll_list s)"
    by (simp_all add: habs_def params_def init_node_def)
  ultimately show ?thesis using s1(1)
    by (simp add: expand_heap_align_split_def habs_def Let_def)
qed

lemma expand_heap_refines:
  assumes h: "habs s h []" and w: "aheap_wf h" and n: "32 \<le> n" "unat n < 2 ^ 31"
  shows "case a_expand n pa h of
      None \<Rightarrow> expand_heap n pa s = Some (0, s\<lparr>ll_errno := ENOMEM\<rparr>)
    | Some (x, h') \<Rightarrow> \<exists>s'. expand_heap n pa s = Some (fst x, s') \<and> habs s' h' [x] \<and>
        ll_errno s' = ll_errno s \<and> user (ll_list s') = user (ll_list s)"
proof (cases "a_expand n pa h")
  case None
  with h show ?thesis
    by (auto simp: a_expand_def expand_heap_def habs_def Let_def algebra_simps split: if_splits)
next
  case (Some p)
  obtain x h' where p: "p = (x, h')" by (cases p)
  with Some have x: "a_expand n pa h = Some (x, h')" by simp
  then show ?thesis
  proof (cases rule: a_expand_cases)
    case (aligned e off off')
    note ar = a_expand_aligned_arith [OF w n(2) aligned(1-4)]
    have "expand_heap n pa s = expand_heap_align_split n e off' s"
      using h aligned by (simp add: expand_heap_def habs_def Let_def)
    with expand_heap_align_split_refines [OF h w, of e off' n] ar aligned(7,8) x show ?thesis
      by simp
  next
    case (plain e)
    note ar = a_expand_plain_arith [OF w n(2) plain(1,2)]
    have "hrel (init_node e n s) (a_used h) (a_free h) [(e, n)]"
      using h habs_fresh [OF w, of e] ar by (intro hrel_init_node) (auto simp: habs_def)
    moreover have "12 + (a_cur h + n) \<le> a_max h" using plain(2) by (simp only: ac_simps)
    with h plain(1-3) have "expand_heap n pa s = Some (e, (init_node e n s)\<lparr>ll_list :=
        (ll_list (init_node e n s))\<lparr>cursize := a_cur h + (n + 12)\<rparr>\<rparr>)"
      by (cases pa) (simp_all add: expand_heap_def habs_def Let_def init_node_def diff_eq_eq)
    ultimately show ?thesis using plain(4,5) x h
      by (simp add: habs_def) (simp add: init_node_def)
  qed
qed

lemma split_fresh:
  assumes w: "aheap_wf h" and x: "x \<in> set (a_free h)"
    and a: "unat (fst x) < unat a" "unat a < blk_end x"
  shows "a \<notin> fst ` set (a_used h @ a_free h)" and "a \<noteq> 0"
proof -
  from w obtain bs where bs: "set bs = set (a_used h) \<union> set (a_free h)"
    and ti: "tiling (unat (a_start h)) bs (unat (a_start h) + unat (a_cur h))" by (rule aheap_wfE)
  have "a \<noteq> fst y" if "y \<in> set bs" for y
    using tiling_disjoint [OF ti that, of x] a x bs by (cases "y = x") auto
  with bs show "a \<notin> fst ` set (a_used h @ a_free h)" by force
  show "a \<noteq> 0" using a(1) by auto
qed

lemma split_fit_refines:
  assumes h: "hrel s us (f1 @ x # f2) []"
    and f: "fst x + n + 12 \<notin> fst ` set (us @ f1 @ x # f2)" "fst x + n + 12 \<noteq> 0"
    and n: "44 \<le> snd x - n"
  shows "\<exists>s'. split_fit n (fst x) s = Some (fst x, s') \<and> params s' = params s \<and>
    hrel s' (us @ [(fst x, n)]) (a_insert (fst x + n + 12, snd x - (n + 12)) (f1 @ f2)) []"
proof -
  let ?y = "(fst x + n + 12, snd x - (n + 12))"
  from h have "loose (ll_nodes s) x" by (auto simp: hrel_def intro: dll_member)
  then obtain k where k: "deref (ll_nodes s) (fst x) = Some k" "ll_size k = snd x"
    by (auto simp: deref_def elim: looseE)
  have "hrel (init_node (fst ?y) (snd ?y) s) us (f1 @ x # f2) [?y]"
    using hrel_init_node [OF h, of "fst ?y" "snd ?y"] f by simp
  from set_size_hrel [OF this, of n] obtain s1 where s1: "hrel s1 us (f1 @ (fst x, n) # f2) [?y]"
    "set_size (fst x) n (init_node (fst ?y) (snd ?y) s) = Some s1" "params s1 = params (init_node (fst ?y) (snd ?y) s)"
    by blast
  from mark_used_hrel [OF s1(1)] obtain s2 where s2: "hrel s2 (us @ [(fst x, n)]) (f1 @ f2) [?y]"
    "mark_used (fst x) s1 = Some s2" "params s2 = params s1" by auto
  from add_to_free_hrel [OF s2(1)] obtain s3 where
    s3: "hrel s3 (us @ [(fst x, n)]) (a_insert ?y (f1 @ f2)) []"
    "add_to_free (fst ?y) s2 = Some s3" "params s3 = params s2" by auto
  have "params (init_node (fst ?y) (snd ?y) s) = params s" by (simp add: params_def init_node_def)
  with k s1 s2 s3 show ?thesis by (simp add: split_fit_def Let_def leD [OF n])
qed

lemma take_refines:
  assumes h: "hrel s us (f1 @ x # f2) []" and n: "snd x - n < 44"
  shows "\<exists>s'. (if snd x \<noteq> n then split_fit n (fst x) s else perfect_fit (fst x) s) = Some (fst x, s') \<and>
    params s' = params s \<and> hrel s' (us @ [x]) (f1 @ f2) []"
proof -
  from h have "loose (ll_nodes s) x" by (auto simp: hrel_def intro: dll_member)
  then obtain k where k: "deref (ll_nodes s) (fst x) = Some k" "ll_size k = snd x"
    by (auto simp: deref_def elim: looseE)
  with mark_used_hrel [OF h] n show ?thesis by (auto simp: split_fit_def perfect_fit_def)
qed

lemma add_to_used_null: "add_to_used 0 s = None"
  by (simp add: add_to_used_def Let_def set_prev_def deref_def)

lemma get_free_found:
  assumes h: "hrel s us fs []" and f: "find (fits pa (req n0)) fs = Some x"
  shows "get_free n0 pa s =
    (if snd x \<noteq> req n0 then split_fit (req n0) (fst x) s else perfect_fit (fst x) s)"
proof -
  from f have "x \<in> set fs" by (auto simp: find_Some_iff)
  with h have "loose (ll_nodes s) x" by (auto simp: hrel_def intro: dll_member)
  then obtain k where k: "deref (ll_nodes s) (fst x) = Some k" "ll_size k = snd x" "fst x \<noteq> 0"
    by (auto simp: deref_def elim: looseE)
  with get_free_search [OF h, of pa "req n0"] f show ?thesis
    by (simp add: get_free_def req_def [symmetric] Let_def)
qed

lemma get_free_refines:
  assumes h: "habs s h []" and w: "aheap_wf h" and n: "unat n0 < 2 ^ 31"
  shows "case a_get_free n0 pa h of
      None \<Rightarrow> get_free n0 pa s = None
    | Some (a, h') \<Rightarrow> \<exists>s'. get_free n0 pa s = Some (a, s') \<and> habs s' h' [] \<and>
        ll_errno s' = ll_errno s \<and> user (ll_list s') = user (ll_list s)"
proof (cases "a_get_free n0 pa h")
  case None
  then have f: "find (fits pa (req n0)) (a_free h) = None" "a_expand (req n0) pa h = None"
    by (auto simp: a_get_free_def Let_def split: option.splits if_splits)
  with expand_heap_refines [OF h w req_ge(1) req_bound [OF n], of pa]
  have "expand_heap (req n0) pa s = Some (0, s\<lparr>ll_errno := ENOMEM\<rparr>)" by simp
  with f None get_free_search [of s "a_used h" "a_free h" "[]" pa "req n0"] h show ?thesis
    by (simp add: get_free_def req_def [symmetric] habs_def Let_def add_to_used_null)
next
  case (Some p)
  obtain a h' where p: "p = (a, h')" by (cases p)
  have par: "habs s' h' []" if "params s' = params s" "hrel s' (a_used h') (a_free h') []"
    "a_start h' = a_start h" "a_max h' = a_max h" "a_cur h' = a_cur h" for s'
    using that h by (simp add: habs_def params_def)
  from h have hr: "hrel s (a_used h) (a_free h) []" by (simp add: habs_def)
  from Some p have "a_get_free n0 pa h = Some (a, h')" by simp
  then show ?thesis
  proof (cases rule: a_get_free_cases)
    case (take f1 x f2)
    from take_refines [of s "a_used h" f1 x f2 "req n0"] hr take obtain s' where
      "get_free n0 pa s = Some (a, s')" "params s' = params s" "hrel s' (a_used h @ [x]) (f1 @ f2) []"
      by (auto simp: get_free_found [OF hr take(3)])
    with take Some p par show ?thesis by (simp add: params_def)
  next
    case (split f1 x f2)
    have sz: "req n0 \<le> snd x" using split(2) by (simp add: fits_def)
    note ad = aheap_wf_split(2) [OF w split(1) req_ge(1) sz split(4)]
    have "unat (req n0) + 44 \<le> unat (snd x)"
      using split(4) unat_minus_nowrap [OF sz] sz by (simp add: word_le_nat_alt)
    with split_fresh [OF w, of x "fst x + req n0 + 12"] ad split(1)
    have "fst x + req n0 + 12 \<notin> fst ` set (a_used h @ a_free h)" "fst x + req n0 + 12 \<noteq> 0" by simp_all
    with split_fit_refines [of s "a_used h" f1 x f2 "req n0"] hr split obtain s' where
      "split_fit (req n0) (fst x) s = Some (a, s')" "params s' = params s"
      "hrel s' (a_used h @ [(fst x, req n0)]) (a_insert (fst x + req n0 + 12, snd x - (req n0 + 12)) (f1 @ f2)) []"
      by auto
    moreover have "snd x \<noteq> req n0" using split(4) by auto
    ultimately show ?thesis using split Some p par get_free_found [OF hr split(3)]
      by (simp add: params_def)
  next
    case (grow x h1)
    from expand_heap_refines [OF h w req_ge(1) req_bound [OF n], of pa] grow(1) obtain s1 where
      s1: "expand_heap (req n0) pa s = Some (fst x, s1)" "habs s1 h1 [x]"
      "ll_errno s1 = ll_errno s" "user (ll_list s1) = user (ll_list s)" by auto
    from add_to_used_hrel [of s1 "a_used h1" "a_free h1" x "[]"] s1(2) obtain s2 where
      "add_to_used (fst x) s1 = Some s2" "hrel s2 (a_used h1 @ [x]) (a_free h1) []" "params s2 = params s1"
      by (auto simp: habs_def)
    with s1 grow Some p get_free_search [OF hr, of pa "req n0"] show ?thesis
      by (simp add: get_free_def req_def [symmetric] Let_def habs_def params_def)
  qed
qed

lemma free_node_refines:
  assumes h: "habs s h []"
  shows "case a_free_node node h of
      None \<Rightarrow> free_node node s = Some (-1, s\<lparr>ll_errno := EFAULT\<rparr>)
    | Some h' \<Rightarrow> \<exists>s'. free_node node s = Some (0, s') \<and> habs s' h' [] \<and>
        ll_errno s' = ll_errno s \<and> user (ll_list s') = user (ll_list s)"
proof (cases "find (\<lambda>x. fst x = node) (a_used h)")
  case None
  then have "node \<notin> fst ` set (a_used h)" by (auto simp: find_None_iff)
  with None free_node_search [of s "a_used h" "a_free h" "[]" node] h show ?thesis
    by (simp add: a_free_node_def free_node_def habs_def)
next
  case (Some x)
  then obtain u1 u2 where u: "a_used h = u1 @ x # u2" "fst x = node" "remove1 x (a_used h) = u1 @ u2"
    by (rule find_SomeE)
  with h have "hrel s (u1 @ x # u2) (a_free h) []" by (simp add: habs_def)
  from mark_free_hrel [OF this] u(2) obtain s' where
    "mark_free node s = Some s'" "hrel s' (u1 @ u2) (a_insert x (a_free h)) []" "params s' = params s"
    by auto
  moreover from u have "node \<in> fst ` set (a_used h)" by auto
  ultimately show ?thesis using Some u free_node_search [of s "a_used h" "a_free h" "[]" node] h
    by (simp add: a_free_node_def free_node_def habs_def params_def)
qed

subsection \<open>Reachable heaps\<close>

text \<open>Reading a list of headers back as a list of blocks.\<close>

partial_function (option) blocks_from :: "ll_mem \<Rightarrow> addr \<Rightarrow> block list option" where
  "blocks_from m a = (if a = 0 then Some [] else do {
     n \<leftarrow> m a;
     xs \<leftarrow> blocks_from m (ll_next n);
     Some ((a, ll_size n) # xs) })"

definition used_blocks :: "ll_state \<Rightarrow> block list option" where
  "used_blocks s = blocks_from (ll_nodes s) (start_used (ll_list s))"

definition free_blocks :: "ll_state \<Rightarrow> block list option" where
  "free_blocks s = blocks_from (ll_nodes s) (start_free (ll_list s))"

lemma blocks_from_seg: "seg m p a xs q 0 \<Longrightarrow> blocks_from m a = Some xs"
proof (induction xs arbitrary: p a)
  case Nil
  then show ?case by (simp add: blocks_from.simps [of m 0])
next
  case (Cons x xs)
  then show ?case by (auto simp: blocks_from.simps [of m "fst x"])
qed

lemma habs_blocks:
  "habs s h ls \<Longrightarrow> used_blocks s = Some (a_used h) \<and> free_blocks s = Some (a_free h)"
  by (auto simp: habs_def hrel_def dll_def used_blocks_def free_blocks_def blocks_from_seg)

text \<open>The states of one heap: it starts empty, with arbitrary memory contents, and changes by
  allocations and frees. Clients write to the payloads only, which hold no header. Requests are smaller than \<open>2 ^ 31\<close> bytes: the code does not
  test this, and the sum in \<^verbatim>\<open>expand_heap\<close> wraps around for requests near \<open>2 ^ 32\<close> bytes.\<close>

inductive heap_reach :: "u32 \<Rightarrow> u32 \<Rightarrow> ll_state \<Rightarrow> bool" for st mx where
  init: "heap_reach st mx \<lparr>ll_nodes = m, ll_list = create_linkedlist st mx usr, ll_errno = e\<rparr>"
| get_free: "heap_reach st mx s \<Longrightarrow> unat n < 2 ^ 31 \<Longrightarrow> get_free n pa s = Some (a, s') \<Longrightarrow> heap_reach st mx s'"
| free_node: "heap_reach st mx s \<Longrightarrow> free_node a s = Some (r, s') \<Longrightarrow> heap_reach st mx s'"

definition heap_limits :: "u32 \<Rightarrow> u32 \<Rightarrow> bool" where
  "heap_limits st mx \<longleftrightarrow> 0 < st \<and> unat st + unat mx + 0x1000 < 2 ^ 32 \<and> unat mx \<le> 2 ^ 30"

lemma habs_init:
  assumes "heap_limits st mx"
  shows "\<exists>h. habs \<lparr>ll_nodes = m, ll_list = create_linkedlist st mx usr, ll_errno = e\<rparr> h [] \<and>
    aheap_wf h \<and> a_start h = st \<and> a_max h = mx"
  using assms
  by (intro exI [of _ "\<lparr>a_start = st, a_max = mx, a_cur = 0, a_used = [], a_free = []\<rparr>"])
    (auto simp: habs_def hrel_def create_linkedlist_def aheap_wf_def heap_limits_def)

lemma habs_get_free:
  assumes h: "habs s h []" and w: "aheap_wf h" and n: "unat n < 2 ^ 31" and g: "get_free n pa s = Some (a, s')"
  shows "\<exists>h'. a_get_free n pa h = Some (a, h') \<and> habs s' h' [] \<and> aheap_wf h'"
  using get_free_refines [OF h w n, of pa] a_get_free_ok [OF w n, of pa a] g
  by (auto split: option.splits)

lemma habs_free_node:
  assumes h: "habs s h []" and w: "aheap_wf h" and g: "free_node a s = Some (r, s')"
  shows "\<exists>h'. habs s' h' [] \<and> aheap_wf h' \<and> a_start h' = a_start h \<and> a_max h' = a_max h"
proof (cases "a_free_node a h")
  case None
  with free_node_refines [OF h, of a] g have "s' = s\<lparr>ll_errno := EFAULT\<rparr>" by simp
  with h w show ?thesis by (intro exI [of _ h]) (simp add: habs_def hrel_def)
next
  case (Some h')
  with free_node_refines [OF h, of a] g a_free_node_ok [OF w Some] show ?thesis by auto
qed

lemma heap_reach_habs:
  assumes "heap_reach st mx s" and "heap_limits st mx"
  obtains h where "habs s h []" and "aheap_wf h" and "a_start h = st" and "a_max h = mx"
proof -
  from assms(1) have "\<exists>h. habs s h [] \<and> aheap_wf h \<and> a_start h = st \<and> a_max h = mx"
  proof induction
    case (init m usr e)
    then show ?case using assms(2) by (rule habs_init)
  next
    case (get_free s n pa a s')
    then show ?case using habs_get_free a_get_free_ok by metis
  next
    case (free_node s a r s')
    then show ?case using habs_free_node by metis
  qed
  with that show thesis by blast
qed

subsection \<open>Properties\<close>

lemma aheap_wf_blocks:
  assumes w: "aheap_wf h"
  shows "distinct (a_used h @ a_free h)"
    and "x \<in> set (a_used h @ a_free h) \<Longrightarrow> unat (a_start h) \<le> unat (fst x) \<and>
      blk_end x \<le> unat (a_start h) + unat (a_cur h)"
    and "x \<in> set (a_used h @ a_free h) \<Longrightarrow> y \<in> set (a_used h @ a_free h) \<Longrightarrow> x \<noteq> y \<Longrightarrow>
      blk_end x \<le> unat (fst y) \<or> blk_end y \<le> unat (fst x)"
    and "(\<Sum>x\<leftarrow>a_used h @ a_free h. 12 + unat (snd x)) = unat (a_cur h)"
proof -
  from w obtain bs where bs: "mset bs = mset (a_used h @ a_free h)" "set bs = set (a_used h) \<union> set (a_free h)"
    and ti: "tiling (unat (a_start h)) bs (unat (a_start h) + unat (a_cur h))" by (rule aheap_wfE)
  have "distinct bs" using tiling_distinct [OF ti] by (simp add: distinct_map)
  then show "distinct (a_used h @ a_free h)" using bs(1) by (metis mset_eq_imp_distinct_iff)
  show "x \<in> set (a_used h @ a_free h) \<Longrightarrow> unat (a_start h) \<le> unat (fst x) \<and>
      blk_end x \<le> unat (a_start h) + unat (a_cur h)"
    using tiling_bounds [OF ti, of x] bs(2) by simp
  show "x \<in> set (a_used h @ a_free h) \<Longrightarrow> y \<in> set (a_used h @ a_free h) \<Longrightarrow> x \<noteq> y \<Longrightarrow>
      blk_end x \<le> unat (fst y) \<or> blk_end y \<le> unat (fst x)"
    using tiling_disjoint [OF ti, of x y] bs(2) by simp
  have "sum_list (map f bs) = sum_list (map f (a_used h @ a_free h))" for f :: "block \<Rightarrow> nat"
    using bs(1) by (metis mset_map sum_mset_sum_list)
  moreover have "tiling a xs e \<Longrightarrow> a + (\<Sum>x\<leftarrow>xs. 12 + unat (snd x)) = e" for a xs e
    by (induction xs arbitrary: a) fastforce+
  from this [OF ti] have "(\<Sum>x\<leftarrow>bs. 12 + unat (snd x)) = unat (a_cur h)" by simp
  ultimately show "(\<Sum>x\<leftarrow>a_used h @ a_free h. 12 + unat (snd x)) = unat (a_cur h)" by simp
qed

text \<open>C4. The pointer code of \<^verbatim>\<open>get_free\<close> implements the list-level allocator, for requests of less than \<open>2 ^ 31\<close> bytes: when the headers in
  memory represent the block lists of \<open>h\<close>, and these tile the heap, the call returns exactly the
  address the list-level allocator returns, leaves headers that represent its new lists, which
  tile the heap again, and does not return at all (it writes through a null pointer) exactly when
  the list-level allocator has neither a fitting free block nor room to grow.\<close>

theorem get_free_refinement:
  assumes "habs s h []" and "aheap_wf h" and "unat n < 2 ^ 31"
  shows "case a_get_free n pa h of
      None \<Rightarrow> get_free n pa s = None
    | Some (a, h') \<Rightarrow> \<exists>s'. get_free n pa s = Some (a, s') \<and> habs s' h' [] \<and> aheap_wf h'"
proof (cases "a_get_free n pa h")
  case None
  with get_free_refines [OF assms, of pa] show ?thesis by simp
next
  case (Some p)
  with get_free_refines [OF assms, of pa] a_get_free_ok [OF assms(2,3), of pa "fst p" "snd p"]
  show ?thesis by (auto simp: split_beta)
qed

definition kheap0 :: ll_state where
  "kheap0 = \<lparr>ll_nodes = Map.empty, ll_list = create_linkedlist 0xC0000000 0x1000000 0, ll_errno = 0\<rparr>"

definition akheap0 :: aheap where
  "akheap0 = \<lparr>a_start = 0xC0000000, a_max = 0x1000000, a_cur = 0, a_used = [], a_free = []\<rparr>"

lemma habs_kheap0: "habs kheap0 akheap0 []" "aheap_wf akheap0"
  by (simp_all add: habs_def kheap0_def akheap0_def hrel_def create_linkedlist_def aheap_wf_def)

lemma a_get_free_kheap0: "a_get_free 10 False akheap0 =
  Some (0xC0000000, akheap0\<lparr>a_cur := 44, a_used := [(0xC0000000, 32)]\<rparr>)"
  by (simp add: a_get_free_def a_expand_def akheap0_def req_def Let_def)

theorem get_free_refinement_witness:
  "\<exists>s'. get_free 10 False kheap0 = Some (0xC0000000, s') \<and>
    habs s' (akheap0\<lparr>a_cur := 44, a_used := [(0xC0000000, 32)]\<rparr>) []"
  using get_free_refinement [OF habs_kheap0, of 10 False] by (auto simp: a_get_free_kheap0)

lemma heap_limits_kheap: "heap_limits 0xC0000000 0x1000000"
  by (simp add: heap_limits_def)

lemma heap_reach_kheap0: "heap_reach 0xC0000000 0x1000000 kheap0"
  unfolding kheap0_def by (rule heap_reach.init)

text \<open>C1. Memory safety of allocation, for requests of less than \<open>2 ^ 31\<close> bytes. In every heap of at most \<open>2 ^ 30\<close> bytes, below the end of the
  address space, that such requests and frees reach, a call \<^verbatim>\<open>get_free(n, list, pa)\<close> with \<open>n < 2 ^ 31\<close> that
  returns adds exactly one block to the used list: it is at least \<open>n\<close> bytes large, it lies inside
  the heap, its header and payload overlap no block that was in use before, and its payload starts
  on a page when a page-aligned block was asked for.\<close>

theorem get_free_safe:
  assumes "heap_reach st mx s" and "heap_limits st mx" and "unat n < 2 ^ 31"
    and "get_free n pa s = Some (a, s')"
  shows "\<exists>us sz. used_blocks s = Some us \<and> used_blocks s' = Some (us @ [(a, sz)]) \<and> n \<le> sz \<and>
    unat st \<le> unat a \<and> blk_end (a, sz) \<le> unat st + unat (cursize (ll_list s')) \<and>
    (\<forall>y \<in> set us. blk_end (a, sz) \<le> unat (fst y) \<or> blk_end y \<le> unat a) \<and>
    (pa \<longrightarrow> (a + LL_NODE_SIZE) AND 0xFFF = 0)"
proof -
  from assms(1,2) obtain h where h: "habs s h []" "aheap_wf h" "a_start h = st" by (rule heap_reach_habs)
  from habs_get_free [OF h(1,2) assms(3,4)] obtain h' where
    h': "a_get_free n pa h = Some (a, h')" "habs s' h' []" "aheap_wf h'" by blast
  from a_get_free_ok [OF h(2) assms(3) h'(1)] obtain sz where
    u: "a_used h' = a_used h @ [(a, sz)]" "n \<le> sz" "pa \<longrightarrow> (a + 12) AND 0xFFF = 0" "a_start h' = st"
    using h(3) by blast
  note b = aheap_wf_blocks [OF h'(3)]
  have "\<forall>y \<in> set (a_used h). y \<noteq> (a, sz)" using b(1) u(1) by auto
  then have "\<forall>y \<in> set (a_used h). blk_end (a, sz) \<le> unat (fst y) \<or> blk_end y \<le> unat a"
    using b(3) [of "(a, sz)"] u(1) by fastforce
  moreover have "cursize (ll_list s') = a_cur h'" using h'(2) by (simp add: habs_def)
  ultimately show ?thesis using habs_blocks [OF h(1)] habs_blocks [OF h'(2)] u b(2) [of "(a, sz)"]
    by (intro exI [of _ "a_used h"] exI [of _ sz]) simp
qed

theorem get_free_safe_witness:
  "\<exists>s' us sz. get_free 10 False kheap0 = Some (0xC0000000, s') \<and>
     used_blocks s' = Some (us @ [(0xC0000000, sz)]) \<and> 10 \<le> sz"
proof -
  from get_free_refines [OF habs_kheap0, of 10 False] obtain s' where
    g: "get_free 10 False kheap0 = Some (0xC0000000, s')" by (auto simp: a_get_free_kheap0)
  from get_free_safe [OF heap_reach_kheap0 heap_limits_kheap _ g] g show ?thesis by auto
qed

text \<open>C5. Freeing. In every reachable heap, \<^verbatim>\<open>free_node\<close> on the header of a used block takes exactly
  that block out of the used list, inserts it into the free list before the first strictly larger
  block, and returns 0; on any other pointer, null or wild included, it returns -1 with
  \<^verbatim>\<open>errno = EFAULT\<close> and leaves the heap as it was.\<close>

theorem free_node_correct:
  assumes "heap_reach st mx s" and "heap_limits st mx"
    and "used_blocks s = Some us" and "free_blocks s = Some fs"
  shows "if node \<in> fst ` set us
    then \<exists>u1 sz u2 s'. us = u1 @ (node, sz) # u2 \<and> free_node node s = Some (0, s') \<and>
      used_blocks s' = Some (u1 @ u2) \<and> free_blocks s' = Some (a_insert (node, sz) fs) \<and>
      ll_errno s' = ll_errno s
    else free_node node s = Some (-1, s\<lparr>ll_errno := EFAULT\<rparr>)"
proof -
  from assms(1,2) obtain h where h: "habs s h []" "aheap_wf h" by (rule heap_reach_habs)
  with assms(3,4) have uf: "us = a_used h" "fs = a_free h" using habs_blocks by fastforce+
  note r = free_node_refines [OF h(1), of node]
  show ?thesis
  proof (cases "a_free_node node h")
    case None
    then have "node \<notin> fst ` set us"
      by (auto simp: a_free_node_def uf find_None_iff split: option.splits)
    with r None show ?thesis by simp
  next
    case (Some h')
    with r obtain s' where s': "free_node node s = Some (0, s')" "habs s' h' []" "ll_errno s' = ll_errno s"
      by auto
    from a_free_node_ok [OF h(2) Some] obtain u1 sz u2 where
      u: "us = u1 @ (node, sz) # u2" "a_used h' = u1 @ u2" "a_free h' = a_insert (node, sz) fs"
      by (auto simp: uf)
    then have "node \<in> fst ` set us" by force
    with s' u habs_blocks [OF s'(2)] show ?thesis by simp blast
  qed
qed

theorem free_node_correct_witness:
  "free_node 0 kheap0 = Some (-1, kheap0\<lparr>ll_errno := EFAULT\<rparr>)"
  using free_node_correct [OF heap_reach_kheap0 heap_limits_kheap, of "[]" "[]" 0] habs_blocks [OF habs_kheap0(1)]
  by (simp add: akheap0_def)

text \<open>C2. The heap invariant, for requests of less than \<open>2 ^ 31\<close> bytes. In every heap of at most \<open>2 ^ 30\<close> bytes, below the end of the address
  space, reached by any sequence of allocations of less than \<open>2 ^ 31\<close> bytes each and of frees, the two lists can be read to their ends, the free list is ordered by size, the blocks of both lists
  are pairwise disjoint, at least 32 bytes large, and together with their headers they fill the
  heap from its start to its current end: no byte is lost and none is in two blocks. The current
  end is at most one page beyond the maximum.\<close>

theorem heap_invariant:
  assumes "heap_reach st mx s" and "heap_limits st mx"
  shows "\<exists>us fs. used_blocks s = Some us \<and> free_blocks s = Some fs \<and> sorted (map snd fs) \<and>
    distinct (us @ fs) \<and>
    (\<forall>x \<in> set (us @ fs). 32 \<le> snd x \<and> unat st \<le> unat (fst x) \<and>
       blk_end x \<le> unat st + unat (cursize (ll_list s))) \<and>
    (\<forall>x \<in> set (us @ fs). \<forall>y \<in> set (us @ fs). x \<noteq> y \<longrightarrow>
       blk_end x \<le> unat (fst y) \<or> blk_end y \<le> unat (fst x)) \<and>
    (\<Sum>x\<leftarrow>us @ fs. 12 + unat (snd x)) = unat (cursize (ll_list s)) \<and>
    unat (cursize (ll_list s)) \<le> unat mx + 0x1000"
proof -
  from assms obtain h where h: "habs s h []" "aheap_wf h" "a_start h = st" "a_max h = mx"
    by (rule heap_reach_habs)
  note b = aheap_wf_blocks [OF h(2)]
  have bnd: "\<forall>x \<in> set (a_used h @ a_free h). 32 \<le> snd x \<and> unat st \<le> unat (fst x) \<and>
      blk_end x \<le> unat st + unat (a_cur h)" 
    using h(2) [unfolded aheap_wf_def] b(2) [unfolded h(3)] by blast
  have dis: "\<forall>x \<in> set (a_used h @ a_free h). \<forall>y \<in> set (a_used h @ a_free h). x \<noteq> y \<longrightarrow>
      blk_end x \<le> unat (fst y) \<or> blk_end y \<le> unat (fst x)" using b(3) by blast
  have c: "cursize (ll_list s) = a_cur h" using h(1) by (simp add: habs_def)
  show ?thesis unfolding c
    using habs_blocks [OF h(1)] b(1,4) bnd dis aheap_wf_limits(4,6) [OF h(2), unfolded h(4)] by blast
qed

theorem heap_invariant_witness:
  "\<exists>us fs. used_blocks kheap0 = Some us \<and> free_blocks kheap0 = Some fs \<and> distinct (us @ fs)"
  using heap_invariant [OF heap_reach_kheap0 heap_limits_kheap] by blast

text \<open>C6. When the kernel runs out of heap. In every reachable heap, \<^verbatim>\<open>get_free\<close> of less than \<open>2 ^ 31\<close> bytes fails to return
  (it hands the null result of \<^verbatim>\<open>expand_heap\<close> to \<^verbatim>\<open>add_to_used\<close>, which writes through it) exactly when
  no free block fits and \<^verbatim>\<open>expand_heap\<close> reports \<^verbatim>\<open>ENOMEM\<close>; its callers' tests for a null result are
  never reached.\<close>

theorem get_free_out_of_memory:
  assumes "heap_reach st mx s" and "heap_limits st mx" and "unat n < 2 ^ 31"
    and "free_blocks s = Some fs"
  shows "get_free n pa s = None \<longleftrightarrow>
    find (fits pa (req n)) fs = None \<and> expand_heap (req n) pa s = Some (0, s\<lparr>ll_errno := ENOMEM\<rparr>)"
proof -
  from assms(1,2) obtain h where h: "habs s h []" "aheap_wf h" by (rule heap_reach_habs)
  then have fs: "fs = a_free h" using assms(4) habs_blocks by fastforce
  have nz: "fst x \<noteq> 0" if "a_expand (req n) pa h = Some (x, h')" for x h'
  proof -
    from a_expand_tiles [OF h(2) req_ge(1) req_bound [OF assms(3)] that] obtain ex and c :: u32 where
      "tiling (unat (a_start h) + unat (a_cur h)) (ex @ [x]) (unat (a_start h) + unat c)" by blast
    then have "unat (a_start h) \<le> unat (fst x)" using tiling_bounds by fastforce
    with aheap_wf_limits(1) [OF h(2)] show ?thesis by (auto simp: word_less_nat_alt)
  qed
  note g = get_free_refines [OF h assms(3), of pa]
  note e = expand_heap_refines [OF h req_ge(1) req_bound [OF assms(3)], of pa]
  show ?thesis
  proof (cases "find (fits pa (req n)) fs")
    case None
    show ?thesis
    proof (cases "a_expand (req n) pa h")
      case e0: None
      then have "a_get_free n pa h = None" using None by (simp add: a_get_free_def fs)
      with None g e e0 show ?thesis by simp
    next
      case (Some p)
      then have "a_get_free n pa h \<noteq> None" using None by (simp add: a_get_free_def fs split_beta)
      with g have "get_free n pa s \<noteq> None" by auto
      moreover from e Some nz [of "fst p" "snd p"] have "expand_heap (req n) pa s \<noteq> Some (0, s\<lparr>ll_errno := ENOMEM\<rparr>)"
        by (cases p) auto
      ultimately show ?thesis by simp
    qed
  next
    case (Some x)
    then have "a_get_free n pa h \<noteq> None" by (simp add: a_get_free_def fs Let_def)
    with g Some show ?thesis by auto
  qed
qed

theorem get_free_out_of_memory_witness:
  "get_free 0x2000000 False kheap0 = None"
  using get_free_out_of_memory [OF heap_reach_kheap0 heap_limits_kheap, where n = "0x2000000" and fs = "[]" and pa = False]
    habs_blocks [OF habs_kheap0(1)]
  by (simp add: akheap0_def kheap0_def create_linkedlist_def expand_heap_def req_def Let_def)

text \<open>C38. A request of almost the whole address space wraps around. In every reachable heap that has not grown beyond its maximum,
  \<^verbatim>\<open>get_free\<close> grants a request of \<open>2 ^ 32 - 12\<close> bytes: the test of \<^verbatim>\<open>expand_heap\<close> adds the size and the header to 0, so a
  block of that size is put into the used list at the end of the heap, and the end of the heap does not move: the
  block is not inside the heap, and the next block the heap grows by starts at the same address.\<close>

theorem get_free_wraps:
  assumes "heap_reach st mx s" and "heap_limits st mx" and "cursize (ll_list s) \<le> mx"
  shows "\<exists>us s'. used_blocks s = Some us \<and> get_free 0xFFFFFFF4 False s = Some (st + cursize (ll_list s), s') \<and>
    used_blocks s' = Some (us @ [(st + cursize (ll_list s), 0xFFFFFFF4)]) \<and>
    memstart (ll_list s') = st \<and> cursize (ll_list s') = cursize (ll_list s)"
proof -
  let ?n = "0xFFFFFFF4 :: u32"
  from assms(1,2) obtain h where h: "habs s h []" "aheap_wf h" "a_start h = st" "a_max h = mx" by (rule heap_reach_habs)
  let ?e = "st + a_cur h"
  have c: "cursize (ll_list s) = a_cur h" "memstart (ll_list s) = st" "maxsize (ll_list s) = mx" using h by (simp_all add: habs_def)
  have hr: "hrel s (a_used h) (a_free h) []" using h(1) by (simp add: habs_def)
  note lim = h(2) [unfolded aheap_wf_def h(3,4)]
  have "\<not> fits False ?n x" if "x \<in> set (a_free h)" for x
    using aheap_wf_blocks(2) [OF h(2), of x] that lim h(3) by (auto simp: fits_def word_le_nat_alt)
  then have f: "find (fits False (req ?n)) (a_free h) = None" by (simp add: find_None_iff req_def)
  have e: "unat ?e = unat st + unat (a_cur h)" using lim by (intro unat_plus_nowrap) auto
  have i: "hrel (init_node ?e ?n s) (a_used h) (a_free h) [(?e, ?n)]"
    using hr habs_fresh [OF h(2), of ?e] e h(3) by (intro hrel_init_node) auto
  let ?s = "(init_node ?e ?n s)\<lparr>ll_list := ll_list s\<rparr>"
  have z: "a_cur h + ?n + 12 = a_cur h" "a_cur h + (?n + 12) = a_cur h" by simp_all
  have req: "req ?n = ?n" by (simp add: req_def)
  have x: "expand_heap (req ?n) False s = Some (?e, ?s)"
    unfolding expand_heap_def Let_def req c z using assms(3) c by simp
  have "hrel ?s (a_used h) (a_free h) [(?e, ?n)]" using i by (simp add: init_node_def)
  from add_to_used_hrel [OF this] obtain s2 where
    s2: "add_to_used ?e ?s = Some s2" "hrel s2 (a_used h @ [(?e, ?n)]) (a_free h) []" "params s2 = params ?s" by auto
  have "get_free ?n False s = Some (?e, s2)"
    using x s2(1) f get_free_search [OF hr, of False "req ?n"] unfolding req by (auto simp: get_free_def Let_def split: if_splits)
  moreover have "used_blocks s2 = Some (a_used h @ [(?e, ?n)])"
    using s2(2) by (auto simp: hrel_def dll_def used_blocks_def blocks_from_seg)
  ultimately show ?thesis using habs_blocks [OF h(1)] s2(3) c by (auto simp: params_def)
qed

text \<open>After it, the heap hands out the same address again.\<close>

theorem get_free_wraps_witness:
  "\<exists>s1 s2. get_free 0xFFFFFFF4 False kheap0 = Some (0xC0000000, s1) \<and> used_blocks s1 = Some [(0xC0000000, 0xFFFFFFF4)] \<and>
    get_free 32 False s1 = Some (0xC0000000, s2)"
proof -
  from get_free_wraps [OF heap_reach_kheap0 heap_limits_kheap] obtain s1 where
    s1: "get_free 0xFFFFFFF4 False kheap0 = Some (0xC0000000, s1)" "used_blocks s1 = Some [(0xC0000000, 0xFFFFFFF4)]"
    using habs_blocks [OF habs_kheap0(1)] by (auto simp: kheap0_def akheap0_def create_linkedlist_def)
  have "\<exists>s2. get_free 32 False s1 = Some (0xC0000000, s2)" using s1(1)
    by (auto simp: kheap0_def create_linkedlist_def get_free_def expand_heap_def add_to_used_def init_node_def set_prev_def set_next_def deref_def Let_def last_node.simps)
  with s1 show ?thesis by blast
qed

end
