(* ===== verification/Libk_String.thy ===== *)
theory Libk_String
  imports Yanix_Prelude "HOL-Library.Signed_Division"
begin

text \<open>
  The kernel's string and memory routines (\<^verbatim>\<open>kernel/libk/string/string.c\<close>) and its number
  conversions (\<^verbatim>\<open>kernel/libk/stdlib/stdlib.c\<close>), on a flat memory of bytes. A loop that counts up
  to a size is a recursion on the number of remaining steps; a loop that runs until it meets a
  terminator is a \<open>partial_function\<close>, so that running on forever is \<open>None\<close>.

  The lemmas give the memory after each routine byte by byte: \<open>memmove\<close> for any overlap, \<open>memcpy\<close>
  for disjoint blocks with its word-wise main loop, \<open>strlen\<close>, \<open>strcpy\<close>, \<open>strcat\<close>, \<open>strcmp\<close> and
  \<open>reverse\<close> on terminated strings, and the decimal round trip through \<open>int_to_string\<close> and \<open>atoi\<close>.
\<close>

type_synonym mem = "addr \<Rightarrow> u8"

subsection \<open>Words in memory\<close>

definition ld32 :: "mem \<Rightarrow> addr \<Rightarrow> u32" where
  "ld32 m a = ucast (m a) OR push_bit 8 (ucast (m (a + 1)))
     OR push_bit 16 (ucast (m (a + 2))) OR push_bit 24 (ucast (m (a + 3)))"

definition st32 :: "mem \<Rightarrow> addr \<Rightarrow> u32 \<Rightarrow> mem" where
  "st32 m a v = m(a := ucast v, a + 1 := ucast (drop_bit 8 v),
     a + 2 := ucast (drop_bit 16 v), a + 3 := ucast (drop_bit 24 v))"

subsection \<open>Memory blocks\<close>

primrec memcmp_loop :: "mem \<Rightarrow> addr \<Rightarrow> addr \<Rightarrow> nat \<Rightarrow> int" where
  "memcmp_loop m a b 0 = 0"
| "memcmp_loop m a b (Suc n) =
     (if m a < m b then -1 else if m b < m a then 1 else memcmp_loop m (a + 1) (b + 1) n)"

definition memcmp :: "mem \<Rightarrow> addr \<Rightarrow> addr \<Rightarrow> u32 \<Rightarrow> int" where
  "memcmp m a b sz = memcmp_loop m a b (unat sz)"

primrec copy_words :: "mem \<Rightarrow> addr \<Rightarrow> addr \<Rightarrow> nat \<Rightarrow> mem" where
  "copy_words m d s 0 = m"
| "copy_words m d s (Suc n) = copy_words (st32 m d (ld32 m s)) (d + 4) (s + 4) n"

primrec copy_up :: "mem \<Rightarrow> addr \<Rightarrow> addr \<Rightarrow> nat \<Rightarrow> mem" where
  "copy_up m d s 0 = m"
| "copy_up m d s (Suc n) = copy_up (m(d := m s)) (d + 1) (s + 1) n"

primrec copy_down :: "mem \<Rightarrow> addr \<Rightarrow> addr \<Rightarrow> nat \<Rightarrow> mem" where
  "copy_down m d s 0 = m"
| "copy_down m d s (Suc n) = copy_down (m(d + of_nat n := m (s + of_nat n))) d s n"

definition memcpy :: "mem \<Rightarrow> addr \<Rightarrow> addr \<Rightarrow> u32 \<Rightarrow> mem" where
  "memcpy m dest source sz =
     (let dwords = sz div 4; n_bytes = sz mod 4;
          m = copy_words m dest source (unat dwords) in
      copy_up m (dest + dwords * 4) (source + dwords * 4) (unat n_bytes))"

definition memmove :: "mem \<Rightarrow> addr \<Rightarrow> addr \<Rightarrow> u32 \<Rightarrow> mem" where
  "memmove m dst src sz =
     (if dst < src then copy_up m dst src (unat sz) else copy_down m dst src (unat sz))"

primrec set_words :: "mem \<Rightarrow> addr \<Rightarrow> nat \<Rightarrow> mem" where
  "set_words m d 0 = m"
| "set_words m d (Suc n) = set_words (st32 m d 0) (d + 4) n"

primrec set_bytes :: "mem \<Rightarrow> addr \<Rightarrow> u8 \<Rightarrow> nat \<Rightarrow> mem" where
  "set_bytes m d v 0 = m"
| "set_bytes m d v (Suc n) = set_bytes (m(d := v)) (d + 1) v n"

definition memset :: "mem \<Rightarrow> addr \<Rightarrow> u32 \<Rightarrow> u32 \<Rightarrow> mem" where
  "memset m dest val sz =
     (if val = 0 then set_words m dest (unat (sz div 4))
      else set_bytes m dest (ucast val) (unat sz))"

subsection \<open>Terminated strings\<close>

partial_function (option) strlen_loop :: "mem \<Rightarrow> addr \<Rightarrow> u32 \<Rightarrow> u32 option" where
  "strlen_loop m str len =
     (if m (str + len) \<noteq> 0 then strlen_loop m str (len + 1) else Some len)"

text \<open>\<^verbatim>\<open>assert(str)\<close> halts the kernel on a null pointer.\<close>

definition strlen :: "mem \<Rightarrow> addr \<Rightarrow> u32 option" where
  "strlen m str = (if str = 0 then None else strlen_loop m str 0)"

function reverse_loop :: "mem \<Rightarrow> addr \<Rightarrow> int \<Rightarrow> int \<Rightarrow> mem" where
  "reverse_loop m str i j =
     (if i < j then
        let a = str + word_of_int i; b = str + word_of_int j in
        reverse_loop (m(a := m b, b := m a)) str (i + 1) (j - 1)
      else m)"
  by auto
termination by (relation "measure (\<lambda>(m, str, i, j). nat (j - i))") auto

definition reverse :: "mem \<Rightarrow> addr \<Rightarrow> mem option" where
  "reverse m str = do { l \<leftarrow> strlen m str; Some (reverse_loop m str 0 (sint l - 1)) }"

definition append :: "mem \<Rightarrow> addr \<Rightarrow> u8 \<Rightarrow> (u32 \<times> mem) option" where
  "append m str c = do {
     l \<leftarrow> strlen m str;
     Some (l + 1, m(str + l := c, str + (l + 1) := 0)) }"

definition remove_str :: "mem \<Rightarrow> addr \<Rightarrow> u32 \<Rightarrow> (int \<times> mem) option" where
  "remove_str m str len = do {
     l \<leftarrow> strlen m str;
     if sint (l - len) < 0 then Some (-1, m)
     else Some (sint (l - len), m(str + (l - len) := 0)) }"

text \<open>The shifting loop of \<^verbatim>\<open>insert\<close>; the caller has checked \<^verbatim>\<open>location <= l\<close>, so counting \<^verbatim>\<open>i\<close> down from
  \<^verbatim>\<open>l\<close> meets \<^verbatim>\<open>location\<close>.\<close>

primrec insert_loop :: "mem \<Rightarrow> addr \<Rightarrow> u32 \<Rightarrow> nat \<Rightarrow> mem" where
  "insert_loop m str i 0 = m"
| "insert_loop m str i (Suc n) =
     insert_loop (m(str + (i + 1) := m (str + i))) str (i - 1) n"

definition insert_chr :: "mem \<Rightarrow> addr \<Rightarrow> u32 \<Rightarrow> u8 \<Rightarrow> (int \<times> mem) option" where
  "insert_chr m str location c = do {
     l \<leftarrow> strlen m str;
     if l < location then Some (-1, m)
     else let m = insert_loop m str l (unat (l - location)) in
       Some (sint (l + 1), m(str + location := c)) }"

definition hex_digit :: "u8 \<Rightarrow> u32 \<Rightarrow> u8" where
  "hex_digit base tmp = (if tmp \<ge> 0xA then ucast (tmp - 0xA) + base else ucast tmp + 0x30)"

text \<open>\<^verbatim>\<open>hex_to_ascii\<close>: the upper seven digits without leading zeros, then the last one. The list of
  shifts is the values \<^verbatim>\<open>i\<close> takes.\<close>

primrec hex_to_ascii_loop :: "u32 \<Rightarrow> addr \<Rightarrow> nat list \<Rightarrow> bool \<Rightarrow> mem \<Rightarrow> mem option" where
  "hex_to_ascii_loop n str [] noZeros m = Some m"
| "hex_to_ascii_loop n str (i # js) noZeros m =
     (let tmp = drop_bit i n AND 0xF in
      if tmp = 0 \<and> noZeros then hex_to_ascii_loop n str js noZeros m
      else do {
        (_, m) \<leftarrow> append m str (hex_digit 0x41 tmp);
        hex_to_ascii_loop n str js False m })"

definition hex_to_ascii :: "u32 \<Rightarrow> addr \<Rightarrow> mem \<Rightarrow> mem option" where
  "hex_to_ascii n str m = do {
     (_, m) \<leftarrow> append (m(str := 0)) str 0x30;
     (_, m) \<leftarrow> append m str 0x78;
     m \<leftarrow> hex_to_ascii_loop n str [28, 24, 20, 16, 12, 8, 4] True m;
     (_, m) \<leftarrow> append m str (hex_digit 0x41 (n AND 0xF));
     Some m }"

primrec hex_to_ascii_no_Ox_loop :: "u32 \<Rightarrow> addr \<Rightarrow> nat list \<Rightarrow> mem \<Rightarrow> mem option" where
  "hex_to_ascii_no_Ox_loop n str [] m = Some m"
| "hex_to_ascii_no_Ox_loop n str (i # js) m = do {
     (_, m) \<leftarrow> append m str (hex_digit 0x61 (drop_bit i n AND 0xF));
     hex_to_ascii_no_Ox_loop n str js m }"

definition hex_to_ascii_no_Ox :: "u32 \<Rightarrow> addr \<Rightarrow> mem \<Rightarrow> mem option" where
  "hex_to_ascii_no_Ox n str m = do {
     m \<leftarrow> hex_to_ascii_no_Ox_loop n str [28, 24, 20, 16, 12, 8, 4] (m(str := 0));
     (_, m) \<leftarrow> append m str (hex_digit 0x61 (n AND 0xF));
     Some m }"

primrec find_loop :: "mem \<Rightarrow> addr \<Rightarrow> u8 \<Rightarrow> u32 \<Rightarrow> nat \<Rightarrow> int" where
  "find_loop m str c i 0 = -1"
| "find_loop m str c i (Suc n) =
     (if m (str + i) = c then sint i else find_loop m str c (i + 1) n)"

definition find_chr :: "mem \<Rightarrow> addr \<Rightarrow> u8 \<Rightarrow> int option" where
  "find_chr m str c = do { l \<leftarrow> strlen m str; Some (find_loop m str c 0 (unat l)) }"

text \<open>The digits of \<^verbatim>\<open>int_to_string\<close> and \<^verbatim>\<open>itoa\<close>, least significant first. The do-while loop stops once the
  quotient is not positive; C division truncates towards zero.\<close>

function digits_loop :: "mem \<Rightarrow> addr \<Rightarrow> int \<Rightarrow> nat \<Rightarrow> (mem \<times> nat)" where
  "digits_loop m str n i =
     (let m = m(str + of_nat i := word_of_int (n smod 10 + 48)); n = n sdiv 10 in
      if n > 0 then digits_loop m str n (i + 1) else (m, i + 1))"
  by auto
termination
  by (relation "measure (\<lambda>(m, str, n, i). nat n)")
    (auto simp: signed_divide_int_def sgn_if split: if_splits)

definition int_to_string :: "u32 \<Rightarrow> addr \<Rightarrow> mem \<Rightarrow> mem option" where
  "int_to_string w str m =
     (let n = (if sint w < 0 then sint (- w) else sint w);
          (m, i) = digits_loop m str n 0;
          (m, i) = (if sint w < 0 then (m(str + of_nat i := 0x2D), i + 1) else (m, i)) in
      reverse (m(str + of_nat i := 0)) str)"

function itoa_loop :: "mem \<Rightarrow> addr \<Rightarrow> int \<Rightarrow> int \<Rightarrow> int \<Rightarrow> (mem \<times> int)" where
  "itoa_loop m str num i mx =
     (let m = m(str + word_of_int i := word_of_int (48 + num smod 10)); num = num sdiv 10; i = i + 1 in
      if num > 0 \<and> i < mx then itoa_loop m str num i mx else (m, i))"
  by auto
termination
  by (relation "measure (\<lambda>(m, str, num, i, mx). nat num)")
    (auto simp: signed_divide_int_def sgn_if split: if_splits)

definition itoa :: "u32 \<Rightarrow> addr \<Rightarrow> u32 \<Rightarrow> mem \<Rightarrow> mem option" where
  "itoa num str mx m =
     (let (m, i) = itoa_loop m str (sint num) 0 (sint mx) in
      reverse (m(str + word_of_int i := 0)) str)"

partial_function (option) atoi_loop :: "mem \<Rightarrow> addr \<Rightarrow> u32 \<Rightarrow> u32 option" where
  "atoi_loop m str num =
     (if m str = 0 then Some num
      else if m str > 0x39 \<or> m str < 0x30 then Some num
      else atoi_loop m (str + 1) (num * 10 + (ucast (m str) - 0x30)))"

definition atoi :: "mem \<Rightarrow> addr \<Rightarrow> u32 option" where
  "atoi m str = atoi_loop m str 0"

partial_function (option) strcmp :: "mem \<Rightarrow> addr \<Rightarrow> addr \<Rightarrow> int option" where
  "strcmp m x y =
     (if m x \<noteq> 0 \<and> m x = m y then strcmp m (x + 1) (y + 1)
      else Some (uint (m x) - uint (m y)))"

partial_function (option) strchr :: "mem \<Rightarrow> addr \<Rightarrow> u8 \<Rightarrow> addr option" where
  "strchr m str c =
     (if m str = 0 then Some 0 else if m str = c then Some str else strchr m (str + 1) c)"

text \<open>\<^verbatim>\<open>strchr_r\<close> scans backwards from the terminator; the count is \<^verbatim>\<open>i + 1\<close>.\<close>

primrec strchr_r_loop :: "mem \<Rightarrow> addr \<Rightarrow> u8 \<Rightarrow> nat \<Rightarrow> addr" where
  "strchr_r_loop m str c 0 = 0"
| "strchr_r_loop m str c (Suc n) =
     (if m (str + of_nat n) = c then str + of_nat n else strchr_r_loop m str c n)"

definition strchr_r :: "mem \<Rightarrow> addr \<Rightarrow> u8 \<Rightarrow> addr option" where
  "strchr_r m str c = do { e \<leftarrow> strlen m str; Some (strchr_r_loop m str c (nat (sint e + 1))) }"

partial_function (option) strcpy_s_loop ::
  "mem \<Rightarrow> addr \<Rightarrow> addr \<Rightarrow> int \<Rightarrow> int \<Rightarrow> (int \<times> mem) option" where
  "strcpy_s_loop m dest str mx i =
     (if m str = 0 then Some (i, m(dest := 0))
      else if i = mx then Some (i, m)
      else strcpy_s_loop (m(dest := m str)) (dest + 1) (str + 1) mx (i + 1))"

definition strcpy_s :: "mem \<Rightarrow> addr \<Rightarrow> addr \<Rightarrow> int \<Rightarrow> (int \<times> mem) option" where
  "strcpy_s m dest str mx = strcpy_s_loop m dest str mx 0"

partial_function (option) strcpy :: "mem \<Rightarrow> addr \<Rightarrow> addr \<Rightarrow> (addr \<times> mem) option" where
  "strcpy m dest src =
     (if m src = 0 then Some (dest, m(dest := 0))
      else strcpy (m(dest := m src)) (dest + 1) (src + 1))"

text \<open>The loop of \<^verbatim>\<open>strcat\<close> is that of \<^verbatim>\<open>strcpy\<close>.\<close>

definition strcat :: "mem \<Rightarrow> addr \<Rightarrow> addr \<Rightarrow> (addr \<times> mem) option" where
  "strcat m buf str = do { l \<leftarrow> strlen m buf; strcpy m (buf + l) str }"

primrec strrchr_loop :: "mem \<Rightarrow> addr \<Rightarrow> u32 \<Rightarrow> u32 \<Rightarrow> nat \<Rightarrow> addr \<Rightarrow> addr" where
  "strrchr_loop m str chr i 0 lst = lst"
| "strrchr_loop m str chr i (Suc n) lst =
     strrchr_loop m str chr (i + 1) n (if scast (m (str + i)) = chr then str + i else lst)"

definition strrchr :: "mem \<Rightarrow> addr \<Rightarrow> u32 \<Rightarrow> addr option" where
  "strrchr m str chr = do { l \<leftarrow> strlen m str; Some (strrchr_loop m str chr 0 (unat l) 0) }"

subsection \<open>Blocks of memory\<close>

lemma unat_offset:
  fixes p :: addr
  shows "unat p + k < 2 ^ 32 \<Longrightarrow> unat (p + of_nat k) = unat p + k"
  by (subst unat_plus_nowrap) (simp_all add: unat_of_nat_nowrap)

lemma unat_u32_minus_1: "unat (- 1 :: u32) = 2 ^ 32 - 1"
  by (simp add: unsigned_minus_1_eq_mask mask_eq_exp_minus_1)

lemma unat_plus_1:
  fixes x :: u32
  assumes "x \<noteq> - 1"
  shows "unat (x + 1) = Suc (unat x)"
proof -
  have "unat x \<noteq> unat (- 1 :: u32)" using assms by (metis unsigned_word_eqI)
  then have "unat x + unat (1 :: u32) < 2 ^ LENGTH(32)"
    using unat_u32_less [of x] by (simp add: unat_u32_minus_1)
  then show ?thesis by (simp only: unat_plus_nowrap) simp
qed

text \<open>\<open>a\<close> lies in the block of \<open>n\<close> bytes from \<open>p\<close>.\<close>

definition inblk :: "addr \<Rightarrow> nat \<Rightarrow> addr \<Rightarrow> bool" where
  "inblk p n a \<longleftrightarrow> unat (a - p) < n"

lemma inblk_offset: "a - p = of_nat (unat (a - p) :: nat)" for a p :: addr
  by simp

lemma inblk_0 [simp]: "\<not> inblk p 0 a"
  by (simp add: inblk_def)

lemma inblkI: "k < n \<Longrightarrow> n \<le> 2 ^ 32 \<Longrightarrow> inblk p n (p + of_nat k)"
  by (simp add: inblk_def unat_of_nat_nowrap)

lemma inblkE:
  assumes "inblk p n a" obtains k where "k < n" and "a = p + of_nat k"
  using assms that [of "unat (a - p)"] by (simp add: inblk_def)

lemma inblk_Suc: 
  assumes "Suc n \<le> 2 ^ 32"
  shows "inblk p (Suc n) a \<longleftrightarrow> a = p \<or> inblk (p + 1) n a" and "\<not> inblk (p + 1) n p"
proof -
  show "\<not> inblk (p + 1) n p" using assms by (simp add: inblk_def unat_u32_minus_1)
  have "unat (a - p) = Suc (unat (a - (p + 1)))" if "a \<noteq> p"
  proof -
    have e: "a - p = (a - (p + 1)) + 1" by simp
    have "a - (p + 1) \<noteq> - 1" using that by auto
    then show ?thesis unfolding e by (rule unat_plus_1)
  qed
  then show "inblk p (Suc n) a \<longleftrightarrow> a = p \<or> inblk (p + 1) n a"
    by (cases "a = p") (simp_all add: inblk_def)
qed

lemma inblk_Suc_last:
  assumes "Suc n \<le> 2 ^ 32"
  shows "inblk p (Suc n) a \<longleftrightarrow> a = p + of_nat n \<or> inblk p n a" and "\<not> inblk p n (p + of_nat n)"
proof -
  show "\<not> inblk p n (p + of_nat n)" using assms by (simp add: inblk_def unat_of_nat_nowrap)
  have "unat (a - p) = n \<longleftrightarrow> a = p + of_nat n"
  proof
    assume "unat (a - p) = n"
    then have "a - p = of_nat n" using inblk_offset [of a p] by simp
    then show "a = p + of_nat n" by (simp add: diff_eq_eq add.commute)
  qed (use assms in \<open>simp add: unat_of_nat_nowrap\<close>)
  then show "inblk p (Suc n) a \<longleftrightarrow> a = p + of_nat n \<or> inblk p n a"
    by (auto simp: inblk_def less_Suc_eq)
qed

lemma copy_up_spec:
  assumes "\<forall>j < n. 0 < j \<longrightarrow> (\<forall>i < j. s + of_nat j \<noteq> d + of_nat i)" and "n \<le> 2 ^ 32"
  shows "copy_up m d s n a = (if inblk d n a then m (s + (a - d)) else m a)"
  using assms
proof (induction n arbitrary: m d s)
  case (Suc n)
  have "\<forall>j < n. 0 < j \<longrightarrow> (\<forall>i < j. (s + 1) + of_nat j \<noteq> (d + 1) + of_nat i)"
    using Suc.prems(1) by (metis (no_types) Suc_less_eq add.assoc of_nat_Suc zero_less_Suc)
  then have IH: "copy_up (m(d := m s)) (d + 1) (s + 1) n a =
      (if inblk (d + 1) n a then (m(d := m s)) ((s + 1) + (a - (d + 1))) else (m(d := m s)) a)"
    using Suc.prems(2) by (intro Suc.IH) simp_all
  have "s + (a - d) \<noteq> d" if i: "inblk (d + 1) n a"
  proof -
    from i obtain k where k: "k < n" "a = (d + 1) + of_nat k" by (rule inblkE)
    then have "a - d = of_nat (Suc k)" by simp
    moreover have "s + of_nat (Suc k) \<noteq> d + of_nat 0" using Suc.prems(1) k(1) by blast
    ultimately show ?thesis by (simp only:) simp
  qed
  moreover have "(s + 1) + (a - (d + 1)) = s + (a - d)" by simp
  ultimately show ?case using IH inblk_Suc [OF Suc.prems(2), of d] by (auto simp: algebra_simps)
qed simp

lemma copy_down_spec:
  assumes "\<forall>j < n. \<forall>i < j. s + of_nat i \<noteq> d + of_nat j" and "n \<le> 2 ^ 32"
  shows "copy_down m d s n a = (if inblk d n a then m (s + (a - d)) else m a)"
  using assms
proof (induction n arbitrary: m)
  case (Suc n)
  let ?m = "m(d + of_nat n := m (s + of_nat n))"
  have IH: "copy_down ?m d s n a = (if inblk d n a then ?m (s + (a - d)) else ?m a)"
    using Suc.prems by (intro Suc.IH) auto
  have "s + (a - d) \<noteq> d + of_nat n" if i: "inblk d n a"
    using inblkE [OF i] Suc.prems(1) by (metis add_diff_cancel_left' lessI)
  with IH inblk_Suc_last [OF Suc.prems(2), of d] show ?case by auto
qed simp

lemma copy_up_add: "copy_up m d s (j + k) = copy_up (copy_up m d s j) (d + of_nat j) (s + of_nat j) k"
  by (induction j arbitrary: m d s) (simp_all add: add.assoc)

lemma bit_u8_ge: "8 \<le> k \<Longrightarrow> \<not> bit (w :: u8) k"
  using bit_imp_le_length [of w k] by auto

lemma ld32_bytes:
  "ucast (ld32 m a) = m a" "ucast (drop_bit 8 (ld32 m a)) = m (a + 1)"
  "ucast (drop_bit 16 (ld32 m a)) = m (a + 2)" "ucast (drop_bit 24 (ld32 m a)) = m (a + 3)"
  by (auto intro!: bit_word_eqI simp: ld32_def bit_simps bit_u8_ge)

lemma copy_word:
  assumes "s + 1 \<noteq> d" "s + 2 \<noteq> d" "s + 3 \<noteq> d" "s + 2 \<noteq> d + 1" "s + 3 \<noteq> d + 1" "s + 3 \<noteq> d + 2"
  shows "st32 m d (ld32 m s) = copy_up m d s 4"
proof -
  have n: "p + 1 + 1 = p + 2" "p + 2 + 1 = p + 3" for p :: addr by simp_all
  have four: "(4 :: nat) = Suc (Suc (Suc (Suc 0)))" by simp
  show ?thesis unfolding four copy_up.simps n st32_def ld32_bytes using assms by simp
qed

text \<open>Two blocks of \<open>n\<close> bytes that do not wrap around the end of memory and do not overlap.\<close>

definition apart :: "addr \<Rightarrow> addr \<Rightarrow> nat \<Rightarrow> bool" where
  "apart d s n \<longleftrightarrow> unat d + n \<le> 2 ^ 32 \<and> unat s + n \<le> 2 ^ 32 \<and>
     (unat d + n \<le> unat s \<or> unat s + n \<le> unat d)"

lemma apartD:
  assumes "apart d s n" and "i < n" and "j < n"
  shows "s + of_nat j \<noteq> d + of_nat i"
proof
  assume "s + of_nat j = d + of_nat i"
  then have "unat (s + of_nat j) = unat (d + of_nat i)" by simp
  with assms show False by (auto simp: apart_def unat_offset)
qed

lemma apart_drop: "apart d s n \<Longrightarrow> k < n \<Longrightarrow> apart (d + of_nat k) (s + of_nat k) (n - k)"
  by (auto simp: apart_def unat_offset)

lemma copy_words_up: "apart d s (4 * n) \<Longrightarrow> copy_words m d s n = copy_up m d s (4 * n)"
proof (induction n arbitrary: m d s)
  case (Suc n)
  have ne: "s + of_nat j \<noteq> d + of_nat i" if "i < 4" "j < 4" for i j
    using apartD [OF Suc.prems, of i j] that by simp
  have "st32 m d (ld32 m s) = copy_up m d s 4"
    using ne [of 0 1] ne [of 0 2] ne [of 0 3] ne [of 1 2] ne [of 1 3] ne [of 2 3]
    by (intro copy_word) simp_all
  moreover have "copy_words m' (d + 4) (s + 4) n = copy_up m' (d + 4) (s + 4) (4 * n)" for m'
    using apart_drop [OF Suc.prems, of 4] Suc.IH by (cases "n = 0") simp_all
  ultimately show ?case using copy_up_add [of m d s 4 "4 * n"] by simp
qed simp

lemma memcpy_copy_up:
  assumes "apart d s (unat n)"
  shows "memcpy m d s n = copy_up m d s (unat n)"
proof -
  have n: "unat (n div 4) = unat n div 4" "unat (n mod 4) = unat n mod 4" by (simp_all add: unat_div unat_mod)
  have w: "(n div 4) * 4 = of_nat (4 * (unat n div 4))"
    by (simp flip: n(1))
  have "apart d s (4 * (unat n div 4))" using assms by (auto simp: apart_def)
  then show ?thesis
    unfolding memcpy_def Let_def w n
    using copy_up_add [of m d s "4 * (unat n div 4)" "unat n mod 4"] by (simp add: copy_words_up)
qed

lemma set_bytes_spec:
  "n \<le> 2 ^ 32 \<Longrightarrow> set_bytes m d v n a = (if inblk d n a then v else m a)"
  by (induction n arbitrary: m d) (auto simp: inblk_Suc)

lemma set_bytes_add: "set_bytes m d v (j + k) = set_bytes (set_bytes m d v j) (d + of_nat j) v k"
  by (induction j arbitrary: m d) (simp_all add: add.assoc)

lemma set_words_bytes: "set_words m d n = set_bytes m d 0 (4 * n)"
proof (induction n arbitrary: m d)
  case (Suc n)
  have n: "d + 1 + 1 = d + 2" "d + 2 + 1 = d + 3" by simp_all
  have four: "(4 :: nat) = Suc (Suc (Suc (Suc 0)))" by simp
  have "st32 m d 0 = set_bytes m d 0 4"
    unfolding four set_bytes.simps n by (simp add: st32_def)
  with Suc show ?case using set_bytes_add [of m d 0 4 "4 * n"] by simp
qed simp

text \<open>C28. \<^verbatim>\<open>memmove\<close> moves a block correctly whatever the overlap: afterwards every byte of the destination
  block is the byte that was at the same offset of the source block before the call, and no other
  byte of memory has changed.\<close>

theorem memmove_correct:
  assumes "unat dst + unat n \<le> 2 ^ 32" and "unat src + unat n \<le> 2 ^ 32"
  shows "memmove m dst src n a = (if inblk dst (unat n) a then m (src + (a - dst)) else m a)"
proof (cases "dst < src")
  case True
  have "src + of_nat j \<noteq> dst + of_nat i" if "j < unat n" "i < j" for i j
  proof
    assume "src + of_nat j = dst + of_nat i"
    then have "unat (src + of_nat j) = unat (dst + of_nat i)" by simp
    with that assms True show False by (simp add: unat_offset word_less_nat_alt)
  qed
  with True show ?thesis
    using copy_up_spec [of "unat n" src dst m a] unat_u32_less [of n] by (simp add: memmove_def)
next
  case False
  have "src + of_nat i \<noteq> dst + of_nat j" if "j < unat n" "i < j" for i j
  proof
    assume "src + of_nat i = dst + of_nat j"
    then have "unat (src + of_nat i) = unat (dst + of_nat j)" by simp
    with that assms False show False by (simp add: unat_offset word_less_nat_alt)
  qed
  with False show ?thesis
    using copy_down_spec [of "unat n" src dst m a] unat_u32_less [of n] by (simp add: memmove_def)
qed

theorem memmove_correct_witness:
  "memmove (\<lambda>a. ucast a) 0x1001 0x1000 3 0x1003 = 2"
  by (subst memmove_correct) (simp_all add: inblk_def)

text \<open>C29. The word-wise \<^verbatim>\<open>memcpy\<close> agrees with \<^verbatim>\<open>memmove\<close> on blocks that do not overlap: copying four bytes at a time and
  then the rest gives the same memory as copying byte by byte.\<close>

theorem memcpy_eq_memmove:
  assumes "apart d s (unat n)"
  shows "memcpy m d s n = memmove m d s n"
proof -
  have "copy_up m d s (unat n) a = (if inblk d (unat n) a then m (s + (a - d)) else m a)" for a
    using apartD [OF assms] unat_u32_less [of n] by (intro copy_up_spec) auto
  moreover have "copy_down m d s (unat n) a = (if inblk d (unat n) a then m (s + (a - d)) else m a)" for a
    using apartD [OF assms] unat_u32_less [of n] by (intro copy_down_spec) auto
  ultimately show ?thesis unfolding memcpy_copy_up [OF assms] memmove_def by (auto simp: fun_eq_iff)
qed

theorem memcpy_eq_memmove_witness:
  "memcpy (\<lambda>a. ucast a) 0x2000 0x1000 7 = memmove (\<lambda>a. ucast a) 0x2000 0x1000 7"
  by (rule memcpy_eq_memmove) (simp add: apart_def)

text \<open>C30. \<^verbatim>\<open>memset\<close> as it is: with a non-zero value it sets exactly the \<open>n\<close> bytes of the block; with value 0 it
  clears only the first \<open>4 * (n div 4)\<close> of them and leaves the last \<open>n mod 4\<close> as they were.\<close>

theorem memset_exact:
  "memset m d v n a =
     (if v \<noteq> 0 \<and> inblk d (unat n) a then ucast v
      else if v = 0 \<and> inblk d (4 * (unat n div 4)) a then 0 else m a)"
proof -
  have "4 * (unat n div 4) \<le> unat n" by simp
  then have "4 * (unat n div 4) \<le> 2 ^ 32" using unat_u32_less [of n] by simp
  then show ?thesis using unat_u32_less [of n]
    by (simp add: memset_def set_words_bytes set_bytes_spec unat_div)
qed

declare reverse_loop.simps [simp del] digits_loop.simps [simp del] itoa_loop.simps [simp del]

subsection \<open>Strings\<close>

primrec cstr :: "mem \<Rightarrow> addr \<Rightarrow> u8 list \<Rightarrow> bool" where
  "cstr m p [] \<longleftrightarrow> m p = 0"
| "cstr m p (c # cs) \<longleftrightarrow> m p = c \<and> c \<noteq> 0 \<and> cstr m (p + 1) cs"

lemma cstr_nth:
  "cstr m p s \<longleftrightarrow> (\<forall>i < length s. m (p + of_nat i) = s ! i \<and> s ! i \<noteq> 0) \<and> m (p + of_nat (length s)) = 0"
proof (induction s arbitrary: p)
  case (Cons c s)
  have "(\<forall>i < Suc (length s). P i) \<longleftrightarrow> P 0 \<and> (\<forall>i < length s. P (Suc i))" for P
    by (metis Suc_less_eq not0_implies_Suc zero_less_Suc)
  then show ?case using Cons by (simp add: add.assoc)
qed simp

lemma cstr_frame: "(\<And>k. k \<le> length s \<Longrightarrow> m' (p + of_nat k) = m (p + of_nat k)) \<Longrightarrow> cstr m' p s = cstr m p s"
  by (auto simp: cstr_nth)

lemma cstr_append:
  "\<forall>i < length b. m (p + of_nat i) = b ! i \<and> b ! i \<noteq> 0 \<Longrightarrow> cstr m (p + of_nat (length b)) s \<Longrightarrow>
    cstr m p (b @ s)"
proof (induction b arbitrary: p)
  case (Cons c b)
  have "\<forall>i < length b. m ((p + 1) + of_nat i) = b ! i \<and> b ! i \<noteq> 0"
  proof (intro allI impI)
    fix i assume "i < length b"
    with Cons.prems(1) [rule_format, of "Suc i"] show "m ((p + 1) + of_nat i) = b ! i \<and> b ! i \<noteq> 0"
      by (simp add: add.assoc)
  qed
  moreover from Cons.prems(1) [rule_format, of 0] have "m p = c \<and> c \<noteq> 0" by simp
  ultimately show ?case using Cons.IH [of "p + 1"] Cons.prems(2) by (simp add: add.assoc)
qed simp

lemma strlen_loop_cstr: "cstr m (p + l) s \<Longrightarrow> strlen_loop m p l = Some (l + of_nat (length s))"
proof (induction s arbitrary: l)
  case Nil
  then show ?case by (simp add: strlen_loop.simps [of m p l])
next
  case (Cons c s)
  then have "m (p + l) \<noteq> 0" "cstr m (p + (l + 1)) s" by (auto simp: add.assoc)
  with Cons.IH [of "l + 1"] show ?case by (simp add: strlen_loop.simps [of m p l] add.assoc)
qed

lemma strlen_cstr: "cstr m p s \<Longrightarrow> p \<noteq> 0 \<Longrightarrow> strlen m p = Some (of_nat (length s))"
  using strlen_loop_cstr [of m p 0 s] by (simp add: strlen_def)

lemma strcmp_cstr:
  assumes "cstr m x s" and "cstr m y t"
  shows "\<exists>r. strcmp m x y = Some r \<and> (r = 0 \<longleftrightarrow> s = t) \<and> (r < 0 \<longleftrightarrow> (s, t) \<in> lexord {(a, b). a < b})"
  using assms
proof (induction s arbitrary: x y t)
  case Nil
  then show ?case by (cases t) (auto simp: strcmp.simps [of m x y] word_less_def word_neq_0_conv uint_0_iff)
next
  case (Cons c s)
  show ?case
  proof (cases "t \<noteq> [] \<and> hd t = c")
    case True
    then obtain t' where t: "t = c # t'" by (cases t) auto
    with Cons.prems have "cstr m (x + 1) s" "cstr m (y + 1) t'" "m x = c" "m y = c" "c \<noteq> 0" by auto
    with Cons.IH [of "x + 1" "y + 1" t'] show ?thesis by (auto simp: strcmp.simps [of m x y] t)
  next
    case False
    then have "m y \<noteq> c" using Cons.prems by (cases t) auto
    with False Cons.prems show ?thesis
      by (cases t) (auto simp: strcmp.simps [of m x y] word_less_def uint_0_iff dest: unsigned_word_eqI)
  qed
qed

lemma strcpy_copy:
  "cstr m src s \<Longrightarrow> apart d src (Suc (length s)) \<Longrightarrow>
    strcpy m d src = Some (d + of_nat (length s), copy_up m d src (Suc (length s)))"
proof (induction s arbitrary: m d src)
  case Nil
  then show ?case by (simp add: strcpy.simps [of m d src] fun_upd_def)
next
  case (Cons c s)
  have ne: "d \<noteq> src + of_nat k" if "k < Suc (Suc (length s))" for k
    using apartD [OF Cons.prems(2), of 0 k] that by auto
  have "cstr (m(d := m src)) (src + 1) s = cstr m (src + 1) s"
  proof (intro cstr_frame)
    fix k assume "k \<le> length s"
    then show "(m(d := m src)) (src + 1 + of_nat k) = m (src + 1 + of_nat k)"
      using ne [of "Suc k"] by (simp add: add.assoc)
  qed
  then have "cstr (m(d := m src)) (src + 1) s" using Cons.prems(1) by (simp only: cstr.simps)
  moreover have "apart (d + 1) (src + 1) (Suc (length s))"
    using apart_drop [OF Cons.prems(2), of 1] by simp
  ultimately have "strcpy (m(d := m src)) (d + 1) (src + 1) =
      Some (d + 1 + of_nat (length s), copy_up (m(d := m src)) (d + 1) (src + 1) (Suc (length s)))"
    by (rule Cons.IH)
  moreover have "strcpy m d src = strcpy (m(d := m src)) (d + 1) (src + 1)"
    using Cons.prems(1) by (simp add: strcpy.simps [of m d src])
  ultimately show ?case unfolding copy_up.simps(2) [of _ _ _ "length (c # s)"] by (simp add: add.assoc)
qed

lemma copy_up_apart:
  assumes "apart d s n"
  shows "copy_up m d s n a = (if inblk d n a then m (s + (a - d)) else m a)"
  using apartD [OF assms] assms by (intro copy_up_spec) (auto simp: apart_def)

lemma cstr_copy:
  assumes "cstr m src s" and a: "apart d src (Suc (length s))"
  shows "cstr (copy_up m d src (Suc (length s))) d s"
proof -
  have "inblk d (Suc (length s)) (d + of_nat i)" if "i \<le> length s" for i
    using a that by (intro inblkI) (auto simp: apart_def)
  then show ?thesis using assms(1)
    by (simp add: cstr_nth copy_up_apart [OF a] del: copy_up.simps)
qed

primrec wr :: "mem \<Rightarrow> addr \<Rightarrow> u8 list \<Rightarrow> mem" where
  "wr m p [] = m"
| "wr m p (x # xs) = wr (m(p := x)) (p + 1) xs"

lemma wr_append: "wr m p (xs @ ys) = wr (wr m p xs) (p + of_nat (length xs)) ys"
  by (induction xs arbitrary: m p) (simp_all add: add.assoc)

lemma wr_spec:
  "length xs \<le> 2 ^ 32 \<Longrightarrow> wr m p xs a = (if inblk p (length xs) a then xs ! unat (a - p) else m a)"
proof (induction xs arbitrary: m p)
  case (Cons x xs)
  then have IH: "wr (m(p := x)) (p + 1) xs a =
      (if inblk (p + 1) (length xs) a then xs ! unat (a - (p + 1)) else (m(p := x)) a)" by simp
  have "unat (a - p) = Suc (unat (a - (p + 1)))" if "inblk (p + 1) (length xs) a"
  proof -
    have e: "a - p = (a - (p + 1)) + 1" by simp
    have "a \<noteq> p" using that inblk_Suc(2) [of "length xs" p] Cons.prems by auto
    then have "a - (p + 1) \<noteq> - 1" by auto
    then show ?thesis unfolding e by (rule unat_plus_1)
  qed
  with IH inblk_Suc [of "length xs" p] Cons.prems show ?case by auto
qed simp

lemma cstr_wr: "length s < 2 ^ 32 \<Longrightarrow> 0 \<notin> set s \<Longrightarrow> cstr (wr m p (s @ [0])) p s"
  by (auto simp: cstr_nth wr_spec inblkI unat_of_nat_nowrap nth_append in_set_conv_nth)

lemma uint_word_of_int_addr:
  assumes "0 \<le> i" "i < 2 ^ 32"
  shows "uint (word_of_int i :: addr) = i"
proof -
  have "uint (word_of_int i :: addr) = i mod 2 ^ LENGTH(32)" by (rule uint_word_of_int)
  also have "\<dots> = i" using assms by (intro mod_pos_pos_trivial) simp_all
  finally show ?thesis .
qed

lemma word_of_int_eq_addr:
  assumes "(word_of_int i :: addr) = word_of_int j" "0 \<le> i" "i < 2 ^ 32" "0 \<le> j" "j < 2 ^ 32"
  shows "i = j"
  using arg_cong [OF assms(1), of uint] by (simp only: uint_word_of_int_addr assms(2-5))

text \<open>The swaps of \<^verbatim>\<open>reverse\<close> mirror the bytes between the two indices and touch no other byte.\<close>

lemma reverse_loop_spec:
  assumes "0 \<le> i" "j < 2 ^ 31" "0 \<le> k" "k < 2 ^ 32"
  shows "reverse_loop m p i j (p + word_of_int k) =
      (if i \<le> k \<and> k \<le> j then m (p + word_of_int (i + j - k)) else m (p + word_of_int k))"
  using assms
proof (induction m p i j rule: reverse_loop.induct)
  case (1 m p i j)
  define f :: "int \<Rightarrow> addr" where "f = (\<lambda>k. p + word_of_int k)"
  have f: "f k = f k' \<longleftrightarrow> k = k'" if "0 \<le> k" "k < 2 ^ 32" "0 \<le> k'" "k' < 2 ^ 32" for k k'
    using word_of_int_eq_addr [of k k'] that by (auto simp: f_def)
  show ?case
  proof (cases "i < j")
    case True
    let ?m = "m(f i := m (f j), f j := m (f i))"
    have IH: "reverse_loop ?m p (i + 1) (j - 1) (f k) =
      (if i + 1 \<le> k \<and> k \<le> j - 1 then ?m (f (i + 1 + (j - 1) - k)) else ?m (f k))"
      using 1(1) [OF True refl refl] 1(2-5) True by (simp only: f_def)
    have "f k' = f i \<longleftrightarrow> k' = i" "f k' = f j \<longleftrightarrow> k' = j" if "0 \<le> k'" "k' < 2 ^ 32" for k'
      using that 1(2,3) True by (auto simp: f)
    then have m: "?m (f k') = (if k' = i then m (f j) else if k' = j then m (f i) else m (f k'))"
      if "0 \<le> k'" "k' < 2 ^ 32" for k' using that by auto
    have s: "reverse_loop m p i j = reverse_loop ?m p (i + 1) (j - 1)"
      using True by (simp add: reverse_loop.simps [of m p i j] f_def Let_def)
    have e: "i + 1 + (j - 1) - k = i + j - k" by simp
    show ?thesis unfolding f_def [THEN fun_cong, symmetric] s IH e
      using m [of k] m [of "i + j - k"] 1(2-5) True by (auto simp del: fun_upd_apply)
  next
    case False
    then have e: "i + j - k = k" if "i \<le> k \<and> k \<le> j" using that by simp
    from False show ?thesis by (simp add: reverse_loop.simps [of m p i j] e del: of_int_add of_int_diff)
  qed
qed

lemma sint_of_nat_small: "n < 2 ^ 31 \<Longrightarrow> sint (of_nat n :: u32) = int n"
  by (simp add: signed_of_nat signed_take_bit_int_eq_self)

lemma of_nat_as_int: "(of_nat k :: addr) = word_of_int (int k)"
  by simp

lemma reverse_cstr:
  assumes c: "cstr m p s" and p: "p \<noteq> 0" and l: "length s < 2 ^ 31"
  obtains m' where "reverse m p = Some m'" and "cstr m' p (rev s)"
    and "\<And>a. \<not> inblk p (length s) a \<Longrightarrow> m' a = m a"
proof -
  let ?m = "reverse_loop m p 0 (int (length s) - 1)"
  have r: "reverse m p = Some ?m"
    using strlen_cstr [OF c p] l by (simp add: reverse_def sint_of_nat_small)
  have k: "?m (p + word_of_int k) = (if k < int (length s) then m (p + word_of_int (int (length s) - 1 - k))
      else m (p + word_of_int k))" if "0 \<le> k" "k < 2 ^ 32" for k
    using reverse_loop_spec [of 0 "int (length s) - 1" k m p] l that by simp
  have "?m (p + of_nat i) = rev s ! i" if "i < length s" for i
  proof -
    have "int (length s) - 1 - int i = int (length s - Suc i)" using that by simp
    then have "?m (p + word_of_int (int i)) = m (p + word_of_int (int (length s - Suc i)))"
      using k [of "int i"] that l by (simp only:) simp
    moreover have "length s - Suc i < length s" using that by simp
    then have "m (p + of_nat (length s - Suc i)) = s ! (length s - Suc i)"
      using c [unfolded cstr_nth] by blast
    ultimately show ?thesis by (simp only: rev_nth that of_nat_as_int)
  qed
  moreover have "rev s ! i \<noteq> 0" if "i < length s" for i using c that by (simp add: cstr_nth rev_nth)
  moreover have "?m (p + of_nat (length s)) = 0"
    using k [of "int (length s)"] c l by (simp add: cstr_nth)
  ultimately have "cstr ?m p (rev s)" by (simp add: cstr_nth)
  moreover have "?m a = m a" if "\<not> inblk p (length s) a" for a
  proof -
    have "a = p + word_of_int (int (unat (a - p)))" by simp
    moreover have "\<not> int (unat (a - p)) < int (length s)" using that by (simp only: inblk_def of_nat_less_iff not_False_eq_True)
    moreover have "int (unat (a - p)) < 2 ^ 32" using unat_u32_less [of "a - p"]
      by (metis of_nat_less_iff of_nat_numeral of_nat_power)
    ultimately show ?thesis using k [of "int (unat (a - p))"] by simp
  qed
  ultimately show thesis using that r by blast
qed

subsection \<open>Decimal numbers\<close>

fun decs :: "nat \<Rightarrow> nat list" where
  "decs n = (if n < 10 then [n] else (n mod 10) # decs (n div 10))"

declare decs.simps [simp del]

definition dig :: "nat \<Rightarrow> u8" where
  "dig d = word_of_int (int d + 48)"

lemma digits_loop_decs:
  "digits_loop m p (int n) i = (wr m (p + of_nat i) (map dig (decs n)), i + length (decs n))"
proof (induction n arbitrary: m i rule: decs.induct)
  case (1 n)
  have e: "int n smod 10 = int (n mod 10)" "int n sdiv 10 = int (n div 10)"
    by (simp_all add: signed_divide_int_def signed_modulo_int_def sgn_if zdiv_int zmod_int minus_div_mult_eq_mod [symmetric])
  show ?case
  proof (cases "n < 10")
    case True
    then show ?thesis by (simp add: digits_loop.simps [of m p "int n"] decs.simps [of n] e dig_def fun_upd_def)
  next
    case False
    then have "0 < n div 10" by simp
    with False 1 show ?thesis
      by (simp add: digits_loop.simps [of m p "int n"] decs.simps [of n] e dig_def Let_def ac_simps)
  qed
qed

lemma length_decs: "n < 10 ^ Suc k \<Longrightarrow> length (decs n) \<le> Suc k"
proof (induction k arbitrary: n)
  case (Suc k)
  then have "n div 10 < 10 ^ Suc k" by (simp add: less_mult_imp_div_less mult.commute)
  with Suc.IH show ?case by (simp add: decs.simps [of n])
qed (simp add: decs.simps)

lemma decs_less: "d \<in> set (decs n) \<Longrightarrow> d < 10"
  by (induction n rule: decs.induct) (subst (asm) decs.simps, auto split: if_splits)

lemma dig_cases: "d < 10 \<Longrightarrow> dig d \<noteq> 0 \<and> \<not> dig d > 0x39 \<and> \<not> dig d < 0x30 \<and> ucast (dig d) - 0x30 = (of_nat d :: u32)"
proof -
  assume "d < 10"
  then have "d \<in> {0, 1, 2, 3, 4, 5, 6, 7, 8, 9}" by auto
  then show ?thesis by (auto simp: dig_def)
qed

lemma atoi_loop_digits:
  "cstr m p (map dig ds) \<Longrightarrow> \<forall>d \<in> set ds. d < 10 \<Longrightarrow>
    atoi_loop m p acc = Some (foldl (\<lambda>a d. a * 10 + of_nat d) acc ds)"
proof (induction ds arbitrary: p acc)
  case Nil
  then show ?case by (simp add: atoi_loop.simps [of m p])
next
  case (Cons d ds)
  with dig_cases [of d] show ?case by (simp add: atoi_loop.simps [of m p])
qed

lemma decs_value: "foldl (\<lambda>a d. a * 10 + of_nat d) 0 (rev (decs n)) = (of_nat n :: u32)"
proof (induction n rule: decs.induct)
  case (1 n)
  have "of_nat (n div 10) * 10 + of_nat (n mod 10) = (of_nat n :: u32)"
    using arg_cong [OF div_mult_mod_eq [of n 10], of "of_nat :: nat \<Rightarrow> u32"]
    by (simp only: of_nat_add of_nat_mult of_nat_numeral)
  with 1 show ?case by (cases "n < 10") (simp_all add: decs.simps [of n])
qed

lemma length_decs_int: "sint w \<noteq> - (2 ^ 31) \<Longrightarrow> length (decs (nat \<bar>sint w\<bar>)) \<le> 10" for w :: u32
  using length_decs [of "nat \<bar>sint w\<bar>" 9] sint_less [of w] sint_ge [of w] by simp

lemma sint_neg: "sint w \<noteq> - (2 ^ 31) \<Longrightarrow> sint (- w) = - sint w" for w :: u32
proof -
  assume "sint w \<noteq> - (2 ^ 31)"
  then have "signed_take_bit 31 (- sint w) = - sint w"
    using sint_less [of w] sint_ge [of w] by (intro signed_take_bit_int_eq_self) simp_all
  moreover have "- w = word_of_int (- sint w)" by simp
  then have "sint (- w) = signed_take_bit 31 (- sint w)" by (simp only: signed_of_int) simp
  ultimately show ?thesis by simp
qed

lemma int_to_string_digits:
  assumes "sint w \<noteq> - (2 ^ 31)"
  shows "int_to_string w p m = reverse (wr m p (map dig (decs (nat \<bar>sint w\<bar>)) @ (if sint w < 0 then [0x2D] else []) @ [0])) p"
proof -
  have "(if sint w < 0 then sint (- w) else sint w) = int (nat \<bar>sint w\<bar>)"
    using sint_neg [OF assms] by simp
  then show ?thesis using digits_loop_decs [of m p "nat \<bar>sint w\<bar>" 0]
    by (simp add: int_to_string_def wr_append ac_simps)
qed

text \<open>C31. Decimal numbers. For every \<^verbatim>\<open>int\<close> but the least, whose absolute value overflows, \<^verbatim>\<open>int_to_string\<close> writes the terminated string of a minus sign,
  when the number is negative, and the decimal digits of its absolute value from the most significant one on; no byte outside
  the first twelve of the buffer has been written. \<^verbatim>\<open>atoi\<close> reads a non-negative number back; it does not know the sign and
  returns 0 for every negative number.\<close>

theorem decimal_roundtrip:
  assumes "sint w \<noteq> - (2 ^ 31)" and "p \<noteq> 0"
  shows "\<exists>m'. int_to_string w p m = Some m' \<and>
    cstr m' p ((if sint w < 0 then [0x2D] else []) @ map dig (rev (decs (nat \<bar>sint w\<bar>)))) \<and>
    atoi m' p = Some (if sint w < 0 then 0 else w) \<and> (\<forall>a. \<not> inblk p 12 a \<longrightarrow> m' a = m a)"
proof -
  define n where "n = nat \<bar>sint w\<bar>"
  have l: "length (decs n) \<le> 10" using length_decs_int [OF assms(1)] by (simp add: n_def)
  let ?s = "map dig (decs n) @ (if sint w < 0 then [0x2D] else [])" and ?r = "(if sint w < 0 then [0x2D] else []) @ map dig (rev (decs n))"
  let ?m = "wr m p (?s @ [0])"
  have "0 \<notin> set ?s" using decs_less dig_cases by force
  then have c: "cstr ?m p ?s" using l by (intro cstr_wr) auto
  have "length ?s < 2 ^ 31" using l by simp
  with c assms(2) obtain m' where m': "reverse ?m p = Some m'" "cstr m' p (rev ?s)"
    "\<And>a. \<not> inblk p (length ?s) a \<Longrightarrow> m' a = ?m a"
    using reverse_cstr by blast
  have r: "cstr m' p ?r" using m'(2) by (simp add: rev_map split: if_splits)
  have "atoi m' p = Some (if sint w < 0 then 0 else w)"
  proof (cases "sint w < 0")
    case True
    with r show ?thesis by (simp add: atoi_def atoi_loop.simps [of m' p])
  next
    case False
    then have n: "int n = sint w" by (simp add: n_def)
    have "word_of_int (sint w) = w" by simp
    then have "w = of_nat n" unfolding n [symmetric] by simp
    with False r show ?thesis
      using atoi_loop_digits [of m' p "rev (decs n)" 0] decs_less decs_value [of n] by (simp add: atoi_def)
  qed
  moreover have "m' a = m a" if "\<not> inblk p 12 a" for a
    using m'(3) [of a] that l by (auto simp: inblk_def wr_spec)
  ultimately show ?thesis using m'(1) r int_to_string_digits [OF assms(1), of p m] by (auto simp: n_def)
qed

theorem decimal_roundtrip_witness:
  "(\<exists>m'. int_to_string 2020 0x1000 (\<lambda>_. 0) = Some m' \<and> cstr m' 0x1000 [0x32, 0x30, 0x32, 0x30] \<and> atoi m' 0x1000 = Some 2020) \<and>
   (\<exists>m'. int_to_string (-5) 0x1000 (\<lambda>_. 0) = Some m' \<and> cstr m' 0x1000 [0x2D, 0x35] \<and> atoi m' 0x1000 = Some 0)"
  using decimal_roundtrip [of 2020 "0x1000" "\<lambda>_. 0"] decimal_roundtrip [of "-5" "0x1000" "\<lambda>_. 0"]
  by (auto simp: decs.simps dig_def)

text \<open>\<^verbatim>\<open>strcmp\<close> of two terminated strings returns, its result is 0 exactly when
  they are equal and negative exactly when the first comes first in the order of unsigned bytes.\<close>

theorem strcmp_correct:
  assumes "cstr m x s" and "cstr m y t"
  shows "\<exists>r. strcmp m x y = Some r \<and> (r = 0 \<longleftrightarrow> s = t) \<and>
    (r < 0 \<longleftrightarrow> (s, t) \<in> lexord {(a, b). a < b})"
  using assms by (rule strcmp_cstr)

theorem strcmp_correct_witness:
  "\<exists>r. strcmp (\<lambda>a. if a = 0x1000 then 0x61 else 0) 0x1000 0x2000 = Some r \<and> r \<noteq> 0"
  using strcmp_correct [of "\<lambda>a. if a = 0x1000 then 0x61 else 0" "0x1000" "[0x61]" "0x2000" "[]"] by auto

text \<open>\<^verbatim>\<open>strcat\<close> appends: with the second string outside the memory that receives it, the buffer holds the
  concatenation of both strings afterwards, and the result points to its terminator.\<close>

theorem strcat_correct:
  assumes "cstr m buf b" and "cstr m str s" and "buf \<noteq> 0"
    and "apart (buf + of_nat (length b)) str (Suc (length s))"
    and "unat buf + length b < 2 ^ 32"
  shows "\<exists>m'. strcat m buf str = Some (buf + of_nat (length b + length s), m') \<and> cstr m' buf (b @ s)"
proof -
  let ?d = "buf + of_nat (length b)" and ?n = "Suc (length s)"
  let ?m = "copy_up m ?d str ?n"
  have "strcat m buf str = Some (buf + of_nat (length b + length s), ?m)"
    using strcpy_copy [OF assms(2,4)] strlen_cstr [OF assms(1,3)] by (simp add: strcat_def add.assoc)
  moreover have "?m (buf + of_nat i) = m (buf + of_nat i)" if "i < length b" for i
  proof -
    have "unat ?d + ?n \<le> 2 ^ 32" using assms(4) by (simp add: apart_def)
    moreover have "unat ?d = unat buf + length b" using assms(5) by (simp add: unat_offset)
    moreover have "unat (buf + of_nat i) = unat buf + i" using assms(5) that by (simp add: unat_offset)
    moreover have "\<not> inblk ?d ?n (buf + of_nat i)"
    proof
      assume "inblk ?d ?n (buf + of_nat i)"
      then obtain k where k: "k < ?n" "buf + of_nat i = ?d + of_nat k" by (rule inblkE)
      from calculation k(1) have "unat (?d + of_nat k) = unat ?d + k" by (intro unat_offset) simp
      with calculation k(2) that show False by simp
    qed
    then show ?thesis by (simp add: copy_up_apart [OF assms(4)] del: copy_up.simps)
  qed
  then have "\<forall>i < length b. ?m (buf + of_nat i) = b ! i \<and> b ! i \<noteq> 0"
    using assms(1) by (simp add: cstr_nth del: copy_up.simps)
  then have "cstr ?m buf (b @ s)" using cstr_copy [OF assms(2,4)] by (rule cstr_append)
  ultimately show ?thesis by blast
qed

theorem strcat_correct_witness:
  "\<exists>m'. strcat (\<lambda>a. if a = 0x1000 then 0x61 else if a = 0x2000 then 0x62 else 0) 0x1000 0x2000 = Some (0x1002, m') \<and>
     cstr m' 0x1000 [0x61, 0x62]"
  using strcat_correct [of "\<lambda>a. if a = 0x1000 then 0x61 else if a = 0x2000 then 0x62 else 0" "0x1000" "[0x61]" "0x2000" "[0x62]"]
  by (auto simp: apart_def)

text \<open>\<^verbatim>\<open>insert\<close> shifts the tail one place short: inserting \<^verbatim>\<open>X\<close> at 1 into \<^verbatim>\<open>abc\<close> gives \<^verbatim>\<open>aXcc\<close>, not \<^verbatim>\<open>aXbc\<close>.\<close>

lemma insert_chr_loses_character:
  "\<exists>m'. insert_chr (wr (\<lambda>_. 0) 0x1000 [0x61, 0x62, 0x63, 0]) 0x1000 1 0x58 = Some (4, m') \<and>
     cstr m' 0x1000 [0x61, 0x58, 0x63, 0x63]"
proof -
  have "cstr (wr (\<lambda>_. 0) 0x1000 [0x61, 0x62, 0x63, 0]) 0x1000 [0x61, 0x62, 0x63]" by simp
  from strlen_cstr [OF this] have "strlen (wr (\<lambda>_. 0) 0x1000 [0x61, 0x62, 0x63, 0]) 0x1000 = Some 3" by simp
  moreover have "insert_loop m s i 2 = insert_loop m s i (Suc (Suc 0))" for m s i
    by (simp only: numeral_2_eq_2)
  ultimately show ?thesis by (simp add: insert_chr_def)
qed

end
