(* ===== verification/Mm_Heap.thy ===== *)
theory Mm_Heap
  imports Mm_Alloc Libk_String
begin

text \<open>
  The kernel's heaps (\<^verbatim>\<open>kernel/mm/heap.c\<close>): the watermark allocator used before the first heap exists,
  the list of heaps, and \<^verbatim>\<open>kmalloc\<close>/\<^verbatim>\<open>kfree\<close> with their variants on top of the block allocator of
  \<open>Mm_Linkedlist\<close>. The state holds the globals of the file, the \<^verbatim>\<open>struct heap\<close> and \<^verbatim>\<open>struct linkedlist\<close>
  objects by address, the block headers of all heaps, and the bytes of memory.

  The \<open>physical_address\<close> result of \<^verbatim>\<open>kmalloc_base\<close> and \<^verbatim>\<open>kmalloc_gen_base\<close> belongs to the paging code; here
  both are modelled for the callers that pass a null pointer for it, which is every caller but the
  paging code and the drivers. Messages of \<^verbatim>\<open>printk\<close> are not part of the state.

  The interface \<open>allocator\<close> states what a client of \<^verbatim>\<open>kmalloc\<close> may rely on, and it is interpreted on
  the kernel heap.
\<close>

subsection \<open>State\<close>

record heap =
  h_start :: u32
  h_size :: u32
  h_maxsize :: u32
  h_usermode :: u32
  h_linkedlist :: addr
  h_nextheap :: addr

record kmem =
  placement_address :: u32
  km_nodes :: ll_mem
  km_lists :: "addr \<rightharpoonup> linkedlist"
  km_heaps :: "addr \<rightharpoonup> heap"
  kernel_heap :: addr
  user_heap :: addr
  heaplist :: addr
  km_errno :: int
  km_mem :: mem

abbreviation (input) "KHEAP_START \<equiv> (0xC0000000 :: u32)"
abbreviation (input) "KHEAP_MAXSIZE \<equiv> (0x1000000 :: u32)"
abbreviation (input) "UHEAP_START \<equiv> (0xD0000000 :: u32)"
abbreviation (input) "UHEAP_MAXSIZE \<equiv> (0x1000000 :: u32)"

abbreviation (input) "SIZEOF_HEAP \<equiv> (24 :: u32)"
abbreviation (input) "SIZEOF_LINKEDLIST \<equiv> (24 :: u32)"

definition get_heap :: "kmem \<Rightarrow> addr \<Rightarrow> heap option" where
  "get_heap k a = (if a = 0 then None else km_heaps k a)"

definition get_list :: "kmem \<Rightarrow> addr \<Rightarrow> linkedlist option" where
  "get_list k a = (if a = 0 then None else km_lists k a)"

text \<open>An operation of the block allocator on the list of one heap.\<close>

definition list_state :: "kmem \<Rightarrow> linkedlist \<Rightarrow> ll_state" where
  "list_state k l = \<lparr>ll_nodes = km_nodes k, ll_list = l, ll_errno = km_errno k\<rparr>"

definition on_list :: "(ll_state \<Rightarrow> ('a \<times> ll_state) option) \<Rightarrow> addr \<Rightarrow> kmem \<Rightarrow> ('a \<times> kmem) option" where
  "on_list f hp k = do {
     h \<leftarrow> get_heap k hp;
     l \<leftarrow> get_list k (h_linkedlist h);
     (r, s) \<leftarrow> f (list_state k l);
     Some (r, k\<lparr>km_nodes := ll_nodes s, km_lists := (km_lists k)(h_linkedlist h \<mapsto> ll_list s),
                km_errno := ll_errno s\<rparr>) }"

subsection \<open>Operations\<close>

definition simple_alloc :: "u32 \<Rightarrow> bool \<Rightarrow> kmem \<Rightarrow> addr \<times> kmem" where
  "simple_alloc sz align k =
     (let p = placement_address k;
          p = (if align then (p AND 0xFFFFF000) + 0x1000 else p);
          p = p + sz in
      (p - sz, k\<lparr>placement_address := p\<rparr>))"

definition alloc :: "addr \<Rightarrow> u32 \<Rightarrow> bool \<Rightarrow> kmem \<Rightarrow> (addr \<times> kmem) option" where
  "alloc hp sz align k = do {
     (freenode, k) \<leftarrow> on_list (get_free sz align) hp k;
     if freenode = 0 then Some (0, k) else Some (freenode + LL_NODE_SIZE, k) }"

definition free :: "addr \<Rightarrow> addr \<Rightarrow> kmem \<Rightarrow> (int \<times> kmem) option" where
  "free hp memory k = on_list (free_node (memory - LL_NODE_SIZE)) hp k"

definition kmalloc_gen :: "addr \<Rightarrow> u32 \<Rightarrow> kmem \<Rightarrow> (addr \<times> kmem) option" where
  "kmalloc_gen hp sz k = alloc hp sz True k"

definition kfree_gen :: "addr \<Rightarrow> addr \<Rightarrow> kmem \<Rightarrow> (int \<times> kmem) option" where
  "kfree_gen hp a k = free hp a k"

definition kmalloc_gen_base :: "addr \<Rightarrow> u32 \<Rightarrow> bool \<Rightarrow> kmem \<Rightarrow> (addr \<times> kmem) option" where
  "kmalloc_gen_base hp sz align k = alloc hp sz align k"

definition kmalloc_base :: "u32 \<Rightarrow> bool \<Rightarrow> kmem \<Rightarrow> (addr \<times> kmem) option" where
  "kmalloc_base sz align k =
     (if kernel_heap k \<noteq> 0 then alloc (kernel_heap k) sz align k
      else Some (simple_alloc sz align k))"

definition kmalloc_user_base :: "u32 \<Rightarrow> bool \<Rightarrow> kmem \<Rightarrow> (addr \<times> kmem) option" where
  "kmalloc_user_base sz align k = kmalloc_gen_base (user_heap k) sz align k"

definition kmalloc :: "u32 \<Rightarrow> kmem \<Rightarrow> (addr \<times> kmem) option" where
  "kmalloc sz k = kmalloc_base sz False k"

definition kcalloc :: "u32 \<Rightarrow> u32 \<Rightarrow> kmem \<Rightarrow> (addr \<times> kmem) option" where
  "kcalloc sz val k = do {
     (tmp, k) \<leftarrow> kmalloc_base sz False k;
     Some (tmp, k\<lparr>km_mem := memset (km_mem k) tmp val sz\<rparr>) }"

definition kmalloc_user :: "u32 \<Rightarrow> kmem \<Rightarrow> (addr \<times> kmem) option" where
  "kmalloc_user sz k = kmalloc_user_base sz False k"

definition kfree :: "addr \<Rightarrow> kmem \<Rightarrow> (int \<times> kmem) option" where
  "kfree a k = free (kernel_heap k) a k"

definition kfree_user :: "addr \<Rightarrow> kmem \<Rightarrow> (int \<times> kmem) option" where
  "kfree_user a k = free (user_heap k) a k"

definition get_placement_addr :: "kmem \<Rightarrow> u32" where
  "get_placement_addr k = placement_address k"

partial_function (option) in_heap_loop :: "kmem \<Rightarrow> addr \<Rightarrow> addr \<Rightarrow> addr option" where
  "in_heap_loop k a tmp =
     (if tmp = 0 then Some 0
      else do {
        h \<leftarrow> get_heap k tmp;
        if a \<ge> h_start h \<and> a < h_start h + h_maxsize h then Some tmp
        else in_heap_loop k a (h_nextheap h) })"

definition is_addr_in_heap :: "kmem \<Rightarrow> addr \<Rightarrow> addr option" where
  "is_addr_in_heap k a = in_heap_loop k a (heaplist k)"

partial_function (option) last_heap :: "kmem \<Rightarrow> addr \<Rightarrow> addr option" where
  "last_heap k tmp = do {
     h \<leftarrow> get_heap k tmp;
     if h_nextheap h \<noteq> 0 then last_heap k (h_nextheap h) else Some tmp }"

definition set_nextheap :: "addr \<Rightarrow> addr \<Rightarrow> kmem \<Rightarrow> kmem option" where
  "set_nextheap a v k = do {
     h \<leftarrow> get_heap k a;
     Some (k\<lparr>km_heaps := (km_heaps k)(a \<mapsto> h\<lparr>h_nextheap := v\<rparr>)\<rparr>) }"

definition add_heap :: "addr \<Rightarrow> kmem \<Rightarrow> kmem option" where
  "add_heap hp k = do {
     k \<leftarrow> set_nextheap hp 0 k;
     if heaplist k = 0 then Some (k\<lparr>heaplist := hp\<rparr>)
     else do {
       tmp \<leftarrow> last_heap k (heaplist k);
       set_nextheap tmp hp k } }"

definition allocate_heap :: "kmem \<Rightarrow> addr \<times> kmem" where
  "allocate_heap k = simple_alloc SIZEOF_HEAP False k"

text \<open>The object behind a non-null \<^verbatim>\<open>heap\<close> argument is overwritten field by field; \<^verbatim>\<open>nextheap\<close> is set by
  \<^verbatim>\<open>add_heap\<close>. \<^verbatim>\<open>create_linkedlist\<close> takes its own object from the watermark allocator.\<close>

definition create_heap :: "addr \<Rightarrow> u32 \<Rightarrow> u32 \<Rightarrow> u32 \<Rightarrow> kmem \<Rightarrow> (addr \<times> kmem) option" where
  "create_heap hp start mx usermode k =
     (let (hp, k) = (if hp = 0 then allocate_heap k else (hp, k));
          (ll, k) = simple_alloc SIZEOF_LINKEDLIST False k;
          k = k\<lparr>km_lists := (km_lists k)(ll \<mapsto> create_linkedlist start mx usermode),
                km_heaps := (km_heaps k)(hp \<mapsto> \<lparr>h_start = start, h_size = 0, h_maxsize = mx,
                  h_usermode = usermode, h_linkedlist = ll, h_nextheap = 0\<rparr>)\<rparr> in
      do { k \<leftarrow> add_heap hp k; Some (hp, k) })"

definition init_kheap :: "kmem \<Rightarrow> kmem option" where
  "init_kheap k = do {
     (hp, k) \<leftarrow> create_heap 0 KHEAP_START KHEAP_MAXSIZE 0 k;
     Some (k\<lparr>kernel_heap := hp\<rparr>) }"

definition init_uheap :: "kmem \<Rightarrow> kmem option" where
  "init_uheap k = do {
     (hp, k) \<leftarrow> create_heap 0 UHEAP_START UHEAP_MAXSIZE 1 k;
     Some (k\<lparr>user_heap := hp\<rparr>) }"

definition debug_is_heapblock_free :: "addr \<Rightarrow> kmem \<Rightarrow> bool option" where
  "debug_is_heapblock_free a k = do {
     h \<leftarrow> get_heap k (kernel_heap k);
     l \<leftarrow> get_list k (h_linkedlist h);
     dbg_is_heapblock_free (a - LL_NODE_SIZE) (list_state k l) }"

definition heap_setusermode :: "addr \<Rightarrow> kmem \<Rightarrow> kmem option" where
  "heap_setusermode hp k = do {
     h \<leftarrow> get_heap k hp;
     Some (k\<lparr>km_heaps := (km_heaps k)(hp \<mapsto> h\<lparr>h_usermode := 1\<rparr>)\<rparr>) }"

subsection \<open>Copies of strings\<close>

definition strdup_user :: "addr \<Rightarrow> kmem \<Rightarrow> (addr \<times> kmem) option" where
  "strdup_user str k = do {
     l \<leftarrow> strlen (km_mem k) str;
     (newstr, k) \<leftarrow> kmalloc_user (l + 1) k;
     Some (newstr, k\<lparr>km_mem := memcpy (km_mem k) newstr str (l + 1)\<rparr>) }"

definition strdup :: "addr \<Rightarrow> kmem \<Rightarrow> (addr \<times> kmem) option" where
  "strdup str k = do {
     l \<leftarrow> strlen (km_mem k) str;
     (newstr, k) \<leftarrow> kmalloc_user (l + 1) k;
     Some (newstr, k\<lparr>km_mem := memcpy (km_mem k) newstr str (l + 1)\<rparr>) }"

definition strdup_s :: "addr \<Rightarrow> u32 \<Rightarrow> kmem \<Rightarrow> (addr \<times> kmem) option" where
  "strdup_s mem len k = do {
     (new, k) \<leftarrow> kmalloc (len + 1) k;
     Some (new, k\<lparr>km_mem := (memcpy (km_mem k) new mem len)(new + len := 0)\<rparr>) }"

subsection \<open>The interface of an allocator\<close>

text \<open>\<open>live s\<close> is the set of blocks handed out and not yet freed, as payload address and size.\<close>

locale allocator =
  fixes ok :: "'s \<Rightarrow> bool" and live :: "'s \<Rightarrow> (addr \<times> nat) set"
    and malloc :: "u32 \<Rightarrow> 's \<Rightarrow> (addr \<times> 's) option" and mfree :: "addr \<Rightarrow> 's \<Rightarrow> (int \<times> 's) option"
  assumes malloc_law: "ok s \<Longrightarrow> unat n < 2 ^ 31 \<Longrightarrow> malloc n s = Some (p, s') \<Longrightarrow>
      ok s' \<and> (\<exists>sz. unat n \<le> sz \<and> (p, sz) \<notin> live s \<and> live s' = insert (p, sz) (live s))"
    and live_disjoint: "ok s \<Longrightarrow> x \<in> live s \<Longrightarrow> y \<in> live s \<Longrightarrow> x \<noteq> y \<Longrightarrow>
      unat (fst x) + snd x \<le> unat (fst y) \<or> unat (fst y) + snd y \<le> unat (fst x)"
    and live_range: "ok s \<Longrightarrow> x \<in> live s \<Longrightarrow> fst x \<noteq> 0 \<and> 0 < snd x \<and> unat (fst x) + snd x < 2 ^ 32"
    and free_law: "ok s \<Longrightarrow> x \<in> live s \<Longrightarrow>
      \<exists>s'. mfree (fst x) s = Some (0, s') \<and> ok s' \<and> live s' = live s - {x}"
    and free_bad: "ok s \<Longrightarrow> p \<notin> fst ` live s \<Longrightarrow>
      \<exists>s'. mfree p s = Some (-1, s') \<and> ok s' \<and> live s' = live s"
begin

lemma malloc_disjoint:
  assumes "ok s" and "unat n < 2 ^ 31" and "malloc n s = Some (p, s')"
  shows "\<exists>sz. unat n \<le> sz \<and> live s' = insert (p, sz) (live s) \<and>
    (\<forall>y \<in> live s. unat p + sz \<le> unat (fst y) \<or> unat (fst y) + snd y \<le> unat p)"
proof -
  from malloc_law [OF assms] obtain sz where
    l: "ok s'" "unat n \<le> sz" "(p, sz) \<notin> live s" "live s' = insert (p, sz) (live s)" by blast
  have "unat p + sz \<le> unat (fst y) \<or> unat (fst y) + snd y \<le> unat p" if "y \<in> live s" for y
    using live_disjoint [OF l(1), of "(p, sz)" y] l(3,4) that by auto
  with l show ?thesis by blast
qed

lemma live_inj: "ok s \<Longrightarrow> x \<in> live s \<Longrightarrow> y \<in> live s \<Longrightarrow> fst x = fst y \<Longrightarrow> x = y"
  using live_disjoint [of s x y] live_range [of s x] live_range [of s y] by force

lemma malloc_free:
  assumes "ok s" and "unat n < 2 ^ 31" and "malloc n s = Some (p, s')"
  shows "\<exists>s''. mfree p s' = Some (0, s'') \<and> ok s'' \<and> live s'' = live s"
proof -
  from malloc_law [OF assms] obtain sz where
    l: "ok s'" "(p, sz) \<notin> live s" "live s' = insert (p, sz) (live s)" by blast
  with free_law [OF l(1), of "(p, sz)"] show ?thesis by auto
qed

lemma double_free:
  assumes "ok s" and "x \<in> live s" and "mfree (fst x) s = Some (r, s')"
  shows "\<exists>s''. mfree (fst x) s' = Some (-1, s'') \<and> ok s'' \<and> live s'' = live s'"
proof -
  from free_law [OF assms(1,2)] assms(3) have l: "ok s'" "live s' = live s - {x}" by auto
  moreover have "fst x \<notin> fst ` live s'" using live_inj [OF assms(1,2)] l(2) by auto
  ultimately show ?thesis using free_bad by blast
qed

end

subsection \<open>The kernel heap implements it\<close>

definition heap_ok :: "addr \<Rightarrow> aheap \<Rightarrow> kmem \<Rightarrow> bool" where
  "heap_ok hp h k \<longleftrightarrow> (\<exists>r l. get_heap k hp = Some r \<and> get_list k (h_linkedlist r) = Some l \<and>
     habs (list_state k l) h [] \<and> aheap_wf h)"

definition kheap_ok :: "kmem \<Rightarrow> bool" where
  "kheap_ok k \<longleftrightarrow> (\<exists>h. heap_ok (kernel_heap k) h k)"

definition kheap_live :: "kmem \<Rightarrow> (addr \<times> nat) set" where
  "kheap_live k =
     (case get_heap k (kernel_heap k) of None \<Rightarrow> {} | Some r \<Rightarrow>
      (case get_list k (h_linkedlist r) of None \<Rightarrow> {} | Some l \<Rightarrow>
       (case used_blocks (list_state k l) of None \<Rightarrow> {} | Some us \<Rightarrow>
        (\<lambda>(a, sz). (a + LL_NODE_SIZE, unat sz)) ` set us)))"

definition payload :: "block \<Rightarrow> addr \<times> nat" where
  "payload x = (fst x + LL_NODE_SIZE, unat (snd x))"

lemma payload_fst:
  assumes "aheap_wf h" and "x \<in> set (a_used h)"
  shows "unat (fst (payload x)) = unat (fst x) + 12" and "blk_end x < 2 ^ 32" and "32 \<le> unat (snd x)"
proof -
  show b: "blk_end x < 2 ^ 32"
    using aheap_wf_blocks(2) [OF assms(1), of x] aheap_wf_limits(5) [OF assms(1)] assms(2) by simp
  then show "unat (fst (payload x)) = unat (fst x) + 12"
    unfolding payload_def by (simp only: fst_conv) (subst unat_plus_nowrap, simp_all)
  have "32 \<le> snd x" using assms by (simp add: aheap_wf_def)
  then show "32 \<le> unat (snd x)" by (simp add: word_le_nat_alt)
qed

lemma inj_payload: "inj payload"
  by (auto simp: payload_def intro!: injI prod_eqI dest: unsigned_word_eqI)

lemma heap_ok_live: "heap_ok (kernel_heap k) h k \<Longrightarrow> kheap_live k = payload ` set (a_used h)"
  unfolding heap_ok_def kheap_live_def payload_def using habs_blocks by (force simp: split_beta)

lemma list_state_simps [simp]:
  "ll_nodes (list_state k l) = km_nodes k" "ll_list (list_state k l) = l" "ll_errno (list_state k l) = km_errno k"
  by (simp_all add: list_state_def)

lemma find_SomeD: "find P xs = Some x \<Longrightarrow> x \<in> set xs \<and> P x"
  by (auto simp: find_Some_iff)

lemma a_free_node_used:
  assumes w: "aheap_wf h" and a: "a \<in> set (a_used h)"
  shows "\<exists>h'. a_free_node (fst a) h = Some h' \<and> set (a_used h') = set (a_used h) - {a}"
proof -
  have "find (\<lambda>x. fst x = fst a) (a_used h) \<noteq> None"
    using a unfolding find_None_iff by blast
  then obtain x where x: "find (\<lambda>x. fst x = fst a) (a_used h) = Some x" by blast
  then have xm: "x \<in> set (a_used h)" "fst x = fst a" by (auto dest: find_SomeD)
  have "x = a"
  proof (rule ccontr)
    assume "x \<noteq> a"
    with aheap_wf_blocks(3) [OF w, of x a] a xm show False by auto
  qed
  moreover have "distinct (a_used h)" using aheap_wf_blocks(1) [OF w] by simp
  ultimately show ?thesis using x by (simp add: a_free_node_def)
qed

lemma on_list_ok:
  assumes h: "heap_ok hp h k"
    and f: "\<And>l. habs (list_state k l) h [] \<Longrightarrow> \<exists>s'. f (list_state k l) = Some (r, s') \<and> habs s' h' []"
    and w: "aheap_wf h'"
  shows "\<exists>k'. on_list f hp k = Some (r, k') \<and> heap_ok hp h' k' \<and> kernel_heap k' = kernel_heap k"
proof -
  from h obtain rc l where k: "get_heap k hp = Some rc" "get_list k (h_linkedlist rc) = Some l"
    "habs (list_state k l) h []" by (auto simp: heap_ok_def)
  from f [OF k(3)] obtain s' where s': "f (list_state k l) = Some (r, s')" "habs s' h' []" by blast
  let ?k = "k\<lparr>km_nodes := ll_nodes s', km_lists := (km_lists k)(h_linkedlist rc \<mapsto> ll_list s'),
                km_errno := ll_errno s'\<rparr>"
  have "get_heap ?k hp = Some rc" using k(1) by (auto simp: get_heap_def split: if_splits)
  moreover have "get_list ?k (h_linkedlist rc) = Some (ll_list s')"
    using k(2) by (auto simp: get_list_def split: if_splits)
  moreover have "habs (list_state ?k (ll_list s')) h' []"
    using s'(2) by (cases s') (simp add: list_state_def)
  ultimately have "heap_ok hp h' ?k" using w unfolding heap_ok_def by blast
  with k s' show ?thesis by (simp add: on_list_def)
qed

lemma alloc_ok:
  assumes h: "heap_ok hp h k" and n: "unat n < 2 ^ 31"
  shows "case a_get_free n al h of None \<Rightarrow> alloc hp n al k = None
    | Some (a, h') \<Rightarrow> \<exists>k'. alloc hp n al k = Some (a + LL_NODE_SIZE, k') \<and> heap_ok hp h' k' \<and>
        kernel_heap k' = kernel_heap k"
proof (cases "a_get_free n al h")
  case None
  from h obtain rc l where k: "get_heap k hp = Some rc" "get_list k (h_linkedlist rc) = Some l"
    "habs (list_state k l) h []" "aheap_wf h" by (auto simp: heap_ok_def)
  with get_free_refines [OF k(3,4) n, of al] None show ?thesis by (simp add: alloc_def on_list_def)
next
  case (Some p)
  obtain a h' where p: "p = (a, h')" by (cases p)
  from h have w: "aheap_wf h" by (auto simp: heap_ok_def)
  from a_get_free_ok [OF w n, of al a h'] Some p obtain sz where
    w': "aheap_wf h'" "a_used h' = a_used h @ [(a, sz)]" by auto
  have "a \<noteq> 0" using payload_fst [OF w'(1), of "(a, sz)"] aheap_wf_blocks(2) [OF w'(1), of "(a, sz)"]
      aheap_wf_limits(1) [OF w'(1)] w'(2) by (auto simp: word_less_nat_alt)
  have "\<exists>k'. on_list (get_free n al) hp k = Some (a, k') \<and> heap_ok hp h' k' \<and> kernel_heap k' = kernel_heap k"
    using get_free_refines [OF _ w n, of _ al] Some p by (intro on_list_ok [OF h _ w'(1)]) fastforce
  with \<open>a \<noteq> 0\<close> Some p show ?thesis by (auto simp: alloc_def)
qed

lemma free_ok:
  assumes h: "heap_ok hp h k"
  shows "case a_free_node (a - LL_NODE_SIZE) h of
      None \<Rightarrow> \<exists>k'. free hp a k = Some (-1, k') \<and> heap_ok hp h k' \<and> kernel_heap k' = kernel_heap k
    | Some h' \<Rightarrow> \<exists>k'. free hp a k = Some (0, k') \<and> heap_ok hp h' k' \<and> kernel_heap k' = kernel_heap k"
proof (cases "a_free_node (a - LL_NODE_SIZE) h")
  case None
  from h have w: "aheap_wf h" by (auto simp: heap_ok_def)
  have "habs (s\<lparr>ll_errno := e\<rparr>) h [] = habs s h []" for s e by (simp add: habs_def hrel_def)
  then show ?thesis unfolding free_def None option.case
    using free_node_refines [of _ h "a - LL_NODE_SIZE"] None by (intro on_list_ok [OF h _ w]) fastforce
next
  case (Some h')
  from h have w: "aheap_wf h" by (auto simp: heap_ok_def)
  from a_free_node_ok [OF w Some] have w': "aheap_wf h'" by simp
  show ?thesis unfolding free_def Some option.case
    using free_node_refines [of _ h "a - LL_NODE_SIZE"] Some by (intro on_list_ok [OF h _ w']) fastforce
qed

interpretation kheap: allocator kheap_ok kheap_live kmalloc kfree
proof
  fix k n p k'
  assume ok: "kheap_ok k" and n: "unat n < 2 ^ 31" and m: "kmalloc n k = Some (p, k')"
  from ok obtain h where h: "heap_ok (kernel_heap k) h k" by (auto simp: kheap_ok_def)
  then have w: "aheap_wf h" and nz: "kernel_heap k \<noteq> 0" by (auto simp: heap_ok_def get_heap_def split: if_splits)
  from m nz have al: "alloc (kernel_heap k) n False k = Some (p, k')" by (simp add: kmalloc_def kmalloc_base_def)
  with alloc_ok [OF h n, of False] obtain a h' where
    g: "a_get_free n False h = Some (a, h')" "p = a + LL_NODE_SIZE" "heap_ok (kernel_heap k) h' k'"
    "kernel_heap k' = kernel_heap k" by (auto split: option.splits)
  from a_get_free_ok [OF w n g(1)] obtain sz where u: "aheap_wf h'" "a_used h' = a_used h @ [(a, sz)]" "n \<le> sz"
    by blast
  have "(a, sz) \<notin> set (a_used h)" using aheap_wf_blocks(1) [OF u(1)] u(2) by simp
  then have "payload (a, sz) \<notin> payload ` set (a_used h)" by (simp add: inj_image_mem_iff [OF inj_payload])
  with heap_ok_live [OF h] heap_ok_live [of k' h'] g u(2,3)
  show "kheap_ok k' \<and> (\<exists>sz. unat n \<le> sz \<and> (p, sz) \<notin> kheap_live k \<and> kheap_live k' = insert (p, sz) (kheap_live k))"
    by (auto simp: kheap_ok_def payload_def word_le_nat_alt)
next
  fix k x y
  assume ok: "kheap_ok k" and x: "x \<in> kheap_live k" and y: "y \<in> kheap_live k" and "x \<noteq> y"
  from ok obtain h where h: "heap_ok (kernel_heap k) h k" by (auto simp: kheap_ok_def)
  then have w: "aheap_wf h" by (auto simp: heap_ok_def)
  from x y heap_ok_live [OF h] obtain a b where ab: "x = payload a" "y = payload b" "a \<in> set (a_used h)" "b \<in> set (a_used h)"
    by auto
  then have "a \<noteq> b" using \<open>x \<noteq> y\<close> by auto
  with ab aheap_wf_blocks(3) [OF w, of a b] payload_fst(1) [OF w, of a] payload_fst(1) [OF w, of b]
  show "unat (fst x) + snd x \<le> unat (fst y) \<or> unat (fst y) + snd y \<le> unat (fst x)"
    by (auto simp: payload_def)
next
  fix k x
  assume ok: "kheap_ok k" and x: "x \<in> kheap_live k"
  from ok obtain h where h: "heap_ok (kernel_heap k) h k" by (auto simp: kheap_ok_def)
  then have w: "aheap_wf h" by (auto simp: heap_ok_def)
  from x heap_ok_live [OF h] obtain a where a: "x = payload a" "a \<in> set (a_used h)" by auto
  with payload_fst [OF w, of a]
  show "fst x \<noteq> 0 \<and> 0 < snd x \<and> unat (fst x) + snd x < 2 ^ 32" by (auto simp: payload_def)
next
  fix k x
  assume ok: "kheap_ok k" and x: "x \<in> kheap_live k"
  from ok obtain h where h: "heap_ok (kernel_heap k) h k" by (auto simp: kheap_ok_def)
  then have w: "aheap_wf h" by (auto simp: heap_ok_def)
  from x heap_ok_live [OF h] obtain a where a: "x = payload a" "a \<in> set (a_used h)" by auto
  have fx: "fst x - LL_NODE_SIZE = fst a" using a(1) by (simp add: payload_def)
  from a_free_node_used [OF w a(2)] obtain h' where
    h': "a_free_node (fst a) h = Some h'" "set (a_used h') = set (a_used h) - {a}" by blast
  with free_ok [OF h, of "fst x"] fx obtain k' where
    k': "kfree (fst x) k = Some (0, k')" "heap_ok (kernel_heap k') h' k'" by (auto simp: kfree_def)
  from h'(2) have "payload ` set (a_used h') = payload ` set (a_used h) - {payload a}"
    by (simp add: image_set_diff [OF inj_payload])
  with k' heap_ok_live [OF h] heap_ok_live [OF k'(2)] a(1)
  show "\<exists>k'. kfree (fst x) k = Some (0, k') \<and> kheap_ok k' \<and> kheap_live k' = kheap_live k - {x}"
    by (auto simp: kheap_ok_def)
next
  fix k p
  assume ok: "kheap_ok k" and p: "p \<notin> fst ` kheap_live k"
  from ok obtain h where h: "heap_ok (kernel_heap k) h k" by (auto simp: kheap_ok_def)
  have "p - LL_NODE_SIZE \<notin> fst ` set (a_used h)"
    using p heap_ok_live [OF h] by (force simp: payload_def)
  then have "find (\<lambda>x. fst x = p - LL_NODE_SIZE) (a_used h) = None" by (force simp: find_None_iff)
  then have "a_free_node (p - LL_NODE_SIZE) h = None" by (simp add: a_free_node_def)
  with free_ok [OF h, of p] obtain k' where
    k': "kfree p k = Some (-1, k')" "heap_ok (kernel_heap k') h k'" by (auto simp: kfree_def)
  with heap_ok_live [OF h] heap_ok_live [OF k'(2)]
  show "\<exists>k'. kfree p k = Some (-1, k') \<and> kheap_ok k' \<and> kheap_live k' = kheap_live k"
    by (auto simp: kheap_ok_def)
qed

subsection \<open>Booting the heaps\<close>

lemma create_heap_first:
  assumes "heaplist k = 0" and "p = placement_address k" and "p \<noteq> 0"
  shows "create_heap 0 st mx usr k = Some (p, k\<lparr>placement_address := p + 48,
     km_lists := (km_lists k)(p + 24 \<mapsto> create_linkedlist st mx usr),
     km_heaps := (km_heaps k)(p \<mapsto> \<lparr>h_start = st, h_size = 0, h_maxsize = mx,
                  h_usermode = usr, h_linkedlist = p + 24, h_nextheap = 0\<rparr>), heaplist := p\<rparr>)"
  using assms
  by (simp add: create_heap_def allocate_heap_def simple_alloc_def Let_def add_heap_def set_nextheap_def
      get_heap_def add.commute)

lemma create_heap_second:
  assumes "heaplist k = q" and "km_heaps k q = Some r" and "h_nextheap r = 0" and "q \<noteq> 0"
    and "p = placement_address k" and "p \<noteq> 0" and "p \<noteq> q"
  shows "create_heap 0 st mx usr k = Some (p, k\<lparr>placement_address := p + 48,
     km_lists := (km_lists k)(p + 24 \<mapsto> create_linkedlist st mx usr),
     km_heaps := (km_heaps k)(p \<mapsto> \<lparr>h_start = st, h_size = 0, h_maxsize = mx,
                  h_usermode = usr, h_linkedlist = p + 24, h_nextheap = 0\<rparr>,
                  q \<mapsto> r\<lparr>h_nextheap := p\<rparr>)\<rparr>)"
  using assms
  by (simp add: create_heap_def allocate_heap_def simple_alloc_def Let_def add_heap_def set_nextheap_def
      get_heap_def last_heap.simps [of _ q] add.commute)

subsection \<open>Properties\<close>

text \<open>C7. \<^verbatim>\<open>kmalloc\<close> gives fresh memory, for requests of less than \<open>2 ^ 31\<close> bytes. On a well-formed kernel heap, such a call that returns hands out a block of at
  least the requested size that overlaps no block handed out and not yet freed; the kernel heap
  stays well formed.\<close>

theorem kmalloc_fresh:
  assumes "kheap_ok k" and "unat n < 2 ^ 31" and "kmalloc n k = Some (p, k')"
  shows "kheap_ok k' \<and> (\<exists>sz. unat n \<le> sz \<and> kheap_live k' = insert (p, sz) (kheap_live k) \<and>
    (\<forall>y \<in> kheap_live k. unat p + sz \<le> unat (fst y) \<or> unat (fst y) + snd y \<le> unat p))"
  using kheap.malloc_law [OF assms] kheap.malloc_disjoint [OF assms] by blast

text \<open>C8. \<^verbatim>\<open>kfree\<close> undoes \<^verbatim>\<open>kmalloc\<close> of less than \<open>2 ^ 31\<close> bytes on a well-formed kernel heap: freeing the pointer just returned succeeds and leaves exactly the blocks that were
  in use before; freeing the same pointer a second time is refused with -1 and changes nothing.\<close>

theorem kmalloc_kfree:
  assumes "kheap_ok k" and "unat n < 2 ^ 31" and "kmalloc n k = Some (p, k1)"
  shows "\<exists>k2 k3. kfree p k1 = Some (0, k2) \<and> kheap_ok k2 \<and> kheap_live k2 = kheap_live k \<and>
    kfree p k2 = Some (-1, k3) \<and> kheap_live k3 = kheap_live k"
proof -
  from kheap.malloc_free [OF assms] obtain k2 where
    k2: "kfree p k1 = Some (0, k2)" "kheap_ok k2" "kheap_live k2 = kheap_live k" by blast
  from kheap.malloc_law [OF assms] obtain sz where "kheap_ok k1" "(p, sz) \<in> kheap_live k1" by auto
  with kheap.double_free [of k1 "(p, sz)"] k2 show ?thesis by auto
qed

definition empty_aheap :: "u32 \<Rightarrow> u32 \<Rightarrow> aheap" where
  "empty_aheap st mx = \<lparr>a_start = st, a_max = mx, a_cur = 0, a_used = [], a_free = []\<rparr>"

text \<open>C9. Bringing up the heaps. Before any heap exists, and with a watermark that is not null and does not wrap around, \<^verbatim>\<open>init_kheap\<close>
  followed by \<^verbatim>\<open>init_uheap\<close> gives two well-formed heaps without blocks, of 16 MiB each from \<open>0xC0000000\<close> and \<open>0xD0000000\<close>, and \<^verbatim>\<open>is_addr_in_heap\<close> then finds the kernel heap for exactly
  the addresses of its range, the user heap for those of its own, and nothing for any other.\<close>

theorem boot_heaps:
  assumes "heaplist k = 0" and "placement_address k \<noteq> 0" and "unat (placement_address k) + 96 < 2 ^ 32"
  shows "\<exists>k1 k2. init_kheap k = Some k1 \<and> init_uheap k1 = Some k2 \<and> kheap_ok k2 \<and> kheap_live k2 = {} \<and>
    heap_ok (kernel_heap k2) (empty_aheap 0xC0000000 0x1000000) k2 \<and> heap_ok (user_heap k2) (empty_aheap 0xD0000000 0x1000000) k2 \<and>
    kernel_heap k2 \<noteq> 0 \<and> user_heap k2 \<noteq> 0 \<and> kernel_heap k2 \<noteq> user_heap k2 \<and>
    (\<forall>a. is_addr_in_heap k2 a = Some
      (if 0xC0000000 \<le> a \<and> a < 0xC1000000 then kernel_heap k2
       else if 0xD0000000 \<le> a \<and> a < 0xD1000000 then user_heap k2 else 0))"
proof -
  define p where "p = placement_address k"
  define q where "q = p + 48"
  have off: "unat (p + w) = unat p + unat w" if "unat w \<le> 96" for w
    using assms(3) that unfolding p_def by (subst unat_plus_nowrap) auto
  have ne: "q \<noteq> 0" "q \<noteq> p" "p + 24 \<noteq> 0" "q + 24 \<noteq> 0" "q + 24 \<noteq> p + 24"
    using off [of 48] off [of 24] off [of 72] by (auto simp: q_def add.assoc)
  define r where "r = \<lparr>h_start = KHEAP_START, h_size = 0, h_maxsize = KHEAP_MAXSIZE,
                  h_usermode = 0, h_linkedlist = p + 24, h_nextheap = 0\<rparr>"
  define k1 where "k1 = k\<lparr>placement_address := q,
     km_lists := (km_lists k)(p + 24 \<mapsto> create_linkedlist KHEAP_START KHEAP_MAXSIZE 0),
     km_heaps := (km_heaps k)(p \<mapsto> r), heaplist := p, kernel_heap := p\<rparr>"
  have 1: "init_kheap k = Some k1"
    using create_heap_first [OF assms(1) p_def, of KHEAP_START KHEAP_MAXSIZE 0] assms(2)
    by (simp add: init_kheap_def k1_def q_def r_def p_def)
  define u where "u = \<lparr>h_start = UHEAP_START, h_size = 0, h_maxsize = UHEAP_MAXSIZE,
                  h_usermode = 1, h_linkedlist = q + 24, h_nextheap = 0\<rparr>"
  define k2 where "k2 = k1\<lparr>placement_address := q + 48,
     km_lists := (km_lists k1)(q + 24 \<mapsto> create_linkedlist UHEAP_START UHEAP_MAXSIZE 1),
     km_heaps := (km_heaps k1)(q \<mapsto> u, p \<mapsto> r\<lparr>h_nextheap := q\<rparr>), user_heap := q\<rparr>"
  have p0: "p \<noteq> 0" using assms(2) by (simp add: p_def)
  have "create_heap 0 UHEAP_START UHEAP_MAXSIZE 1 k1 = Some (q, k2\<lparr>user_heap := user_heap k1\<rparr>)"
    using p0 ne by (subst create_heap_second [of _ p r q]) (simp_all add: k1_def k2_def r_def u_def)
  then have 2: "init_uheap k1 = Some k2" by (simp add: init_uheap_def k2_def)
  let ?h = "empty_aheap 0xC0000000 0x1000000"
  have "heap_ok (kernel_heap k2) ?h k2" "heap_ok (user_heap k2) (empty_aheap 0xD0000000 0x1000000) k2"
    using p0 ne by (simp_all add: heap_ok_def get_heap_def get_list_def k2_def k1_def r_def u_def habs_def hrel_def
        create_linkedlist_def aheap_wf_def empty_aheap_def)
  moreover have "kernel_heap k2 = p" "user_heap k2 = q" by (simp_all add: k2_def k1_def)
  moreover have g: "get_heap k2 p = Some (r\<lparr>h_nextheap := q\<rparr>)" "get_heap k2 q = Some u" "heaplist k2 = p"
    using p0 ne by (simp_all add: get_heap_def k2_def k1_def)
  moreover have "is_addr_in_heap k2 a = Some
      (if 0xC0000000 \<le> a \<and> a < 0xC1000000 then p else if 0xD0000000 \<le> a \<and> a < 0xD1000000 then q else 0)" for a
    using p0 ne by (simp add: is_addr_in_heap_def in_heap_loop.simps [of k2 a p] in_heap_loop.simps [of k2 a q]
      in_heap_loop.simps [of k2 a 0] g r_def u_def)
  ultimately show ?thesis using 1 2 p0 ne heap_ok_live [of k2 ?h] by (auto simp: kheap_ok_def empty_aheap_def)
qed

definition kmem0 :: kmem where
  "kmem0 = \<lparr>placement_address = 0x200000, km_nodes = Map.empty, km_lists = Map.empty, km_heaps = Map.empty,
     kernel_heap = 0, user_heap = 0, heaplist = 0, km_errno = 0, km_mem = (\<lambda>_. 0)\<rparr>"

theorem boot_heaps_witness:
  "\<exists>k1 k2. init_kheap kmem0 = Some k1 \<and> init_uheap k1 = Some k2 \<and> kheap_ok k2 \<and> kheap_live k2 = {} \<and>
    heap_ok (user_heap k2) (empty_aheap 0xD0000000 0x1000000) k2"
  using boot_heaps [of kmem0] by (auto simp: kmem0_def)

definition kmem1 :: kmem where
  "kmem1 = kmem0\<lparr>kernel_heap := 0x1000, km_heaps := [0x1000 \<mapsto> \<lparr>h_start = KHEAP_START, h_size = 0,
     h_maxsize = KHEAP_MAXSIZE, h_usermode = 0, h_linkedlist = 0x1018, h_nextheap = 0\<rparr>],
     km_lists := [0x1018 \<mapsto> create_linkedlist KHEAP_START KHEAP_MAXSIZE 0]\<rparr>"

lemma heap_ok_kmem1: "heap_ok (kernel_heap kmem1) akheap0 kmem1"
  using habs_kheap0
  by (simp add: heap_ok_def kmem1_def get_heap_def get_list_def habs_def hrel_def kheap0_def list_state_def kmem0_def)

lemma kheap_kmem1: "kheap_ok kmem1" "kheap_live kmem1 = {}"
  using heap_ok_kmem1 heap_ok_live [OF heap_ok_kmem1] by (auto simp: kheap_ok_def akheap0_def)

lemma kmalloc_kmem1: "\<exists>k'. kmalloc 10 kmem1 = Some (0xC000000C, k')"
  using alloc_ok [OF heap_ok_kmem1, of 10 False] heap_ok_kmem1
  by (auto simp: a_get_free_kheap0 kmalloc_def kmalloc_base_def heap_ok_def get_heap_def split: if_splits)

theorem kmalloc_fresh_witness:
  "\<exists>k' sz. kmalloc 10 kmem1 = Some (0xC000000C, k') \<and> 10 \<le> sz \<and> kheap_live k' = {(0xC000000C, sz)}"
proof -
  from kmalloc_kmem1 obtain k' where "kmalloc 10 kmem1 = Some (0xC000000C, k')" by blast
  with kmalloc_fresh [OF kheap_kmem1(1) _ this] show ?thesis by (auto simp: kheap_kmem1)
qed

theorem kmalloc_kfree_witness:
  "\<exists>k1 k2. kmalloc 10 kmem1 = Some (0xC000000C, k1) \<and> kfree 0xC000000C k1 = Some (0, k2) \<and> kheap_live k2 = {}"
proof -
  from kmalloc_kmem1 obtain k' where "kmalloc 10 kmem1 = Some (0xC000000C, k')" by blast
  with kmalloc_kfree [OF kheap_kmem1(1) _ this] show ?thesis by (auto simp: kheap_kmem1)
qed

end
