(* ===== verification/Mm_Paging.thy ===== *)
theory Mm_Paging
  imports Mm_Heap
begin

text \<open>
  Paging (\<^verbatim>\<open>kernel/mm/paging.c\<close>): the bitmap of physical frames, page tables and directories, mapping of memory
  blocks, duplication of an address space, and the part of \<^verbatim>\<open>kernel/mm/heap.c\<close> that reports physical addresses.

  Page tables and directories are objects by address; a \<^verbatim>\<open>page_t *\<close> is the address of its table and an index. The bitmap is
  the list of words behind \<^verbatim>\<open>g_frames\<close>. An access outside of it, or through a null pointer, is \<open>None\<close>. The contents of
  physical frames are part of the state, for the copy of a page; the translation buffer of the processor is taken to be
  coherent. \<^verbatim>\<open>kmalloc_base\<close> with a physical address and \<^verbatim>\<open>get_page\<close> call each other.
\<close>

type_synonym frame = "20 word"

record page =
  p_present :: bool
  p_rw :: bool
  p_user :: bool
  p_accessed :: bool
  p_dirty :: bool
  p_unused :: "7 word"
  p_frame :: frame

type_synonym page_table = "nat \<Rightarrow> page"

record page_directory =
  tables :: "nat \<Rightarrow> addr"
  tablesPhysical :: "nat \<Rightarrow> u32"
  physicalAddress :: u32

record vm =
  vm_k :: kmem
  g_frames :: "u32 list"
  g_nframes :: u32
  pg_tables :: "addr \<rightharpoonup> page_table"
  pg_dirs :: "addr \<rightharpoonup> page_directory"
  g_kernel_directory :: addr
  g_current_directory :: addr
  vm_cr3 :: u32
  vm_cr0 :: u32
  vm_errno :: int
  vm_phys :: "frame \<Rightarrow> 12 word \<Rightarrow> u8"

abbreviation (input) "AMOUNT_OF_PAGES_PER_TABLE \<equiv> (1024 :: u32)"
abbreviation (input) "AMOUNT_OF_PAGE_TABLES_PER_DIR \<equiv> (1024 :: nat)"
abbreviation (input) "PAGE_BUFFER_LOCATION \<equiv> (0x1100000 :: addr)"
abbreviation (input) "SIZEOF_PAGE_TABLE \<equiv> (4096 :: u32)"
abbreviation (input) "SIZEOF_PAGE_DIRECTORY \<equiv> (8196 :: u32)"

definition page_zero :: page where
  "page_zero = \<lparr>p_present = False, p_rw = False, p_user = False, p_accessed = False, p_dirty = False, p_unused = 0, p_frame = 0\<rparr>"

definition dir_zero :: page_directory where
  "dir_zero = \<lparr>tables = \<lambda>_. 0, tablesPhysical = \<lambda>_. 0, physicalAddress = 0\<rparr>"

type_synonym pgref = "addr \<times> nat"

definition get_kernel_dir :: "vm \<Rightarrow> addr" where
  "get_kernel_dir s = g_kernel_directory s"

definition get_current_dir :: "vm \<Rightarrow> addr" where
  "get_current_dir s = g_current_directory s"

definition set_current_dir :: "addr \<Rightarrow> vm \<Rightarrow> vm" where
  "set_current_dir new s = s\<lparr>g_current_directory := new\<rparr>"

definition load_dir :: "addr \<Rightarrow> vm \<Rightarrow> page_directory option" where
  "load_dir d s = (if d = 0 then None else pg_dirs s d)"

definition load_page :: "pgref \<Rightarrow> vm \<Rightarrow> page option" where
  "load_page p s = (if fst p = 0 then None else map_option (\<lambda>t. t (snd p)) (pg_tables s (fst p)))"

definition store_page :: "pgref \<Rightarrow> page \<Rightarrow> vm \<Rightarrow> vm option" where
  "store_page p x s =
     (if fst p = 0 then None
      else map_option (\<lambda>t. s\<lparr>pg_tables := (pg_tables s)(fst p \<mapsto> t(snd p := x))\<rparr>) (pg_tables s (fst p)))"

subsection \<open>The bitmap of frames\<close>

definition INDEX_FROM_BIT :: "u32 \<Rightarrow> u32" where
  "INDEX_FROM_BIT a = a div 32"

definition OFFSET_FROM_BIT :: "u32 \<Rightarrow> u32" where
  "OFFSET_FROM_BIT a = a mod 32"

definition load_word :: "u32 \<Rightarrow> vm \<Rightarrow> u32 option" where
  "load_word i s = (if unat i < length (g_frames s) then Some (g_frames s ! unat i) else None)"

definition on_word :: "(u32 \<Rightarrow> u32) \<Rightarrow> u32 \<Rightarrow> vm \<Rightarrow> vm option" where
  "on_word f i s = do { w \<leftarrow> load_word i s; Some (s\<lparr>g_frames := (g_frames s)[unat i := f w]\<rparr>) }"

definition get_frame :: "u32 \<Rightarrow> vm \<Rightarrow> (u32 \<times> vm) option" where
  "get_frame frame_addr s =
     (let frame = frame_addr div 0x1000; index = INDEX_FROM_BIT frame; offset = OFFSET_FROM_BIT frame in do {
      s \<leftarrow> on_word (\<lambda>w. w AND push_bit (unat offset) 1) index s;
      w \<leftarrow> load_word index s;
      Some (w, s) })"

definition set_frame :: "u32 \<Rightarrow> vm \<Rightarrow> vm option" where
  "set_frame frame_addr s =
     (let frame = frame_addr div 0x1000; index = INDEX_FROM_BIT frame; offset = OFFSET_FROM_BIT frame in
      on_word (\<lambda>w. w OR push_bit (unat offset) 1) index s)"

definition clear_frame :: "u32 \<Rightarrow> vm \<Rightarrow> vm option" where
  "clear_frame frame_addr s =
     (let frame = frame_addr div 0x1000; index = INDEX_FROM_BIT frame; offset = OFFSET_FROM_BIT frame in
      on_word (\<lambda>w. w AND NOT (push_bit (unat offset) 1)) index s)"

fun first_bit :: "u32 \<Rightarrow> nat \<Rightarrow> nat \<Rightarrow> nat option" where
  "first_bit w j 0 = None"
| "first_bit w j (Suc n) = (if w AND push_bit j 1 = 0 then Some j else first_bit w (j + 1) n)"

text \<open>The two loops of \<^verbatim>\<open>first_frame\<close>: \<open>n\<close> words from index \<open>i\<close> on, 32 bits of each word that is not full.\<close>

primrec first_frame_loop :: "vm \<Rightarrow> u32 \<Rightarrow> nat \<Rightarrow> u32 option" where
  "first_frame_loop s i 0 = Some (-1)"
| "first_frame_loop s i (Suc n) = do {
     w \<leftarrow> load_word i s;
     case (if w \<noteq> 0xFFFFFFFF then first_bit w 0 32 else None) of
       Some j \<Rightarrow> Some (i * 4 * 8 + of_nat j)
     | None \<Rightarrow> first_frame_loop s (i + 1) n }"

definition first_frame :: "vm \<Rightarrow> u32 option" where
  "first_frame s = first_frame_loop s 0 (unat (INDEX_FROM_BIT (g_nframes s)))"

text \<open>The assignments of \<^verbatim>\<open>alloc_frame\<close>, \<^verbatim>\<open>realloc_frame\<close> and \<^verbatim>\<open>map_frame\<close> to a page.\<close>

definition fill_page :: "bool \<Rightarrow> bool \<Rightarrow> u32 \<Rightarrow> page \<Rightarrow> page" where
  "fill_page is_kernel writable index p =
     p\<lparr>p_present := True, p_rw := writable, p_user := \<not> is_kernel, p_frame := ucast index\<rparr>"

definition alloc_frame :: "pgref \<Rightarrow> bool \<Rightarrow> bool \<Rightarrow> vm \<Rightarrow> (int \<times> vm) option" where
  "alloc_frame page is_kernel writable s = do {
     p \<leftarrow> load_page page s;
     if p_frame p \<noteq> 0 then Some (-1, s)
     else do {
       index \<leftarrow> first_frame s;
       if index = -1 then Some (-2, s\<lparr>vm_errno := ENOMEM\<rparr>)
       else do {
         s \<leftarrow> set_frame (index * 0x1000) s;
         s \<leftarrow> store_page page (fill_page is_kernel writable index p) s;
         Some (0, s) } } }"

definition set_frame_flags :: "pgref \<Rightarrow> bool \<Rightarrow> bool \<Rightarrow> vm \<Rightarrow> vm option" where
  "set_frame_flags page krn writeable s = do {
     p \<leftarrow> load_page page s;
     store_page page (p\<lparr>p_rw := writeable, p_user := \<not> krn\<rparr>) s }"

definition flagforce_alloc_frame :: "pgref \<Rightarrow> bool \<Rightarrow> bool \<Rightarrow> vm \<Rightarrow> (int \<times> vm) option" where
  "flagforce_alloc_frame page is_kernel writeable s = do {
     (ret, s) \<leftarrow> alloc_frame page is_kernel writeable s;
     if ret = -1 then do { s \<leftarrow> set_frame_flags page is_kernel writeable s; Some (0, s) }
     else if ret = -2 then Some (-1, s)
     else Some (0, s) }"

definition realloc_frame :: "pgref \<Rightarrow> bool \<Rightarrow> bool \<Rightarrow> vm \<Rightarrow> (int \<times> vm) option" where
  "realloc_frame page is_kernel writable s = do {
     p \<leftarrow> load_page page s;
     s \<leftarrow> (if p_frame p \<noteq> 0 then clear_frame (ucast (p_frame p)) s else Some s);
     index \<leftarrow> first_frame s;
     if index = -1 then Some (-2, s\<lparr>vm_errno := ENOMEM\<rparr>)
     else do {
       s \<leftarrow> set_frame (index * 0x1000) s;
       s \<leftarrow> store_page page (fill_page is_kernel writable index p) s;
       Some (0, s) } }"

definition map_frame :: "pgref \<Rightarrow> u32 \<Rightarrow> bool \<Rightarrow> bool \<Rightarrow> bool \<Rightarrow> vm \<Rightarrow> (int \<times> vm) option" where
  "map_frame page a remap is_kernel writable s = do {
     p \<leftarrow> load_page page s;
     if p_frame p \<noteq> 0 \<and> \<not> remap then Some (-1, s)
     else do {
       s \<leftarrow> set_frame a s;
       s \<leftarrow> store_page page (fill_page is_kernel writable (a div 0x1000) p) s;
       Some (0, s) } }"

definition free_frame :: "pgref \<Rightarrow> vm \<Rightarrow> vm option" where
  "free_frame page s = do {
     p \<leftarrow> load_page page s;
     if \<not> (0 = p_frame p) then Some s
     else do {
       s \<leftarrow> clear_frame 0 s;
       store_page page (p\<lparr>p_frame := 0\<rparr>) s } }"

definition virt_to_phys_from_dir :: "addr \<Rightarrow> addr \<Rightarrow> vm \<Rightarrow> u32 option" where
  "virt_to_phys_from_dir va dir s =
     (let page_aligned_addr = va AND 0xFFFFF000 in do {
      d \<leftarrow> load_dir dir s;
      page \<leftarrow> load_page (tables d (unat (page_aligned_addr div 0x1000 div AMOUNT_OF_PAGES_PER_TABLE)),
        unat (page_aligned_addr div 0x1000 mod AMOUNT_OF_PAGES_PER_TABLE)) s;
      if p_frame page = 0 then Some 0
      else Some (ucast (p_frame page) * 0x1000 + (va AND 0xFFF)) })"

definition switch_page_directory :: "addr \<Rightarrow> vm \<Rightarrow> vm option" where
  "switch_page_directory dir s = do {
     d \<leftarrow> load_dir dir s;
     Some (s\<lparr>g_current_directory := dir, vm_cr3 := physicalAddress d\<rparr>) }"

definition init_page_directory :: "addr \<Rightarrow> vm \<Rightarrow> vm option" where
  "init_page_directory dir s = do {
     s \<leftarrow> switch_page_directory dir s;
     Some (s\<lparr>vm_cr0 := vm_cr0 s OR 0x80000000\<rparr>) }"

subsection \<open>Page tables\<close>

text \<open>A table taken from the heap is entered into the directory (the rest of \<^verbatim>\<open>alloc_page_table\<close>).\<close>

definition enter_table :: "nat \<Rightarrow> u32 \<Rightarrow> addr \<Rightarrow> addr \<Rightarrow> u32 \<Rightarrow> vm \<Rightarrow> vm option" where
  "enter_table table_index flags dir t phys s = do {
     d \<leftarrow> load_dir dir s;
     Some (s\<lparr>pg_tables := (pg_tables s)(t \<mapsto> (\<lambda>_. page_zero)),
       pg_dirs := (pg_dirs s)(dir \<mapsto> d\<lparr>tables := (tables d)(table_index := t),
         tablesPhysical := (tablesPhysical d)(table_index := phys OR flags)\<rparr>)\<rparr>) }"

definition on_kmem :: "(kmem \<Rightarrow> ('a \<times> kmem) option) \<Rightarrow> vm \<Rightarrow> ('a \<times> vm) option" where
  "on_kmem f s = do { (r, k) \<leftarrow> f (vm_k s); Some (r, s\<lparr>vm_k := k\<rparr>) }"

text \<open>\<^verbatim>\<open>kmalloc_base\<close> with a pointer for the physical address, which is the second result; 0 is its initial value in every
  caller. The page of the new block is looked up in the kernel's directory, with a new table when there is none, which
  calls \<^verbatim>\<open>kmalloc_base\<close> again.\<close>

partial_function (option) kmalloc_base_phys :: "u32 \<Rightarrow> bool \<Rightarrow> vm \<Rightarrow> (addr \<times> u32 \<times> vm) option" where
  "kmalloc_base_phys sz align s =
     (if kernel_heap (vm_k s) \<noteq> 0 then do {
        (a, s) \<leftarrow> on_kmem (alloc (kernel_heap (vm_k s)) sz align) s;
        if a = 0 then Some (0, 0, s)
        else do {
          let vp = a div 0x1000;
          let ti = unat (vp div AMOUNT_OF_PAGES_PER_TABLE);
          let dir = get_kernel_dir s;
          d \<leftarrow> load_dir dir s;
          s \<leftarrow> (if tables d ti = 0 then do {
                 (t, phys, s) \<leftarrow> kmalloc_base_phys SIZEOF_PAGE_TABLE True s;
                 enter_table ti 7 dir t phys s }
               else Some s);
          d \<leftarrow> load_dir dir s;
          let page = (tables d ti, unat (vp mod AMOUNT_OF_PAGES_PER_TABLE));
          p \<leftarrow> load_page page s;
          s \<leftarrow> (if p_frame p = 0 then do { (_, s) \<leftarrow> alloc_frame page True False s; Some s } else Some s);
          p \<leftarrow> load_page page s;
          Some (a, ucast (p_frame p) * 0x1000 + (a AND 0xFFF), s) } }
      else
        let (a, k) = simple_alloc sz align (vm_k s) in Some (a, a, s\<lparr>vm_k := k\<rparr>))"

definition alloc_page_table :: "nat \<Rightarrow> u32 \<Rightarrow> addr \<Rightarrow> vm \<Rightarrow> vm option" where
  "alloc_page_table table_index flags dir s = do {
     (t, phys, s) \<leftarrow> kmalloc_base_phys SIZEOF_PAGE_TABLE True s;
     enter_table table_index flags dir t phys s }"

definition get_page :: "addr \<Rightarrow> bool \<Rightarrow> addr \<Rightarrow> vm \<Rightarrow> (pgref option \<times> vm) option" where
  "get_page va make_page_table dir s =
     (let vp = va div 0x1000; ti = unat (vp div AMOUNT_OF_PAGES_PER_TABLE) in do {
      d \<leftarrow> load_dir dir s;
      if tables d ti = 0 \<and> make_page_table then do {
        s \<leftarrow> alloc_page_table ti 7 dir s;
        d \<leftarrow> load_dir dir s;
        Some (Some (tables d ti, unat (vp mod AMOUNT_OF_PAGES_PER_TABLE)), s) }
      else if tables d ti = 0 \<and> \<not> make_page_table then Some (None, s)
      else Some (Some (tables d ti, unat (vp mod AMOUNT_OF_PAGES_PER_TABLE)), s) })"

text \<open>The page of an address for the callers that make the table and use the result at once.\<close>

definition get_page1 :: "addr \<Rightarrow> addr \<Rightarrow> vm \<Rightarrow> (pgref \<times> vm) option" where
  "get_page1 va dir s = do { (p, s) \<leftarrow> get_page va True dir s; p \<leftarrow> p; Some (p, s) }"

text \<open>\<^verbatim>\<open>kmalloc_gen_base\<close> with a physical address: the current directory, and a frame for user mode.\<close>

definition kmalloc_gen_base_phys :: "addr \<Rightarrow> u32 \<Rightarrow> bool \<Rightarrow> vm \<Rightarrow> (addr \<times> u32 \<times> vm) option" where
  "kmalloc_gen_base_phys hp sz align s = do {
     (a, s) \<leftarrow> on_kmem (alloc hp sz align) s;
     if a = 0 then Some (0, 0, s)
     else do {
       (page, s) \<leftarrow> get_page1 a (get_current_dir s) s;
       p \<leftarrow> load_page page s;
       s \<leftarrow> (if p_frame p = 0 then do { (_, s) \<leftarrow> alloc_frame page False True s; Some s } else Some s);
       p \<leftarrow> load_page page s;
       Some (a, ucast (p_frame p) * 0x1000 + (a AND 0xFFF), s) } }"

subsection \<open>Mapping of memory blocks\<close>

partial_function (option) alloc_virt_loop :: "addr \<Rightarrow> u32 \<Rightarrow> bool \<Rightarrow> u32 \<Rightarrow> vm \<Rightarrow> vm option" where
  "alloc_virt_loop start sz um i s =
     (if i \<le> sz then do {
        (page, s) \<leftarrow> get_page1 (start + i) (g_kernel_directory s) s;
        (_, s) \<leftarrow> alloc_frame page (\<not> um) um s;
        alloc_virt_loop start sz um (i + 0x1000) s }
      else Some s)"

definition alloc_virt :: "addr \<Rightarrow> u32 \<Rightarrow> bool \<Rightarrow> vm \<Rightarrow> vm option" where
  "alloc_virt start sz um s = alloc_virt_loop start sz um 0 s"

partial_function (option) map_memory_block :: "addr \<Rightarrow> addr \<Rightarrow> bool \<Rightarrow> bool \<Rightarrow> addr \<Rightarrow> vm \<Rightarrow> (int \<times> vm) option" where
  "map_memory_block startaddr endaddr is_kernel writeable dir s =
     (if startaddr < endaddr then do {
        (page, s) \<leftarrow> get_page1 startaddr dir s;
        (_, s) \<leftarrow> flagforce_alloc_frame page is_kernel writeable s;
        map_memory_block (startaddr + 0x1000) endaddr is_kernel writeable dir s }
      else Some (0, s))"

partial_function (option) remap_memory_block :: "addr \<Rightarrow> addr \<Rightarrow> bool \<Rightarrow> bool \<Rightarrow> addr \<Rightarrow> vm \<Rightarrow> (int \<times> vm) option" where
  "remap_memory_block startaddr endaddr is_kernel writeable dir s =
     (if startaddr \<le> endaddr then do {
        (page, s) \<leftarrow> get_page1 startaddr dir s;
        (_, s) \<leftarrow> realloc_frame page is_kernel writeable s;
        remap_memory_block (startaddr + 0x1000) endaddr is_kernel writeable dir s }
      else Some (0, s))"

definition map_mem :: "addr \<Rightarrow> addr \<Rightarrow> bool \<Rightarrow> bool \<Rightarrow> vm \<Rightarrow> (int \<times> vm) option" where
  "map_mem startaddr endaddr is_kernel writable s =
     map_memory_block startaddr endaddr is_kernel writable (g_current_directory s) s"

definition remap_mem :: "addr \<Rightarrow> addr \<Rightarrow> bool \<Rightarrow> bool \<Rightarrow> vm \<Rightarrow> (int \<times> vm) option" where
  "remap_mem startaddr endaddr is_kernel writable s =
     remap_memory_block startaddr endaddr is_kernel writable (g_current_directory s) s"

partial_function (option) identity_map_memory_block ::
  "addr \<Rightarrow> addr \<Rightarrow> bool \<Rightarrow> bool \<Rightarrow> addr \<Rightarrow> vm \<Rightarrow> (int \<times> vm) option" where
  "identity_map_memory_block startaddr endaddr is_kernel writable dir s =
     (if startaddr \<le> endaddr then do {
        (page, s) \<leftarrow> get_page1 startaddr dir s;
        (ret, s) \<leftarrow> map_frame page startaddr True is_kernel writable s;
        if ret \<noteq> 0 then Some (ret, s)
        else identity_map_memory_block (startaddr + 0x1000) endaddr is_kernel writable dir s }
      else Some (0, s))"

partial_function (option) map_physical_loop ::
  "u32 \<Rightarrow> addr \<Rightarrow> u32 \<Rightarrow> bool \<Rightarrow> bool \<Rightarrow> addr \<Rightarrow> u32 \<Rightarrow> vm \<Rightarrow> (int \<times> vm) option" where
  "map_physical_loop pa va sz is_kernel writable dir i s =
     (if i < sz then do {
        (page, s) \<leftarrow> get_page1 (va + i) dir s;
        (ret, s) \<leftarrow> map_frame page (pa + i) True is_kernel writable s;
        if ret \<noteq> 0 then Some (-1, s)
        else map_physical_loop pa va sz is_kernel writable dir (i + 0x1000) s }
      else Some (0, s))"

definition map_physical_to_virtual :: "u32 \<Rightarrow> addr \<Rightarrow> u32 \<Rightarrow> bool \<Rightarrow> bool \<Rightarrow> addr \<Rightarrow> vm \<Rightarrow> (int \<times> vm) option" where
  "map_physical_to_virtual pa va sz is_kernel writable dir s = map_physical_loop pa va sz is_kernel writable dir 0 s"

partial_function (option) initialize_mem_loop :: "addr \<Rightarrow> u32 \<Rightarrow> bool \<Rightarrow> addr \<Rightarrow> vm \<Rightarrow> (int \<times> vm) option" where
  "initialize_mem_loop start sz um dir s =
     (if start < start + sz then do {
        (page, s) \<leftarrow> get_page1 start dir s;
        (ret, s) \<leftarrow> alloc_frame page (\<not> um) um s;
        if ret \<noteq> 0 then Some (-1, s)
        else initialize_mem_loop (start + 0x1000) sz um dir s }
      else Some (0, s))"

definition initialize_mem :: "addr \<Rightarrow> u32 \<Rightarrow> bool \<Rightarrow> addr \<Rightarrow> vm \<Rightarrow> (int \<times> vm) option" where
  "initialize_mem start sz um dir s =
     initialize_mem_loop start sz um (if dir = 0 then get_current_dir s else dir) s"

subsection \<open>Address spaces\<close>

text \<open>The \<^verbatim>\<open>memcpy\<close> of a whole page at \<^verbatim>\<open>addr\<close> to the buffer page copies one frame to another; both pages must be present.\<close>

definition copy_frame :: "pgref \<Rightarrow> pgref \<Rightarrow> vm \<Rightarrow> vm option" where
  "copy_frame dst src s = do {
     d \<leftarrow> load_page dst s;
     x \<leftarrow> load_page src s;
     if p_present d \<and> p_present x then Some (s\<lparr>vm_phys := (vm_phys s)(p_frame d := vm_phys s (p_frame x))\<rparr>) else None }"

definition copy_page :: "addr \<Rightarrow> addr \<Rightarrow> vm \<Rightarrow> vm option" where
  "copy_page a newdir s =
     (let curdir = g_current_directory s in do {
      (cp, s) \<leftarrow> get_page1 a curdir s;
      (buffer_page, s) \<leftarrow> get_page1 PAGE_BUFFER_LOCATION curdir s;
      (new_page, s) \<leftarrow> get_page1 a newdir s;
      b \<leftarrow> load_page buffer_page s;
      let bufframe = p_frame b;
      c \<leftarrow> load_page cp s;
      (_, s) \<leftarrow> alloc_frame new_page (\<not> p_user c) (p_rw c) s;
      n \<leftarrow> load_page new_page s;
      b \<leftarrow> load_page buffer_page s;
      s \<leftarrow> store_page buffer_page (b\<lparr>p_frame := p_frame n\<rparr>) s;
      s \<leftarrow> copy_frame buffer_page cp s;
      b \<leftarrow> load_page buffer_page s;
      store_page buffer_page (b\<lparr>p_frame := bufframe\<rparr>) s })"

primrec copy_pages :: "nat \<Rightarrow> nat \<Rightarrow> nat \<Rightarrow> addr \<Rightarrow> vm \<Rightarrow> vm option" where
  "copy_pages ti pi 0 newdir s = Some s"
| "copy_pages ti pi (Suc n) newdir s = do {
     d \<leftarrow> load_dir (g_current_directory s) s;
     p \<leftarrow> load_page (tables d ti, pi) s;
     s \<leftarrow> (if p_present p then copy_page (of_nat (ti * 1024 + pi) * 0x1000) newdir s else Some s);
     copy_pages ti (pi + 1) n newdir s }"

definition copy_table :: "nat \<Rightarrow> addr \<Rightarrow> vm \<Rightarrow> vm option" where
  "copy_table ti newdir s = do {
     cur \<leftarrow> load_dir (g_current_directory s) s;
     ker \<leftarrow> load_dir (g_kernel_directory s) s;
     if tablesPhysical cur ti = 0 then Some s
     else if tables cur ti = tables ker ti then do {
       new \<leftarrow> load_dir newdir s;
       Some (s\<lparr>pg_dirs := (pg_dirs s)(newdir \<mapsto> new\<lparr>tables := (tables new)(ti := tables cur ti),
         tablesPhysical := (tablesPhysical new)(ti := tablesPhysical cur ti)\<rparr>)\<rparr>) }
     else do {
       (t, phys, s) \<leftarrow> kmalloc_base_phys SIZEOF_PAGE_TABLE True s;
       cur \<leftarrow> load_dir (g_current_directory s) s;
       s \<leftarrow> enter_table ti (tablesPhysical cur ti AND 0xF) newdir t phys s;
       copy_pages ti 0 1024 newdir s } }"

primrec copy_tables :: "nat \<Rightarrow> nat \<Rightarrow> addr \<Rightarrow> vm \<Rightarrow> vm option" where
  "copy_tables ti 0 newdir s = Some s"
| "copy_tables ti (Suc n) newdir s = do { s \<leftarrow> copy_table ti newdir s; copy_tables (ti + 1) n newdir s }"

definition duplicate_current_page_directory :: "vm \<Rightarrow> (addr \<times> vm) option" where
  "duplicate_current_page_directory s = do {
     (newdir, phys, s) \<leftarrow> kmalloc_base_phys SIZEOF_PAGE_DIRECTORY True s;
     s \<leftarrow> copy_tables 0 AMOUNT_OF_PAGE_TABLES_PER_DIR newdir
       (s\<lparr>pg_dirs := (pg_dirs s)(newdir \<mapsto> dir_zero\<lparr>physicalAddress := phys + 4096\<rparr>)\<rparr>);
     Some (newdir, s) }"

primrec clear_pages :: "nat \<Rightarrow> addr \<Rightarrow> nat \<Rightarrow> nat \<Rightarrow> vm \<Rightarrow> vm option" where
  "clear_pages ti t pi 0 s = Some s"
| "clear_pages ti t pi (Suc n) s = do {
     p \<leftarrow> load_page (t, pi) s;
     s \<leftarrow> (if p_frame p \<noteq> 0 then clear_frame (of_nat (ti * 1024 + pi) * 0x1000) s else Some s);
     clear_pages ti t (pi + 1) n s }"

primrec clear_tables :: "addr \<Rightarrow> nat \<Rightarrow> nat \<Rightarrow> vm \<Rightarrow> vm option" where
  "clear_tables dir ti 0 s = Some s"
| "clear_tables dir ti (Suc n) s = do {
     d \<leftarrow> load_dir dir s;
     ker \<leftarrow> load_dir (g_kernel_directory s) s;
     s \<leftarrow> (if tables d ti \<noteq> tables ker ti then do {
            s \<leftarrow> clear_pages ti (tables d ti) 0 1024 s;
            (_, s) \<leftarrow> on_kmem (kfree (tables d ti)) s;
            Some s }
          else Some s);
     clear_tables dir (ti + 1) n s }"

definition clear_page_directory :: "addr \<Rightarrow> vm \<Rightarrow> vm option" where
  "clear_page_directory dir s = clear_tables dir 0 AMOUNT_OF_PAGE_TABLES_PER_DIR s"

subsection \<open>Memory statistics\<close>

primrec free_bits :: "u32 \<Rightarrow> nat \<Rightarrow> nat \<Rightarrow> u32" where
  "free_bits w j 0 = 0"
| "free_bits w j (Suc n) = (if drop_bit j w AND 1 = 0 then 1 else 0) + free_bits w (j + 1) n"

primrec freeram_loop :: "vm \<Rightarrow> u32 \<Rightarrow> u32 \<Rightarrow> nat \<Rightarrow> u32 option" where
  "freeram_loop s i freeram 0 = Some freeram"
| "freeram_loop s i freeram (Suc n) = do {
     w \<leftarrow> load_word i s;
     if w = 0 then freeram_loop s (i + 1) (freeram + 32) n
     else freeram_loop s (i + 1) (freeram + free_bits w 0 32) n }"

definition phys_freeram_amount :: "vm \<Rightarrow> u32 option" where
  "phys_freeram_amount s = do {
     freeram \<leftarrow> freeram_loop s 0 0 (unat (g_nframes s div 32));
     Some (freeram * 0x1000) }"

definition phys_freeswap_amount :: u32 where
  "phys_freeswap_amount = 0"

definition sharedram_amount :: u32 where
  "sharedram_amount = 0"

definition bufferram_amount :: u32 where
  "bufferram_amount = 0"

subsection \<open>Start of paging\<close>

partial_function (option) make_tables :: "addr \<Rightarrow> addr \<Rightarrow> vm \<Rightarrow> vm option" where
  "make_tables i e s =
     (if i < e then do {
        (_, s) \<leftarrow> get_page i True (g_kernel_directory s) s;
        make_tables (i + 0x1000) e s }
      else Some s)"

abbreviation (input) "KHEAP_INITIAL_SIZE \<equiv> (0x1000 :: u32)"
abbreviation (input) "UHEAP_INITIAL_SIZE \<equiv> (0x1000 :: u32)"
abbreviation (input) "PREHEAPSPACE \<equiv> (0x85000 :: u32)"

text \<open>\<open>fb\<close> and \<open>buffer_size\<close> are the address and the size in bytes of the screen, from the video driver. The registration of the page
  fault handler is not part of the state. \<^verbatim>\<open>g_nframes / 32\<close> is a number of words, but the block has that many bytes: the
  bitmap has a quarter of the words it needs.\<close>

definition init_paging :: "addr \<Rightarrow> u32 \<Rightarrow> vm \<Rightarrow> (int \<times> vm) option" where
  "init_paging fb buffer_size s =
     (let end_of_memory = 512 * 1024 * 1024; nframes = end_of_memory div 0x1000 in do {
      (_, s) \<leftarrow> on_kmem (kmalloc_base (nframes div 32) True) (s\<lparr>g_nframes := nframes\<rparr>);
      let s = s\<lparr>g_frames := replicate (unat (nframes div 32 div 4)) 0\<rparr>;
      (kd, s) \<leftarrow> on_kmem (kmalloc_base SIZEOF_PAGE_DIRECTORY True) s;
      let s = s\<lparr>pg_dirs := (pg_dirs s)(kd \<mapsto> dir_zero\<lparr>physicalAddress := kd + 4096\<rparr>),
        g_kernel_directory := kd, g_current_directory := kd\<rparr>;
      s \<leftarrow> make_tables KHEAP_START (KHEAP_START + KHEAP_MAXSIZE) s;
      (_, s) \<leftarrow> identity_map_memory_block 0 (get_placement_addr (vm_k s) + PREHEAPSPACE) True False kd s;
      (_, s) \<leftarrow> map_memory_block KHEAP_START (KHEAP_START + KHEAP_INITIAL_SIZE) True False kd s;
      (_, s) \<leftarrow> map_memory_block UHEAP_START (UHEAP_START + UHEAP_INITIAL_SIZE) False True kd s;
      (page, s) \<leftarrow> get_page1 PAGE_BUFFER_LOCATION kd s;
      (_, s) \<leftarrow> alloc_frame page True False s;
      (_, s) \<leftarrow> identity_map_memory_block fb (fb + buffer_size) False True kd s;
      (nd, s) \<leftarrow> duplicate_current_page_directory s;
      s \<leftarrow> init_page_directory nd (s\<lparr>g_current_directory := nd\<rparr>);
      Some (0, s) })"

subsection \<open>The bitmap as a set of frames\<close>

definition used :: "vm \<Rightarrow> nat set" where
  "used s = {f. f div 32 < length (g_frames s) \<and> bit (g_frames s ! (f div 32)) (f mod 32)}"

lemma used_cong: "g_frames s = g_frames t \<Longrightarrow> used s = used t"
  by (simp add: used_def)

lemma frame_index:
  "unat (INDEX_FROM_BIT (a div 0x1000)) = unat a div 4096 div 32"
  "unat (OFFSET_FROM_BIT (a div 0x1000)) = unat a div 4096 mod 32"
  by (simp_all add: INDEX_FROM_BIT_def OFFSET_FROM_BIT_def unat_div unat_mod)

lemma div_mod_32_eq: "g div 32 = f div 32 \<and> g mod 32 = f mod 32 \<longleftrightarrow> g = f" for f g :: nat
  by (metis div_mult_mod_eq)

lemma used_update:
  assumes "f div 32 < length (g_frames s)"
  shows "g \<in> used (s\<lparr>g_frames := (g_frames s)[f div 32 := w]\<rparr>) \<longleftrightarrow>
    (if g div 32 = f div 32 then bit w (g mod 32) else g \<in> used s)"
  using assms by (auto simp: used_def nth_list_update)

lemma set_frame_ok:
  assumes "unat a div 4096 div 32 < length (g_frames s)"
  shows "\<exists>fs. set_frame a s = Some (s\<lparr>g_frames := fs\<rparr>) \<and> length fs = length (g_frames s) \<and>
    used (s\<lparr>g_frames := fs\<rparr>) = insert (unat a div 4096) (used s)"
proof -
  define f where "f = unat a div 4096"
  let ?w = "g_frames s ! (f div 32) OR push_bit (f mod 32) 1"
  have "set_frame a s = Some (s\<lparr>g_frames := (g_frames s)[f div 32 := ?w]\<rparr>)"
    using assms by (simp add: set_frame_def Let_def on_word_def load_word_def frame_index f_def)
  moreover have "g \<in> used (s\<lparr>g_frames := (g_frames s)[f div 32 := ?w]\<rparr>) \<longleftrightarrow> g \<in> insert f (used s)" for g
    using assms used_update [of f s g ?w] div_mod_32_eq [of g f]
    by (auto simp: f_def [symmetric] bit_simps used_def)
  ultimately show ?thesis by (intro exI [of _ "(g_frames s)[f div 32 := ?w]"]) (auto simp: f_def)
qed

lemma clear_frame_ok:
  assumes "unat a div 4096 div 32 < length (g_frames s)"
  shows "\<exists>fs. clear_frame a s = Some (s\<lparr>g_frames := fs\<rparr>) \<and> length fs = length (g_frames s) \<and>
    used (s\<lparr>g_frames := fs\<rparr>) = used s - {unat a div 4096}"
proof -
  define f where "f = unat a div 4096"
  let ?w = "g_frames s ! (f div 32) AND NOT (push_bit (f mod 32) 1)"
  have "clear_frame a s = Some (s\<lparr>g_frames := (g_frames s)[f div 32 := ?w]\<rparr>)"
    using assms by (simp add: clear_frame_def Let_def on_word_def load_word_def frame_index f_def)
  moreover have "g \<in> used (s\<lparr>g_frames := (g_frames s)[f div 32 := ?w]\<rparr>) \<longleftrightarrow> g \<in> used s - {f}" for g
    using assms used_update [of f s g ?w] div_mod_32_eq [of g f]
    by (auto simp: f_def [symmetric] bit_simps used_def)
  ultimately show ?thesis by (intro exI [of _ "(g_frames s)[f div 32 := ?w]"]) (auto simp: f_def)
qed

lemma set_frame_None: "\<not> unat a div 4096 div 32 < length (g_frames s) \<Longrightarrow> set_frame a s = None"
  by (simp add: set_frame_def Let_def on_word_def load_word_def frame_index)

lemma first_bit_spec:
  "j + n \<le> 32 \<Longrightarrow>
    (case first_bit w j n of
       None \<Rightarrow> (\<forall>l. j \<le> l \<and> l < j + n \<longrightarrow> bit w l)
     | Some l \<Rightarrow> j \<le> l \<and> l < j + n \<and> \<not> bit w l \<and> (\<forall>i. j \<le> i \<and> i < l \<longrightarrow> bit w i))"
proof (induction n arbitrary: j)
  case (Suc n)
  have "j \<le> l \<longleftrightarrow> l = j \<or> j + 1 \<le> l" for l by linarith
  with Suc.IH [of "j + 1"] Suc.prems show ?case
    by (auto simp: and_exp_eq_0_iff_not_bit split: option.splits)
qed auto

lemma full_word: "w = 0xFFFFFFFF \<longleftrightarrow> (\<forall>l < 32. bit w l)" for w :: u32
proof -
  have "(0xFFFFFFFF :: u32) = -1" by simp
  then show ?thesis by (auto simp: bit_eq_iff)
qed

text \<open>The least free frame, when there is one among the words the bitmap has and the scan covers.\<close>

lemma first_frame_loop_spec:
  assumes "i + n < 2 ^ 27" and "\<forall>f < 32 * i. f \<in> used s"
  shows "case first_frame_loop s (of_nat i) n of
      None \<Rightarrow> length (g_frames s) < i + n \<and> (\<forall>f < 32 * length (g_frames s). f \<in> used s)
    | Some x \<Rightarrow> x = -1 \<and> (\<forall>f < 32 * (i + n). f \<in> used s) \<or>
        (\<exists>f < 32 * (i + n). x = of_nat f \<and> f div 32 < length (g_frames s) \<and> f \<notin> used s \<and> (\<forall>g < f. g \<in> used s))"
  using assms
proof (induction n arbitrary: i)
  case (Suc n)
  have i: "unat (of_nat i :: u32) = i" using Suc.prems by (simp add: unat_of_nat_nowrap)
  show ?case
  proof (cases "i < length (g_frames s)")
    case False
    then have "first_frame_loop s (of_nat i) (Suc n) = None" by (simp add: load_word_def i)
    moreover have "\<forall>f < 32 * length (g_frames s). f \<in> used s" using Suc.prems(2) False by auto
    ultimately show ?thesis using False by simp
  next
    case True
    define w where "w = g_frames s ! i"
    have ld: "load_word (of_nat i) s = Some w" using True by (simp add: load_word_def i w_def)
    define r where "r = (if w \<noteq> 0xFFFFFFFF then first_bit w 0 32 else None)"
    have r: "case r of None \<Rightarrow> (\<forall>l < 32. bit w l) | Some l \<Rightarrow> l < 32 \<and> \<not> bit w l \<and> (\<forall>j < l. bit w j)"
      using first_bit_spec [of 0 32 w] full_word [of w] by (auto simp: r_def split: option.splits)
    have u: "f \<in> used s \<longleftrightarrow> bit w (f - 32 * i)" if "32 * i \<le> f" "f < 32 * i + 32" for f
    proof -
      define l where "l = f - 32 * i"
      have "f = 32 * i + l" "l < 32" using that by (simp_all add: l_def)
      then have "f div 32 = i" "f mod 32 = l" by simp_all
      then show ?thesis using True by (simp add: used_def w_def l_def)
    qed
    show ?thesis
    proof (cases r)
      case None
      have "\<forall>f < 32 * Suc i. f \<in> used s"
      proof (intro allI impI)
        fix f assume "f < 32 * Suc i"
        with None r u [of f] Suc.prems(2) show "f \<in> used s" by (cases "f < 32 * i") simp_all
      qed
      moreover have "first_frame_loop s (of_nat i) (Suc n) = first_frame_loop s (of_nat (Suc i)) n"
        using None ld by (simp add: r_def [symmetric] add.commute)
      moreover have "i + Suc n = Suc i + n" by simp
      ultimately show ?thesis using Suc.IH [of "Suc i"] Suc.prems(1) by (simp only:)
    next
      case (Some l)
      define f where "f = 32 * i + l"
      have "f \<notin> used s" "f div 32 < length (g_frames s)" "f < 32 * (i + Suc n)"
        using Some r u [of f] True by (simp_all add: f_def)
      moreover have "\<forall>g < f. g \<in> used s"
      proof (intro allI impI)
        fix g assume "g < f"
        with Some r u [of g] Suc.prems(2) show "g \<in> used s" by (cases "g < 32 * i") (simp_all add: f_def)
      qed
      moreover have "first_frame_loop s (of_nat i) (Suc n) = Some (of_nat f)"
        using Some ld by (simp add: r_def [symmetric] f_def)
      ultimately show ?thesis by (simp only: option.case) blast
    qed
  qed
qed simp

lemma first_frame_spec:
  "case first_frame s of
     None \<Rightarrow> length (g_frames s) < unat (g_nframes s) div 32 \<and> (\<forall>f < 32 * length (g_frames s). f \<in> used s)
   | Some x \<Rightarrow> x = -1 \<and> (\<forall>f < 32 * (unat (g_nframes s) div 32). f \<in> used s) \<or>
       (\<exists>f < unat (g_nframes s). x = of_nat f \<and> f div 32 < length (g_frames s) \<and> f \<notin> used s \<and> (\<forall>g < f. g \<in> used s))"
proof -
  define n where "n = unat (g_nframes s) div 32"
  have n: "n < 2 ^ 27" "32 * n \<le> unat (g_nframes s)" using unat_u32_less [of "g_nframes s"] by (simp_all add: n_def)
  have "first_frame s = first_frame_loop s (of_nat 0) n"
    by (simp add: first_frame_def n_def INDEX_FROM_BIT_def unat_div)
  moreover have "f < unat (g_nframes s)" if "f < 32 * n" for f using that n(2) by linarith
  ultimately show ?thesis using first_frame_loop_spec [of 0 n s] n(1)
    by (auto simp: n_def [symmetric] split: option.splits)
qed

text \<open>The free frames that the allocated part of the bitmap records.\<close>

definition free_frames :: "vm \<Rightarrow> nat set" where
  "free_frames s = {f. f < 32 * (unat (g_nframes s) div 32) \<and> f div 32 < length (g_frames s) \<and> f \<notin> used s}"

lemma first_frame_free:
  assumes "unat (g_nframes s) \<le> 2 ^ 20" and "free_frames s \<noteq> {}"
  shows "\<exists>f. first_frame s = Some (of_nat f) \<and> f < 2 ^ 20 \<and> f div 32 < length (g_frames s) \<and> f \<notin> used s \<and> (\<forall>g < f. g \<in> used s)"
proof -
  from assms(2) obtain f0 where f0: "f0 < 32 * (unat (g_nframes s) div 32)" "f0 div 32 < length (g_frames s)" "f0 \<notin> used s"
    by (auto simp: free_frames_def)
  have "first_frame s \<noteq> None" using first_frame_spec [of s] f0 by (auto split: option.splits)
  then obtain x where x: "first_frame s = Some x" by blast
  with first_frame_spec [of s] f0(1,3) obtain f where
    "f < unat (g_nframes s)" "x = of_nat f" "f div 32 < length (g_frames s)" "f \<notin> used s" "\<forall>g < f. g \<in> used s" by auto
  moreover then have "f < 2 ^ 20" using assms(1) by linarith
  ultimately show ?thesis using x by blast
qed

subsection \<open>Allocation of a frame\<close>

lemma unat_frame_addr: "f < 2 ^ 20 \<Longrightarrow> unat (of_nat f * 0x1000 :: u32) = f * 4096"
  using unat_of_nat_nowrap [of "f * 4096", where ?'a = 32] by simp

lemma unat_frame: "f < 2 ^ 20 \<Longrightarrow> unat (ucast (of_nat f :: u32) :: frame) = f"
proof -
  assume "f < 2 ^ 20"
  moreover from this have "unat (of_nat f :: u32) = f" by (simp add: unat_of_nat_nowrap)
  ultimately show ?thesis by (simp add: unsigned_ucast_eq take_bit_nat_eq_self)
qed

lemma of_nat_ne_m1: "f < 2 ^ 20 \<Longrightarrow> (of_nat f :: u32) \<noteq> -1"
proof
  assume f: "f < 2 ^ 20" and "(of_nat f :: u32) = -1"
  then have "unat (of_nat f :: u32) = unat (-1 :: u32)" by simp
  with f show False by (simp add: unat_of_nat_nowrap unsigned_minus_1_eq_mask mask_eq_exp_minus_1)
qed

lemma load_store_page:
  assumes "load_page q s = Some y"
  shows "\<exists>tabs. store_page q x s = Some (s\<lparr>pg_tables := tabs\<rparr>) \<and>
    (\<forall>r. load_page r (s\<lparr>pg_tables := tabs\<rparr>) = (if r = q then Some x else load_page r s))"
proof -
  from assms obtain t where t: "fst q \<noteq> 0" "pg_tables s (fst q) = Some t" "y = t (snd q)"
    by (auto simp: load_page_def split: if_splits)
  define tabs where "tabs = (pg_tables s)(fst q \<mapsto> t(snd q := x))"
  have "load_page r (s\<lparr>pg_tables := tabs\<rparr>) = (if r = q then Some x else load_page r s)" for r
    using t by (cases r; cases q) (auto simp: load_page_def tabs_def)
  with t show ?thesis by (auto simp: store_page_def tabs_def)
qed

lemma load_page_frames [simp]:
  "load_page r (s\<lparr>g_frames := fs\<rparr>) = load_page r s" "load_page r (s\<lparr>vm_errno := e\<rparr>) = load_page r s"
  "load_page r (s\<lparr>vm_phys := m\<rparr>) = load_page r s" "load_page r (s\<lparr>vm_k := k\<rparr>) = load_page r s"
  by (simp_all add: load_page_def)

lemma used_simps [simp]:
  "used (s\<lparr>pg_tables := tb\<rparr>) = used s" "used (s\<lparr>pg_dirs := pd\<rparr>) = used s" "used (s\<lparr>vm_errno := e\<rparr>) = used s"
  "used (s\<lparr>vm_phys := m\<rparr>) = used s" "used (s\<lparr>vm_k := k\<rparr>) = used s"
  by (simp_all add: used_def)

lemma alloc_frame_success:
  assumes "load_page q s = Some p" and "p_frame p = 0" and "first_frame s = Some (of_nat f)"
    and "f < 2 ^ 20" and "f div 32 < length (g_frames s)"
  shows "\<exists>fs tabs. alloc_frame q k w s = Some (0, s\<lparr>g_frames := fs, pg_tables := tabs\<rparr>) \<and> length fs = length (g_frames s) \<and>
    used (s\<lparr>g_frames := fs, pg_tables := tabs\<rparr>) = insert f (used s) \<and>
    (\<forall>r. load_page r (s\<lparr>g_frames := fs, pg_tables := tabs\<rparr>) =
      (if r = q then Some (fill_page k w (of_nat f) p) else load_page r s))"
proof -
  have f: "unat (of_nat f * 0x1000 :: u32) div 4096 = f" using unat_frame_addr [OF assms(4)] by simp
  with set_frame_ok [of "of_nat f * 0x1000" s] assms(5) obtain fs where
    fs: "set_frame (of_nat f * 0x1000) s = Some (s\<lparr>g_frames := fs\<rparr>)" "length fs = length (g_frames s)"
      "used (s\<lparr>g_frames := fs\<rparr>) = insert f (used s)" by auto
  have "load_page q (s\<lparr>g_frames := fs\<rparr>) = Some p" using assms(1) by simp
  from load_store_page [OF this, of "fill_page k w (of_nat f) p"] obtain tabs where
    "store_page q (fill_page k w (of_nat f) p) (s\<lparr>g_frames := fs\<rparr>) = Some (s\<lparr>g_frames := fs, pg_tables := tabs\<rparr>)"
    "\<And>r. load_page r (s\<lparr>g_frames := fs, pg_tables := tabs\<rparr>) = (if r = q then Some (fill_page k w (of_nat f) p) else load_page r s)"
    by auto
  with fs assms(1-3) of_nat_ne_m1 [OF assms(4)] show ?thesis
    by (intro exI [of _ fs] exI [of _ tabs]) (simp add: alloc_frame_def)
qed

lemma alloc_frame_cases:
  assumes "alloc_frame q k w s = Some (r, s')" and "unat (g_nframes s) \<le> 2 ^ 20"
  obtains (taken) p where "r = -1" "s' = s" "load_page q s = Some p" "p_frame p \<noteq> 0"
  | (full) "r = -2" "s' = s\<lparr>vm_errno := ENOMEM\<rparr>" "\<forall>f < 32 * (unat (g_nframes s) div 32). f \<in> used s"
  | (fresh) f p fs tabs where "r = 0" "s' = s\<lparr>g_frames := fs, pg_tables := tabs\<rparr>" "load_page q s = Some p" "p_frame p = 0"
      "f \<notin> used s" "f < 2 ^ 20" "\<forall>g < f. g \<in> used s" "used s' = insert f (used s)"
      "\<And>a. load_page a s' = (if a = q then Some (fill_page k w (of_nat f) p) else load_page a s)"
proof -
  from assms(1) obtain p where p: "load_page q s = Some p" by (auto simp: alloc_frame_def elim: bind_SomeE)
  show thesis
  proof (cases "p_frame p = 0")
    case False
    with p assms(1) taken show ?thesis by (simp add: alloc_frame_def)
  next
    case True
    with p assms(1) obtain x where x: "first_frame s = Some x" by (auto simp: alloc_frame_def elim: bind_SomeE)
    from first_frame_spec [of s] x consider "x = -1" "\<forall>f < 32 * (unat (g_nframes s) div 32). f \<in> used s"
      | f where "f < unat (g_nframes s)" "x = of_nat f" "f div 32 < length (g_frames s)" "f \<notin> used s" "\<forall>g < f. g \<in> used s"
      by auto
    then show ?thesis
    proof cases
      case 1
      with True p x assms(1) full show ?thesis by (simp add: alloc_frame_def)
    next
      case 2
      then have "f < 2 ^ 20" using assms(2) by linarith
      from alloc_frame_success [OF p True _ this 2(3), of k w] x 2(2) assms(1) obtain fs tabs where
        "r = 0" "s' = s\<lparr>g_frames := fs, pg_tables := tabs\<rparr>" "used s' = insert f (used s)"
        "\<forall>a. load_page a s' = (if a = q then Some (fill_page k w (of_nat f) p) else load_page a s)" by auto
      with fresh [where f = f and p = p] p True 2 \<open>f < 2 ^ 20\<close> show ?thesis by blast
    qed
  qed
qed

text \<open>C15. \<^verbatim>\<open>alloc_frame\<close> gives an unmapped page the lowest free frame, marks that frame and no other, sets the page's flags, and
  changes no other page; a page that has a frame keeps it.\<close>

theorem alloc_frame_correct:
  assumes "load_page q s = Some p" and "unat (g_nframes s) \<le> 2 ^ 20"
    and "f < 32 * (unat (g_nframes s) div 32)" and "f div 32 < length (g_frames s)" and "f \<notin> used s"
  shows "if p_frame p \<noteq> 0 then alloc_frame q k w s = Some (-1, s)
    else \<exists>g s'. alloc_frame q k w s = Some (0, s') \<and> g \<le> f \<and> g \<notin> used s \<and> (\<forall>h < g. h \<in> used s) \<and>
      used s' = insert g (used s) \<and>
      (\<forall>a. load_page a s' = (if a = q then Some (fill_page k w (of_nat g) p) else load_page a s)) \<and>
      unat (p_frame (fill_page k w (of_nat g) p)) = g"
proof (cases "p_frame p = 0")
  case True
  have "first_frame s \<noteq> None" using first_frame_spec [of s] assms(3-5) by (auto split: option.splits)
  then obtain x where x: "first_frame s = Some x" by blast
  with first_frame_spec [of s] assms(3,5) obtain g where g: "g < unat (g_nframes s)" "x = of_nat g"
    "g div 32 < length (g_frames s)" "g \<notin> used s" "\<forall>h < g. h \<in> used s" by auto
  then have "g < 2 ^ 20" using assms(2) by linarith
  moreover have "g \<le> f" using g(5) assms(5) not_less by blast
  moreover have "unat (p_frame (fill_page k w (of_nat g) p)) = g"
    using unat_frame [OF \<open>g < 2 ^ 20\<close>] by (simp add: fill_page_def)
  moreover from alloc_frame_success [OF assms(1) True, of g k w] g x \<open>g < 2 ^ 20\<close> obtain s' where
    "alloc_frame q k w s = Some (0, s')" "used s' = insert g (used s)"
    "\<forall>a. load_page a s' = (if a = q then Some (fill_page k w (of_nat g) p) else load_page a s)" by blast
  ultimately show ?thesis using g True by (simp only: if_False simp_thms) blast
next
  case False
  with assms(1) show ?thesis by (simp add: alloc_frame_def)
qed

subsection \<open>No frame belongs to two pages\<close>

definition mapped :: "vm \<Rightarrow> (pgref \<times> frame) set" where
  "mapped s = {(q, f). \<exists>p. load_page q s = Some p \<and> p_frame p = f \<and> f \<noteq> 0}"

definition isolated :: "vm \<Rightarrow> bool" where
  "isolated s \<longleftrightarrow> unat (g_nframes s) \<le> 2 ^ 20 \<and> (\<forall>q f. (q, f) \<in> mapped s \<longrightarrow> unat f \<in> used s) \<and>
     (\<forall>q r f. (q, f) \<in> mapped s \<and> (r, f) \<in> mapped s \<longrightarrow> q = r)"

lemma isolatedD:
  assumes "isolated s"
  shows "(q, f) \<in> mapped s \<Longrightarrow> unat f \<in> used s" "(q, f) \<in> mapped s \<Longrightarrow> (r, f) \<in> mapped s \<Longrightarrow> q = r"
    "unat (g_nframes s) \<le> 2 ^ 20"
  using assms unfolding isolated_def by blast+

lemma isolated_mono:
  assumes "isolated s" and "mapped s' \<subseteq> mapped s" and "used s \<subseteq> used s'" and "g_nframes s' = g_nframes s"
  shows "isolated s'"
  using assms unfolding isolated_def by (simp add: subset_iff) blast

lemma mapped_cong: "(\<And>q. load_page q s' = load_page q s) \<Longrightarrow> mapped s' = mapped s"
  by (simp add: mapped_def)

lemma alloc_frame_isolated:
  assumes "alloc_frame q k w s = Some (r, s')" and "isolated s"
  shows "isolated s'" "mapped s \<subseteq> mapped s'" "g_nframes s' = g_nframes s" "pg_dirs s' = pg_dirs s"
    "g_current_directory s' = g_current_directory s" "g_kernel_directory s' = g_kernel_directory s"
proof -
  have n: "unat (g_nframes s) \<le> 2 ^ 20" using assms(2) by (simp add: isolated_def)
  from assms(1) n have "isolated s' \<and> mapped s \<subseteq> mapped s' \<and> g_nframes s' = g_nframes s \<and> pg_dirs s' = pg_dirs s \<and>
    g_current_directory s' = g_current_directory s \<and> g_kernel_directory s' = g_kernel_directory s"
  proof (cases rule: alloc_frame_cases)
    case taken
    then show ?thesis using assms(2) by simp
  next
    case full
    then have "mapped s' = mapped s" by (simp add: mapped_def)
    with full isolated_mono [OF assms(2), of s'] show ?thesis by simp
  next
    case (fresh f p fs tabs)
    let ?x = "ucast (of_nat f :: u32) :: frame"
    have l: "load_page q s' = Some (fill_page k w (of_nat f) p)" "a \<noteq> q \<Longrightarrow> load_page a s' = load_page a s" for a
      using fresh(9) by simp_all
    have m: "mapped s \<subseteq> mapped s'"
    proof
      fix y assume "y \<in> mapped s"
      then obtain a g p' where y: "y = (a, g)" "load_page a s = Some p'" "p_frame p' = g" "g \<noteq> 0" by (auto simp: mapped_def)
      then have "a \<noteq> q" using fresh(3,4) by auto
      with y l(2) [of a] show "y \<in> mapped s'" by (simp add: mapped_def)
    qed
    have m2: "a = q \<and> g = ?x \<or> (a, g) \<in> mapped s" if "(a, g) \<in> mapped s'" for a g
      using that l(1) l(2) [of a] by (cases "a = q") (auto simp: mapped_def fill_page_def)
    have x: "unat ?x = f" using fresh(6) by (rule unat_frame)
    have nx: "(a, ?x) \<notin> mapped s" for a
    proof
      assume "(a, ?x) \<in> mapped s"
      with assms(2) have "unat ?x \<in> used s" by (rule isolatedD)
      with x fresh(5) show False by simp
    qed
    have "a = b" if "(a, g) \<in> mapped s'" "(b, g) \<in> mapped s'" for a b g
      using m2 [OF that(1)] m2 [OF that(2)] nx isolatedD(2) [OF assms(2)] by metis
    moreover have "unat g \<in> used s'" if "(a, g) \<in> mapped s'" for a g
      using m2 [OF that] isolatedD(1) [OF assms(2), of a g] x fresh(8) by auto
    ultimately have "isolated s'" using n fresh(2) unfolding isolated_def by (auto simp del: split_paired_All)
    with m fresh(2) show ?thesis by simp
  qed
  then show "isolated s'" "mapped s \<subseteq> mapped s'" "g_nframes s' = g_nframes s" "pg_dirs s' = pg_dirs s"
    "g_current_directory s' = g_current_directory s" "g_kernel_directory s' = g_kernel_directory s" by simp_all
qed

lemma enter_table_isolated: "enter_table ti fl dir t phys s = Some s' \<Longrightarrow> isolated s \<Longrightarrow> isolated s'"
  by (rule isolated_mono [of s])
    (auto simp: enter_table_def mapped_def load_page_def page_zero_def split: if_splits elim!: bind_SomeE)

text \<open>Quantifiers over \<^typ>\<open>pgref\<close> stay as they are.\<close>

declare split_paired_All [simp del] split_paired_Ex [simp del]

lemma bind_pairE:
  assumes "Option.bind x (\<lambda>(a, b). f a b) = Some y"
  obtains a b where "x = Some (a, b)" and "f a b = Some y"
  using assms by (cases x) auto

lemma bind_tripleE:
  assumes "Option.bind x (\<lambda>(a, b, c). f a b c) = Some y"
  obtains a b c where "x = Some (a, b, c)" and "f a b c = Some y"
  using assms by (cases x) auto

lemmas bindE = bind_tripleE bind_pairE bind_SomeE

lemma isolated_kmem: "on_kmem f s = Some (r, s') \<Longrightarrow> isolated s \<Longrightarrow> isolated s'"
  by (rule isolated_mono [of s]) (auto simp: on_kmem_def mapped_def elim!: bind_SomeE)

lemma isolated_vm_k: "isolated s \<Longrightarrow> isolated (s\<lparr>vm_k := k\<rparr>)"
  by (rule isolated_mono [of s]) (auto simp: mapped_def)

lemmas isolated_intros = isolated_kmem isolated_vm_k enter_table_isolated alloc_frame_isolated(1)

lemma kmalloc_base_phys_isolated:
  assumes "kmalloc_base_phys sz align s = Some (a, ph, s')" and "isolated s"
  shows "isolated s'"
proof -
  have "isolated s \<longrightarrow> isolated (snd (snd (a, ph, s')))"
  proof (rule kmalloc_base_phys.raw_induct [where P = "\<lambda>_ _ s y. isolated s \<longrightarrow> isolated (snd (snd y))", OF _ assms(1)], goal_cases)
    case (1 f sz align s y)
    have IH: "isolated s''" if "f sz align s = Some (t, ph, s'')" "isolated s" for sz align s t ph s''
      using 1(1) [OF that(1)] that(2) by simp
    show ?case
      using 1(2)
      by (auto simp: Let_def split: if_splits prod.splits elim!: bind_SomeE intro: isolated_vm_k)
        (blast intro: isolated_intros IH)+
  qed
  with assms(2) show ?thesis by simp
qed

lemma get_page_isolated:
  assumes "get_page va mk dir s = Some (q, s')" and "isolated s"
  shows "isolated s'"
  using assms
  by (auto simp: get_page_def Let_def alloc_page_table_def split: if_splits elim!: bind_SomeE)
    (blast intro: kmalloc_base_phys_isolated enter_table_isolated)+

lemma get_page1_isolated:
  assumes "get_page1 va dir s = Some (q, s')" and "isolated s"
  shows "isolated s'"
  using assms by (auto simp: get_page1_def elim!: bind_SomeE) (blast intro: get_page_isolated)

text \<open>Storing a page with the frame it had, or with none.\<close>

lemma store_page_isolated:
  assumes "store_page q x s = Some s'" and "load_page q s = Some y" and "p_frame x = 0 \<or> p_frame x = p_frame y" and "isolated s"
  shows "isolated s'"
proof -
  from load_store_page [OF assms(2), of x] assms(1) obtain tabs where
    s': "s' = s\<lparr>pg_tables := tabs\<rparr>" "\<forall>r. load_page r s' = (if r = q then Some x else load_page r s)" by auto
  have "mapped s' \<subseteq> mapped s"
  proof
    fix z assume "z \<in> mapped s'"
    then obtain r f p where z: "z = (r, f)" "load_page r s' = Some p" "p_frame p = f" "f \<noteq> 0" by (auto simp: mapped_def)
    then show "z \<in> mapped s" using s'(2) assms(2,3) by (cases "r = q") (auto simp: mapped_def)
  qed
  with s'(1) show ?thesis by (intro isolated_mono [OF assms(4)]) simp_all
qed

lemma set_frame_flags_isolated:
  assumes "set_frame_flags q k w s = Some s'" and "isolated s"
  shows "isolated s'"
proof -
  from assms(1) obtain p where p: "load_page q s = Some p" "store_page q (p\<lparr>p_rw := w, p_user := \<not> k\<rparr>) s = Some s'"
    unfolding set_frame_flags_def by (rule bind_SomeE)
  show ?thesis by (rule store_page_isolated [OF p(2,1) _ assms(2)]) simp
qed

lemma flagforce_isolated:
  assumes "flagforce_alloc_frame q k w s = Some (r, s')" and "isolated s"
  shows "isolated s'"
proof -
  from assms(1) obtain r1 s1 where a: "alloc_frame q k w s = Some (r1, s1)" and
    f: "(if r1 = -1 then do { s \<leftarrow> set_frame_flags q k w s1; Some (0, s) }
      else if r1 = -2 then Some (-1, s1) else Some (0, s1)) = Some (r, s')"
    unfolding flagforce_alloc_frame_def by (elim bindE) (rule that)
  from a assms(2) have i: "isolated s1" by (rule alloc_frame_isolated)
  show ?thesis
  proof (cases "r1 = -1")
    case True
    with f obtain s2 where "set_frame_flags q k w s1 = Some s2" "s' = s2" by (cases "set_frame_flags q k w s1") simp_all
    with i show ?thesis by (simp add: set_frame_flags_isolated)
  next
    case False
    with f i show ?thesis by (simp split: if_splits)
  qed
qed

lemma map_memory_block_isolated:
  assumes "map_memory_block a e k w dir s = Some (r, s')" and "isolated s"
  shows "isolated s'"
proof -
  have "isolated s \<longrightarrow> isolated (snd (r, s'))"
  proof (rule map_memory_block.raw_induct [where P = "\<lambda>_ _ _ _ _ s y. isolated s \<longrightarrow> isolated (snd y)", OF _ assms(1)], goal_cases)
    case (1 f a e k w dir s y)
    have IH: "isolated (snd y)" if "f a e k w dir s = Some y" "isolated s" for a e k w dir s y
      using 1(1) [OF that(1)] that(2) by simp
    show ?case using 1(2)
      by (auto split: if_splits elim!: bind_SomeE) (blast intro: get_page1_isolated flagforce_isolated IH)
  qed
  with assms(2) show ?thesis by simp
qed

lemma alloc_virt_isolated:
  assumes "alloc_virt a sz um s = Some s'" and "isolated s"
  shows "isolated s'"
proof -
  have "isolated s \<longrightarrow> isolated s'"
  proof (rule alloc_virt_loop.raw_induct [where P = "\<lambda>_ _ _ _ s y. isolated s \<longrightarrow> isolated y",
      OF _ assms(1) [unfolded alloc_virt_def]], goal_cases)
    case (1 f a sz um i s y)
    have IH: "isolated y" if "f a sz um i s = Some y" "isolated s" for a sz um i s y
      using 1(1) [OF that(1)] that(2) by simp
    show ?case using 1(2)
      by (auto split: if_splits elim!: bind_SomeE) (blast intro: get_page1_isolated alloc_frame_isolated(1) IH)
  qed
  with assms(2) show ?thesis by simp
qed

text \<open>The copy of a page remaps the buffer page for a moment and restores it.\<close>

lemma copy_page_isolated:
  assumes "copy_page a nd s = Some s'" and "isolated s"
  shows "isolated s'"
proof -
  from assms(1) obtain cp bp np s1 s2 s3 b c r s4 n b4 s5 s6 b6 where
    g: "get_page1 a (g_current_directory s) s = Some (cp, s1)"
      "get_page1 PAGE_BUFFER_LOCATION (g_current_directory s) s1 = Some (bp, s2)"
      "get_page1 a nd s2 = Some (np, s3)" and
    b: "load_page bp s3 = Some b" and c: "load_page cp s3 = Some c" and
    s4: "alloc_frame np (\<not> p_user c) (p_rw c) s3 = Some (r, s4)" and n: "load_page np s4 = Some n" and
    b4: "load_page bp s4 = Some b4" "store_page bp (b4\<lparr>p_frame := p_frame n\<rparr>) s4 = Some s5" and
    s6: "copy_frame bp cp s5 = Some s6" and
    b6: "load_page bp s6 = Some b6" "store_page bp (b6\<lparr>p_frame := p_frame b\<rparr>) s6 = Some s'"
    unfolding copy_page_def Let_def by (elim bindE) (rule that)
  have i: "isolated s3" using g assms(2) by (blast intro: get_page1_isolated)
  have i4: "isolated s4" "mapped s3 \<subseteq> mapped s4" using alloc_frame_isolated [OF s4 i] by simp_all
  from load_store_page [OF b4(1), of "b4\<lparr>p_frame := p_frame n\<rparr>"] b4(2) obtain tabs where
    s5: "s5 = s4\<lparr>pg_tables := tabs\<rparr>"
      "\<forall>q. load_page q s5 = (if q = bp then Some (b4\<lparr>p_frame := p_frame n\<rparr>) else load_page q s4)" by auto
  from s6 obtain m where m: "s6 = s5\<lparr>vm_phys := m\<rparr>" by (auto simp: copy_frame_def split: if_splits elim!: bind_SomeE)
  from load_store_page [OF b6(1), of "b6\<lparr>p_frame := p_frame b\<rparr>"] b6(2) obtain tabs' where
    s': "s' = s6\<lparr>pg_tables := tabs'\<rparr>" "\<forall>q. load_page q s' = (if q = bp then Some (b6\<lparr>p_frame := p_frame b\<rparr>) else load_page q s6)" by auto
  have "mapped s' \<subseteq> mapped s4"
  proof
    fix z assume "z \<in> mapped s'"
    then obtain q f p where z: "z = (q, f)" "load_page q s' = Some p" "p_frame p = f" "f \<noteq> 0" by (auto simp: mapped_def)
    show "z \<in> mapped s4"
    proof (cases "q = bp")
      case True
      with z(2) s'(2) have "p = b6\<lparr>p_frame := p_frame b\<rparr>" by auto
      with z True b have "(q, f) \<in> mapped s3" by (auto simp: mapped_def)
      with z(1) i4(2) show ?thesis by blast
    next
      case False
      with z s'(2) s5(2) m show ?thesis by (simp add: mapped_def)
    qed
  qed
  then show ?thesis by (rule isolated_mono [OF i4(1)]) (simp_all add: s' m s5(1))
qed

lemma copy_pages_isolated: "copy_pages ti pi n nd s = Some s' \<Longrightarrow> isolated s \<Longrightarrow> isolated s'"
proof (induction n arbitrary: pi s)
  case (Suc n)
  from Suc.prems(1) obtain s1 where
    "s1 = s \<or> copy_page (of_nat (ti * 1024 + pi) * 0x1000) nd s = Some s1" "copy_pages ti (pi + 1) n nd s1 = Some s'"
    by (simp split: if_splits add: bind_eq_Some_conv) blast+
  with Suc.IH copy_page_isolated Suc.prems(2) show ?case by blast
qed simp

lemma isolated_pg_dirs: "isolated s \<Longrightarrow> isolated (s\<lparr>pg_dirs := d\<rparr>)"
  by (rule isolated_mono [of s]) (auto simp: mapped_def load_page_def)

lemma copy_table_isolated:
  assumes "copy_table ti nd s = Some s'" and "isolated s"
  shows "isolated s'"
proof -
  from assms(1) obtain cur ker where d: "load_dir (g_current_directory s) s = Some cur" "load_dir (g_kernel_directory s) s = Some ker"
    by (auto simp: copy_table_def elim!: bind_SomeE)
  consider "tablesPhysical cur ti = 0" | "tablesPhysical cur ti \<noteq> 0" "tables cur ti = tables ker ti"
    | "tablesPhysical cur ti \<noteq> 0" "tables cur ti \<noteq> tables ker ti" by blast
  then show ?thesis
  proof cases
    case 1
    with assms d show ?thesis by (simp add: copy_table_def)
  next
    case 2
    with assms d show ?thesis by (auto simp: copy_table_def elim!: bind_SomeE intro: isolated_pg_dirs)
  next
    case 3
    from 3 assms(1) d obtain t phys s1 cur1 s2 where
      "kmalloc_base_phys SIZEOF_PAGE_TABLE True s = Some (t, phys, s1)" "load_dir (g_current_directory s1) s1 = Some cur1"
      "enter_table ti (tablesPhysical cur1 ti AND 0xF) nd t phys s1 = Some s2" "copy_pages ti 0 1024 nd s2 = Some s'"
      by (simp add: copy_table_def) (elim bindE, rule that)
    with assms(2) show ?thesis by (blast intro: kmalloc_base_phys_isolated enter_table_isolated copy_pages_isolated)
  qed
qed

lemma copy_tables_isolated: "copy_tables ti n nd s = Some s' \<Longrightarrow> isolated s \<Longrightarrow> isolated s'"
  by (induction n arbitrary: ti s) (auto elim!: bind_SomeE dest: copy_table_isolated)

lemma duplicate_isolated:
  assumes "duplicate_current_page_directory s = Some (d, s')" and "isolated s"
  shows "isolated s'"
  using assms by (auto simp: duplicate_current_page_directory_def elim!: bind_SomeE)
    (blast intro: copy_tables_isolated isolated_pg_dirs kmalloc_base_phys_isolated)

text \<open>The operations that hand out memory, as steps of the paging state.\<close>

inductive vm_step :: "vm \<Rightarrow> vm \<Rightarrow> bool" where
  alloc: "alloc_frame q k w s = Some (r, s') \<Longrightarrow> vm_step s s'"
| force: "flagforce_alloc_frame q k w s = Some (r, s') \<Longrightarrow> vm_step s s'"
| page: "get_page va mk dir s = Some (q, s') \<Longrightarrow> vm_step s s'"
| phys: "kmalloc_base_phys sz align s = Some (a, ph, s') \<Longrightarrow> vm_step s s'"
| virt: "alloc_virt a sz um s = Some s' \<Longrightarrow> vm_step s s'"
| block: "map_memory_block a e k w dir s = Some (r, s') \<Longrightarrow> vm_step s s'"
| copy: "copy_page a nd s = Some s' \<Longrightarrow> vm_step s s'"
| dup: "duplicate_current_page_directory s = Some (d, s') \<Longrightarrow> vm_step s s'"

lemma vm_step_isolated: "vm_step s s' \<Longrightarrow> isolated s \<Longrightarrow> isolated s'"
  by (induction rule: vm_step.induct)
    (blast intro: alloc_frame_isolated(1) flagforce_isolated get_page_isolated kmalloc_base_phys_isolated
      alloc_virt_isolated map_memory_block_isolated copy_page_isolated duplicate_isolated)+

text \<open>C3. Memory isolation: through any sequence of frame allocations, page table creations, block mappings, page copies and
  duplications of address spaces, no physical frame is mapped by two pages and every mapped frame is marked in the bitmap.\<close>

theorem frames_isolated:
  assumes "isolated s" and "vm_step\<^sup>*\<^sup>* s s'"
  shows "isolated s'"
  using assms(2,1) by (induction rule: rtranclp_induct) (blast intro: vm_step_isolated)+

subsection \<open>Reading and releasing frames\<close>

text \<open>\<^verbatim>\<open>get_frame\<close>, which asks for the state of one frame, releases the other 31 frames of its bitmap word.\<close>

theorem get_frame_clobbers:
  assumes "unat a div 4096 = f" and "f div 32 < length (g_frames s)"
  shows "\<exists>r s'. get_frame a s = Some (r, s') \<and> (r = 0 \<longleftrightarrow> f \<notin> used s) \<and>
    used s' = used s - {g. g div 32 = f div 32 \<and> g \<noteq> f}"
proof -
  let ?w = "g_frames s ! (f div 32) AND push_bit (f mod 32) 1"
  have "get_frame a s = Some (?w, s\<lparr>g_frames := (g_frames s)[f div 32 := ?w]\<rparr>)"
    using assms by (simp add: get_frame_def Let_def on_word_def load_word_def frame_index)
  moreover have "?w = 0 \<longleftrightarrow> f \<notin> used s"
    using assms(2) by (simp add: used_def and_exp_eq_0_iff_not_bit)
  moreover have "g \<in> used (s\<lparr>g_frames := (g_frames s)[f div 32 := ?w]\<rparr>) \<longleftrightarrow> g \<in> used s - {g. g div 32 = f div 32 \<and> g \<noteq> f}" for g
    using used_update [OF assms(2), of g ?w] div_mod_32_eq [of g f] assms(2)
    by (auto simp: bit_simps used_def)
  ultimately show ?thesis by blast
qed

text \<open>C37. No frame of a mapped page is ever released by the page operations: \<^verbatim>\<open>free_frame\<close> leaves a mapped page as it is, and
  \<^verbatim>\<open>realloc_frame\<close>, which takes the frame number for an address, leaves the old frame marked after the page has a new one.\<close>

theorem frames_leak:
  assumes "load_page q s = Some p" and "p_frame p \<noteq> 0" and "unat (p_frame p) \<in> used s"
  shows "free_frame q s = Some s \<and> (\<forall>k w r s'. realloc_frame q k w s = Some (r, s') \<longrightarrow> unat (p_frame p) \<in> used s')"
proof (intro conjI allI impI)
  show "free_frame q s = Some s" using assms by (simp add: free_frame_def)
  fix k w r s' assume rl: "realloc_frame q k w s = Some (r, s')"
  define f where "f = unat (p_frame p)"
  have f: "0 < f" "f < 2 ^ 20"
    using assms(2) unsigned_less [of "p_frame p"] by (simp_all add: f_def unat_gt_0)
  have u: "unat (ucast (p_frame p) :: u32) = f"
    using f by (simp add: f_def unsigned_ucast_eq take_bit_nat_eq_self)
  obtain s1 where s1: "clear_frame (ucast (p_frame p)) s = Some s1" using rl assms(1,2)
    by (cases "clear_frame (ucast (p_frame p)) s") (simp_all add: realloc_frame_def)
  then have "f div 4096 div 32 < length (g_frames s)"
    using u by (auto simp: clear_frame_def Let_def on_word_def load_word_def frame_index split: if_splits)
  with clear_frame_ok [of "ucast (p_frame p)" s] u s1 have "used s1 = used s - {f div 4096}" by auto
  moreover have "f div 4096 \<noteq> f" using f by (simp add: div_less_dividend order_less_imp_not_eq)
  ultimately have 1: "f \<in> used s1" using assms(3) by (auto simp: f_def)
  from rl s1 assms(1,2) obtain x where x: "first_frame s1 = Some x" by (cases "first_frame s1") (simp_all add: realloc_frame_def)
  show "unat (p_frame p) \<in> used s'"
  proof (cases "x = -1")
    case True
    with rl s1 x assms(1,2) 1 show ?thesis by (auto simp: realloc_frame_def f_def)
  next
    case False
    with rl s1 x assms(1,2) obtain s2 where s2: "set_frame (x * 0x1000) s1 = Some s2"
      "store_page q (fill_page k w x p) s2 = Some s'"
      by (auto simp: realloc_frame_def elim!: bindE)
    then have "unat (x * 0x1000) div 4096 div 32 < length (g_frames s1)" using set_frame_None by fastforce
    with set_frame_ok s2(1) have "used s1 \<subseteq> used s2" by fastforce
    moreover have "used s' = used s2" using s2(2) by (auto simp: store_page_def split: if_splits)
    ultimately show ?thesis using 1 by (auto simp: f_def)
  qed
qed

text \<open>Destroying an address space releases the wrong frames: for every mapped page of a table, the frame whose number is that
  of the virtual page, not the one the page maps.\<close>

theorem clear_pages_wrong_frames:
  assumes "t \<noteq> 0" and "pg_tables s t = Some tab" and "ti < 1024" and "pi + n \<le> 1024" and "32 * length (g_frames s) = 2 ^ 20"
  shows "\<exists>fs. clear_pages ti t pi n s = Some (s\<lparr>g_frames := fs\<rparr>) \<and> length fs = length (g_frames s) \<and>
    used (s\<lparr>g_frames := fs\<rparr>) = used s - (+) (ti * 1024) ` {i. pi \<le> i \<and> i < pi + n \<and> p_frame (tab i) \<noteq> 0}"
  using assms(2,4,5)
proof (induction n arbitrary: pi s)
  case 0
  have "s\<lparr>g_frames := g_frames s\<rparr> = s" by simp
  then show ?case by (intro exI [of _ "g_frames s"]) auto
next
  case (Suc n)
  define v where "v = ti * 1024 + pi"
  have v: "v < 2 ^ 20" using assms(3) Suc.prems(2) by (simp add: v_def)
  have a: "unat (of_nat v * 0x1000 :: u32) div 4096 = v" using unat_frame_addr [OF v] by simp
  have ld: "load_page (t, pi) s = Some (tab pi)" using assms(1) Suc.prems(1) by (simp add: load_page_def)
  obtain fs where fs: "(if p_frame (tab pi) \<noteq> 0 then clear_frame (of_nat v * 0x1000) s else Some s) = Some (s\<lparr>g_frames := fs\<rparr>)"
    "length fs = length (g_frames s)"
    "used (s\<lparr>g_frames := fs\<rparr>) = used s - (if p_frame (tab pi) \<noteq> 0 then {v} else {})"
  proof (cases "p_frame (tab pi) = 0")
    case True
    then show ?thesis by (intro that [of "g_frames s"]) simp_all
  next
    case False
    have "v div 32 < length (g_frames s)" using v Suc.prems(3) by simp
    with clear_frame_ok [of "of_nat v * 0x1000" s] a False show ?thesis by (auto intro: that)
  qed
  from Suc.IH [of "s\<lparr>g_frames := fs\<rparr>" "pi + 1"] Suc.prems fs(2) obtain fs' where
    fs': "clear_pages ti t (pi + 1) n (s\<lparr>g_frames := fs\<rparr>) = Some (s\<lparr>g_frames := fs'\<rparr>)" "length fs' = length (g_frames s)"
    "used (s\<lparr>g_frames := fs'\<rparr>) = used (s\<lparr>g_frames := fs\<rparr>) - (+) (ti * 1024) ` {i. pi + 1 \<le> i \<and> i < pi + 1 + n \<and> p_frame (tab i) \<noteq> 0}"
    by auto
  have "clear_pages ti t pi (Suc n) s = Some (s\<lparr>g_frames := fs'\<rparr>)"
    by (simp only: clear_pages.simps ld bind.simps v_def [symmetric] fs(1) fs'(1))
  moreover have "{i. pi \<le> i \<and> i < pi + Suc n \<and> p_frame (tab i) \<noteq> 0} =
      (if p_frame (tab pi) \<noteq> 0 then {pi} else {}) \<union> {i. pi + 1 \<le> i \<and> i < pi + 1 + n \<and> p_frame (tab i) \<noteq> 0}"
  proof (rule set_eqI)
    fix i
    show "i \<in> {i. pi \<le> i \<and> i < pi + Suc n \<and> p_frame (tab i) \<noteq> 0} \<longleftrightarrow>
        i \<in> (if p_frame (tab pi) \<noteq> 0 then {pi} else {}) \<union> {i. pi + 1 \<le> i \<and> i < pi + 1 + n \<and> p_frame (tab i) \<noteq> 0}"
      by (cases "i = pi") auto
  qed
  then have "(+) (ti * 1024) ` {i. pi \<le> i \<and> i < pi + Suc n \<and> p_frame (tab i) \<noteq> 0} =
      (if p_frame (tab pi) \<noteq> 0 then {v} else {}) \<union> (+) (ti * 1024) ` {i. pi + 1 \<le> i \<and> i < pi + 1 + n \<and> p_frame (tab i) \<noteq> 0}"
    by (simp only: image_Un) (simp add: v_def)
  ultimately show ?case using fs(3) fs'(2,3) by (intro exI [of _ fs']) (simp only: simp_thms, blast)
qed

subsection \<open>Copying a page\<close>

lemma get_page1_present:
  assumes "load_dir dir s = Some d" and "tables d (unat (va div 0x1000 div 1024)) \<noteq> 0"
  shows "get_page1 va dir s = Some ((tables d (unat (va div 0x1000 div 1024)), unat (va div 0x1000 mod 1024)), s)"
  using assms by (simp add: get_page1_def get_page_def Let_def)

lemma copy_page_into:
  assumes "load_dir (g_current_directory s) s = Some cur" and "load_dir newdir s = Some new"
    and "tables cur (unat (a div 0x1000 div 1024)) \<noteq> 0" and "tables new (unat (a div 0x1000 div 1024)) \<noteq> 0" and "tables cur 4 \<noteq> 0"
    and cp: "cp = (tables cur (unat (a div 0x1000 div 1024)), unat (a div 0x1000 mod 1024))"
    and np: "np = (tables new (unat (a div 0x1000 div 1024)), unat (a div 0x1000 mod 1024))"
    and bp: "bp = (tables cur 4, 256)"
    and "np \<noteq> cp" and "np \<noteq> bp" and "cp \<noteq> bp"
    and "load_page cp s = Some c" and "p_present c" and "load_page bp s = Some b" and "p_present b"
    and "load_page np s = Some n" and "p_frame n = 0"
    and "first_frame s = Some (of_nat f)" and "f < 2 ^ 20" and "f div 32 < length (g_frames s)"
  shows "\<exists>s'. copy_page a newdir s = Some s' \<and> used s' = insert f (used s) \<and>
    vm_phys s' = (vm_phys s)(of_nat f := vm_phys s (p_frame c)) \<and>
    (\<forall>q. load_page q s' = (if q = np then Some (fill_page (\<not> p_user c) (p_rw c) (of_nat f) n) else load_page q s))"
proof -
  let ?n = "fill_page (\<not> p_user c) (p_rw c) (of_nat f) n"
  have g: "get_page1 a (g_current_directory s) s = Some (cp, s)" "get_page1 a newdir s = Some (np, s)"
    "get_page1 PAGE_BUFFER_LOCATION (g_current_directory s) s = Some (bp, s)"
    using assms(1-5) by (simp_all add: get_page1_present cp np bp)
  from alloc_frame_success [OF assms(16-20), of "\<not> p_user c" "p_rw c"] obtain fs tabs where
    a: "alloc_frame np (\<not> p_user c) (p_rw c) s = Some (0, s\<lparr>g_frames := fs, pg_tables := tabs\<rparr>)"
      "used (s\<lparr>g_frames := fs, pg_tables := tabs\<rparr>) = insert f (used s)"
      "\<forall>q. load_page q (s\<lparr>g_frames := fs, pg_tables := tabs\<rparr>) = (if q = np then Some ?n else load_page q s)" by blast
  define s4 where "s4 = s\<lparr>g_frames := fs, pg_tables := tabs\<rparr>"
  have l4: "load_page np s4 = Some ?n" "load_page bp s4 = Some b" "load_page cp s4 = Some c"
    using a(3) assms(9,10,12,14) by (auto simp: s4_def)
  from load_store_page [OF l4(2), of "b\<lparr>p_frame := p_frame ?n\<rparr>"] obtain tabs5 where
    s5: "store_page bp (b\<lparr>p_frame := p_frame ?n\<rparr>) s4 = Some (s4\<lparr>pg_tables := tabs5\<rparr>)"
      "\<forall>q. load_page q (s4\<lparr>pg_tables := tabs5\<rparr>) = (if q = bp then Some (b\<lparr>p_frame := p_frame ?n\<rparr>) else load_page q s4)" by blast
  define s5 where "s5 = s4\<lparr>pg_tables := tabs5\<rparr>"
  define s6 where "s6 = s5\<lparr>vm_phys := (vm_phys s)(of_nat f := vm_phys s (p_frame c))\<rparr>"
  have l5: "load_page bp s5 = Some (b\<lparr>p_frame := p_frame ?n\<rparr>)" "load_page cp s5 = Some c"
    using s5(2) l4 assms(11) by (auto simp: s5_def)
  have fr: "p_frame ?n = of_nat f" using assms(19) by (simp add: fill_page_def word_unat_eq_iff unat_frame unat_of_nat_nowrap)
  have c6: "copy_frame bp cp s5 = Some s6"
    using l5 assms(13,15) by (simp add: copy_frame_def s6_def fr) (simp add: s5_def s4_def)
  have l6: "load_page q s6 = load_page q s5" for q by (simp add: s6_def)
  from load_store_page [of bp s6, OF l6 [THEN trans, OF l5(1)], of "b\<lparr>p_frame := p_frame b\<rparr>"] obtain tabs7 where
    s7: "store_page bp b s6 = Some (s6\<lparr>pg_tables := tabs7\<rparr>)"
      "\<forall>q. load_page q (s6\<lparr>pg_tables := tabs7\<rparr>) = (if q = bp then Some b else load_page q s6)" by auto
  define s7 where "s7 = s6\<lparr>pg_tables := tabs7\<rparr>"
  have "copy_page a newdir s = Some s7"
    using g a(1) l4 s5(1) c6 l5 s7(1) assms(12,14)
    by (simp add: copy_page_def Let_def s4_def [symmetric] s5_def [symmetric] s7_def [symmetric] l6)
  moreover have "load_page q s7 = (if q = np then Some ?n else load_page q s)" for q
    using s7(2) l6 s5(2) a(3) assms(10,14) by (auto simp: s7_def s5_def s4_def)
  moreover have "used s7 = insert f (used s)" "vm_phys s7 = (vm_phys s)(of_nat f := vm_phys s (p_frame c))"
    using a(2) by (simp_all add: s7_def s6_def s5_def s4_def)
  ultimately show ?thesis by blast
qed

text \<open>C14. A page is copied into a fresh frame, when one is left: with page tables for the address in both directories and for the buffer page,
  three different pages, the copied page and the buffer page present, the new one without a frame, and a free frame in
  the bitmap, \<^verbatim>\<open>copy_page\<close> returns; the page of the new directory then has the flags of the old one and the lowest frame that was free,
  with the contents of the old frame; every other page, the buffer page included, the use of every other frame and its
  contents are as before. (Without a free frame the result of the allocation is ignored and frame 0 is overwritten.)\<close>

theorem copy_page_copies:
  assumes "load_dir (g_current_directory s) s = Some cur" and "load_dir newdir s = Some new"
    and "tables cur (unat (a div 0x1000 div 1024)) \<noteq> 0" and "tables new (unat (a div 0x1000 div 1024)) \<noteq> 0" and "tables cur 4 \<noteq> 0"
    and "cp = (tables cur (unat (a div 0x1000 div 1024)), unat (a div 0x1000 mod 1024))"
    and "np = (tables new (unat (a div 0x1000 div 1024)), unat (a div 0x1000 mod 1024))"
    and "bp = (tables cur 4, 256)"
    and "np \<noteq> cp" and "np \<noteq> bp" and "cp \<noteq> bp"
    and "load_page cp s = Some c" and "p_present c" and "load_page bp s = Some b" and "p_present b"
    and "load_page np s = Some n" and "p_frame n = 0"
    and "unat (g_nframes s) \<le> 2 ^ 20" and "free_frames s \<noteq> {}"
  shows "\<exists>f s'. copy_page a newdir s = Some s' \<and> f \<notin> used s \<and> (\<forall>g < f. g \<in> used s) \<and> used s' = insert f (used s) \<and>
    vm_phys s' = (vm_phys s)(of_nat f := vm_phys s (p_frame c)) \<and>
    (\<forall>q. load_page q s' = (if q = np then Some (fill_page (\<not> p_user c) (p_rw c) (of_nat f) n) else load_page q s))"
proof -
  from first_frame_free [OF assms(18,19)] obtain f where
    f: "first_frame s = Some (of_nat f)" "f < 2 ^ 20" "f div 32 < length (g_frames s)" "f \<notin> used s" "\<forall>g < f. g \<in> used s" by blast
  from copy_page_into [OF assms(1-17) f(1-3)] f(4,5) show ?thesis by blast
qed

text \<open>C25. Translation follows the mapping: after \<^verbatim>\<open>map_frame\<close> of an address's page to a page-aligned physical address other than 0,
  \<^verbatim>\<open>virt_to_phys_from_dir\<close> gives that physical address plus the offset in the page.\<close>

theorem map_frame_translation:
  assumes "load_dir dir s = Some d" and "q = (tables d (unat (va div 0x1000 div 1024)), unat (va div 0x1000 mod 1024))"
    and "load_page q s = Some p" and "unat pa mod 4096 = 0" and "pa \<noteq> 0" and "unat pa div 4096 div 32 < length (g_frames s)"
  shows "\<exists>s'. map_frame q pa True k w s = Some (0, s') \<and> virt_to_phys_from_dir va dir s' = Some (pa + (va AND 0xFFF))"
proof -
  from set_frame_ok [OF assms(6)] obtain fs where fs: "set_frame pa s = Some (s\<lparr>g_frames := fs\<rparr>)" by blast
  have "load_page q (s\<lparr>g_frames := fs\<rparr>) = Some p" using assms(3) by simp
  from load_store_page [OF this, of "fill_page k w (pa div 0x1000) p"] obtain tabs where
    t: "store_page q (fill_page k w (pa div 0x1000) p) (s\<lparr>g_frames := fs\<rparr>) = Some (s\<lparr>g_frames := fs, pg_tables := tabs\<rparr>)"
      "load_page q (s\<lparr>g_frames := fs, pg_tables := tabs\<rparr>) = Some (fill_page k w (pa div 0x1000) p)" by auto
  have al: "(va AND 0xFFFFF000) div 0x1000 = va div 0x1000"
  proof -
    have "unat (va AND 0xFFFFF000) = unat va - unat va mod 4096"
      by (simp add: and_FFFFF000 unat_minus_nowrap word_le_nat_alt unat_and_FFF)
    then show ?thesis by (simp add: word_unat_eq_iff unat_div minus_mod_eq_mult_div)
  qed
  have fr: "unat (ucast (pa div 0x1000) :: frame) = unat pa div 4096"
    using unat_u32_less [of pa] by (simp add: unsigned_ucast_eq take_bit_nat_eq_self unat_div)
  have "unat pa div 4096 * 4096 = unat pa" using assms(4) by auto
  then have "ucast (ucast (pa div 0x1000) :: frame) * 0x1000 = pa"
    by (metis fr of_nat_mult of_nat_numeral of_nat_unat ucast_id unsigned_of_nat)
  moreover have "(ucast (pa div 0x1000) :: frame) \<noteq> 0"
    using fr assms(5) \<open>unat pa div 4096 * 4096 = unat pa\<close> by (auto simp: word_unat_eq_iff)
  moreover have "load_dir dir (s\<lparr>g_frames := fs, pg_tables := tabs\<rparr>) = Some d" using assms(1) by (auto simp: load_dir_def split: if_splits)
  ultimately have "virt_to_phys_from_dir va dir (s\<lparr>g_frames := fs, pg_tables := tabs\<rparr>) = Some (pa + (va AND 0xFFF))"
    using t(2) assms(2) by (simp add: virt_to_phys_from_dir_def Let_def al fill_page_def)
  with fs t(1) assms(3) show ?thesis by (simp add: map_frame_def)
qed

subsection \<open>Mapping a block returns\<close>

text \<open>The search for a frame does not leave the bitmap during \<open>n\<close> allocations: either every word that it reads exists, or the part of the bitmap
  that exists records \<open>n\<close> free frames. After start-up only the second is true, since a quarter of the bitmap is allocated.\<close>

definition frames_suffice :: "nat \<Rightarrow> vm \<Rightarrow> bool" where
  "frames_suffice n s \<longleftrightarrow> unat (g_nframes s) \<le> 2 ^ 20 \<and> (unat (g_nframes s) div 32 \<le> length (g_frames s) \<or> n \<le> card (free_frames s))"

lemma free_frames_finite: "finite (free_frames s)"
  by (rule finite_subset [of _ "{..<32 * (unat (g_nframes s) div 32)}"]) (auto simp: free_frames_def)

lemma frames_suffice_less: "frames_suffice (Suc n) s \<Longrightarrow> frames_suffice n s"
  by (auto simp: frames_suffice_def)

lemma frames_suffice_take:
  assumes "frames_suffice (Suc n) s" and "g_nframes s' = g_nframes s" and "length (g_frames s') = length (g_frames s)"
    and "used s' = insert f (used s)"
  shows "frames_suffice n s'"
proof -
  have "free_frames s' = free_frames s - {f}" using assms(2-4) by (auto simp: free_frames_def)
  then have "card (free_frames s) \<le> Suc (card (free_frames s'))"
    using card_Diff_singleton [of f "free_frames s"] by (cases "f \<in> free_frames s") simp_all
  with assms(1-3) show ?thesis by (auto simp: frames_suffice_def)
qed

lemma alloc_frame_total:
  assumes "load_page q s = Some p" and "frames_suffice (Suc n) s"
  shows "\<exists>r s'. alloc_frame q k w s = Some (r, s') \<and> frames_suffice n s' \<and> pg_dirs s' = pg_dirs s \<and>
    (\<forall>a. load_page a s' = None \<longleftrightarrow> load_page a s = None)"
proof (cases "p_frame p = 0")
  case False
  with assms frames_suffice_less [OF assms(2)] show ?thesis by (simp add: alloc_frame_def)
next
  case True
  have fr: "unat (g_nframes s) \<le> 2 ^ 20" "unat (g_nframes s) div 32 \<le> length (g_frames s) \<or> free_frames s \<noteq> {}"
    using assms(2) by (auto simp: frames_suffice_def)
  have "first_frame s \<noteq> None" using first_frame_spec [of s] first_frame_free [OF fr(1)] fr(2) by (auto split: option.splits)
  then obtain x where x: "first_frame s = Some x" by blast
  with first_frame_spec [of s] consider "x = -1" | f where "f < unat (g_nframes s)" "x = of_nat f" "f div 32 < length (g_frames s)"
    by auto
  then show ?thesis
  proof cases
    case 1
    with assms True x frames_suffice_less [OF assms(2)] show ?thesis by (simp add: alloc_frame_def frames_suffice_def free_frames_def used_def)
  next
    case 2
    then have "f < 2 ^ 20" using fr(1) by simp
    from alloc_frame_success [OF assms(1) True _ this 2(3), of k w] x 2(2) obtain fs tabs where
      "alloc_frame q k w s = Some (0, s\<lparr>g_frames := fs, pg_tables := tabs\<rparr>)" "length fs = length (g_frames s)"
      "used (s\<lparr>g_frames := fs, pg_tables := tabs\<rparr>) = insert f (used s)"
      "\<forall>r. load_page r (s\<lparr>g_frames := fs, pg_tables := tabs\<rparr>) = (if r = q then Some (fill_page k w (of_nat f) p) else load_page r s)"
      by auto
    with assms(1) frames_suffice_take [OF assms(2), of "s\<lparr>g_frames := fs, pg_tables := tabs\<rparr>" f] show ?thesis by auto
  qed
qed

lemma flagforce_total:
  assumes "load_page q s = Some p" and "frames_suffice (Suc n) s"
  shows "\<exists>r s'. flagforce_alloc_frame q k w s = Some (r, s') \<and> frames_suffice n s' \<and> pg_dirs s' = pg_dirs s \<and>
    (\<forall>a. load_page a s' = None \<longleftrightarrow> load_page a s = None)"
proof -
  from alloc_frame_total [OF assms, of k w] obtain r s1 where
    s1: "alloc_frame q k w s = Some (r, s1)" "frames_suffice n s1" "pg_dirs s1 = pg_dirs s"
      "\<forall>a. load_page a s1 = None \<longleftrightarrow> load_page a s = None" by blast
  with assms(1) obtain p1 where p1: "load_page q s1 = Some p1" by (cases "load_page q s1") auto
  from load_store_page [OF p1, of "p1\<lparr>p_rw := w, p_user := \<not> k\<rparr>"] obtain tabs where
    "store_page q (p1\<lparr>p_rw := w, p_user := \<not> k\<rparr>) s1 = Some (s1\<lparr>pg_tables := tabs\<rparr>)"
    "\<forall>r. load_page r (s1\<lparr>pg_tables := tabs\<rparr>) = (if r = q then Some (p1\<lparr>p_rw := w, p_user := \<not> k\<rparr>) else load_page r s1)" by blast
  with s1 p1 assms(1) show ?thesis
    by (cases "r = -1") (auto simp: flagforce_alloc_frame_def set_frame_flags_def frames_suffice_def free_frames_def used_def)
qed

definition block_tables :: "addr \<Rightarrow> addr \<Rightarrow> page_directory \<Rightarrow> vm \<Rightarrow> bool" where
  "block_tables a e d s \<longleftrightarrow> (\<forall>va. a \<le> va \<and> va < e \<longrightarrow> tables d (unat (va div 0x1000 div 1024)) \<noteq> 0 \<and>
     load_page (tables d (unat (va div 0x1000 div 1024)), unat (va div 0x1000 mod 1024)) s \<noteq> None)"

definition block_pages :: "addr \<Rightarrow> addr \<Rightarrow> nat" where
  "block_pages a e = (unat e - unat a + 4095) div 4096"

text \<open>C26. \<^verbatim>\<open>map_memory_block\<close> returns, with success, for every block that ends at or below the last page of the address space and
  whose page tables exist, provided that the search for frames stays inside the bitmap: that the allocated part of
  the bitmap records as many free frames as the block has pages, or that the bitmap is allocated in full, and then whether or
  not frames are left. (A block that ends in the last page makes the cursor wrap.)\<close>

theorem map_memory_block_terminates:
  assumes "load_dir dir s = Some d" and "block_tables a e d s" and "frames_suffice (block_pages a e) s" and "unat e \<le> 2 ^ 32 - 4096"
  shows "\<exists>s'. map_memory_block a e k w dir s = Some (0, s')"
  using assms(1-3)
proof (induction "unat e - unat a" arbitrary: a s rule: less_induct)
  case less
  show ?case
  proof (cases "a < e")
    case False
    then show ?thesis by (simp add: map_memory_block.simps [of a e])
  next
    case True
    let ?q = "(tables d (unat (a div 0x1000 div 1024)), unat (a div 0x1000 mod 1024))"
    from less.prems(2) True have q: "fst ?q \<noteq> 0" "load_page ?q s \<noteq> None" by (simp_all add: block_tables_def)
    then have g: "get_page1 a dir s = Some (?q, s)" using get_page1_present [OF less.prems(1), of a] by simp
    have u: "unat (a + 0x1000) = unat a + 4096"
      using True assms(4) by (intro unat_plus_nowrap [of a "0x1000", simplified]) (simp add: word_less_nat_alt)
    have n: "block_pages a e = Suc (block_pages (a + 0x1000) e)"
      using True unfolding block_pages_def u word_less_nat_alt by (auto simp: div_if [of _ 4096])
    from q(2) flagforce_total [OF _ less.prems(3) [unfolded n]] obtain r s1 where
      s1: "flagforce_alloc_frame ?q k w s = Some (r, s1)" "frames_suffice (block_pages (a + 0x1000) e) s1" "pg_dirs s1 = pg_dirs s"
        "\<forall>b. load_page b s1 = None \<longleftrightarrow> load_page b s = None" by blast
    have "load_dir dir s1 = Some d" using less.prems(1) s1(3) by (auto simp: load_dir_def split: if_splits)
    moreover have "block_tables (a + 0x1000) e d s1"
      using less.prems(2) s1(4) u by (simp add: block_tables_def word_le_nat_alt)
    moreover have "unat e - unat (a + 0x1000) < unat e - unat a" using True u by (simp add: word_less_nat_alt)
    ultimately obtain s' where "map_memory_block (a + 0x1000) e k w dir s1 = Some (0, s')" using less.hyps s1(2) by blast
    with g s1(1) True show ?thesis by (simp add: map_memory_block.simps [of a e])
  qed
qed

subsection \<open>A small address space\<close>

definition page_of :: "frame \<Rightarrow> page" where
  "page_of f = page_zero\<lparr>p_present := True, p_rw := True, p_user := True, p_frame := f\<rparr>"

definition vm1 :: vm where
  "vm1 = \<lparr>vm_k = kmem1, g_frames = [7], g_nframes = 32,
     pg_tables = [0x10000 \<mapsto> (\<lambda>_. page_zero)(5 := page_of 1), 0x11000 \<mapsto> (\<lambda>_. page_zero)(256 := page_of 2), 0x12000 \<mapsto> (\<lambda>_. page_zero)],
     pg_dirs = [0x1000 \<mapsto> dir_zero\<lparr>tables := (\<lambda>_. 0)(0 := 0x10000, 4 := 0x11000)\<rparr>,
       0x2000 \<mapsto> dir_zero\<lparr>tables := (\<lambda>_. 0)(0 := 0x12000)\<rparr>],
     g_kernel_directory = 0x1000, g_current_directory = 0x1000, vm_cr3 = 0, vm_cr0 = 0, vm_errno = 0, vm_phys = \<lambda>_ _. 0\<rparr>"

lemma vm1_simps [simp]:
  "g_frames vm1 = [7]" "g_nframes vm1 = 32" "g_current_directory vm1 = 0x1000"
  "load_dir 0x1000 vm1 = Some (dir_zero\<lparr>tables := (\<lambda>_. 0)(0 := 0x10000, 4 := 0x11000)\<rparr>)"
  "load_dir 0x2000 vm1 = Some (dir_zero\<lparr>tables := (\<lambda>_. 0)(0 := 0x12000)\<rparr>)"
  by (simp_all add: vm1_def load_dir_def)

lemma bit_7: "bit (7 :: u32) j \<longleftrightarrow> j < 3"
proof -
  have "bit (mask 3 :: u32) j \<longleftrightarrow> j < 3" by (auto simp: bit_mask_iff)
  moreover have "(mask 3 :: u32) = 7" by (simp add: mask_eq_exp_minus_1)
  ultimately show ?thesis by (simp only:)
qed

lemma used_vm1: "used vm1 = {0, 1, 2}"
proof -
  have "f \<in> used vm1 \<longleftrightarrow> f < 3" for f
  proof (cases "f < 32")
    case True
    then have d: "f div 32 = 0" "f mod 32 = f" by simp_all
    show ?thesis unfolding used_def mem_Collect_eq vm1_simps d by (simp only: nth_Cons_0 bit_7) simp
  next
    case False
    then have "\<not> f div 32 < length (g_frames vm1)" by (simp add: div_eq_0_iff)
    then have "f \<notin> used vm1" unfolding used_def by blast
    with False show ?thesis by linarith
  qed
  then have "used vm1 = {f. f < 3}" by blast
  also have "\<dots> = {0, 1, 2}" by auto
  finally show ?thesis .
qed

lemma load_page_vm1:
  "load_page q vm1 = (if q = (0x10000, 5) then Some (page_of 1) else if q = (0x11000, 256) then Some (page_of 2)
     else if fst q \<in> {0x10000, 0x11000, 0x12000} then Some page_zero else None)"
  by (cases q) (auto simp: load_page_def vm1_def)

lemma isolated_vm1: "isolated vm1"
proof -
  have "mapped vm1 = {((0x10000, 5), 1), ((0x11000, 256), 2)}"
    by (auto simp: mapped_def load_page_vm1 page_of_def page_zero_def split: if_splits)
  then show ?thesis by (auto simp: isolated_def used_vm1)
qed

lemma first_frame_vm1: "first_frame vm1 = Some (of_nat 3)"
proof -
  have u: "3 \<notin> used vm1" by (simp add: used_vm1)
  then have "first_frame vm1 \<noteq> None" using first_frame_spec [of vm1] by (auto split: option.splits)
  then obtain x where x: "first_frame vm1 = Some x" by blast
  with first_frame_spec [of vm1] u obtain f where f: "x = of_nat f" "f \<notin> used vm1" "\<forall>g < f. g \<in> used vm1" by auto
  from f(2) have "3 \<le> f" by (auto simp: used_vm1)
  moreover have "\<not> 3 < f" using f(3) u by blast
  ultimately have "f = 3" by simp
  with x f(1) show ?thesis by simp
qed

theorem alloc_frame_correct_witness:
  "\<exists>s'. alloc_frame (0x12000, 5) False True vm1 = Some (0, s') \<and> used s' = {0, 1, 2, 3}"
proof -
  have "load_page (0x12000, 5) vm1 = Some page_zero" by (simp add: load_page_vm1)
  then obtain g s' where g: "alloc_frame (0x12000, 5) False True vm1 = Some (0, s')" "g \<le> 3" "g \<notin> used vm1"
    "used s' = insert g (used vm1)"
    using alloc_frame_correct [of "(0x12000, 5)" vm1 page_zero 3 False True] by (auto simp: used_vm1 page_zero_def)
  then have "g = 3" by (auto simp: used_vm1)
  with g show ?thesis by (auto simp: used_vm1)
qed

theorem frames_isolated_witness:
  "\<exists>s'. alloc_frame (0x12000, 5) False True vm1 = Some (0, s') \<and> isolated s'"
proof -
  have "load_page (0x12000, 5) vm1 = Some page_zero" "p_frame page_zero = 0" by (simp_all add: load_page_vm1 page_zero_def)
  from alloc_frame_success [OF this first_frame_vm1, of False True] obtain s' where
    "alloc_frame (0x12000, 5) False True vm1 = Some (0, s')" by auto
  with frames_isolated [OF isolated_vm1] vm_step.alloc show ?thesis by blast
qed

theorem get_frame_clobbers_witness: "\<exists>r s'. get_frame 0x1000 vm1 = Some (r, s') \<and> r \<noteq> 0 \<and> used s' = {1}"
proof -
  have "unat (0x1000 :: u32) div 4096 = 1" "(1 :: nat) div 32 < length (g_frames vm1)" by simp_all
  from get_frame_clobbers [OF this] show ?thesis by (auto simp: used_vm1)
qed

theorem frames_leak_witness: "free_frame (0x10000, 5) vm1 = Some vm1"
  using frames_leak [of "(0x10000, 5)" vm1 "page_of 1"] by (simp add: load_page_vm1 page_of_def used_vm1)

theorem clear_pages_wrong_frames_witness:
  "\<exists>fs. clear_pages 0 0x10000 0 1024 (vm1\<lparr>g_frames := replicate 32768 0\<rparr>) = Some (vm1\<lparr>g_frames := fs\<rparr>)"
proof -
  let ?s = "vm1\<lparr>g_frames := replicate 32768 0\<rparr>"
  have "pg_tables ?s 0x10000 = Some ((\<lambda>_. page_zero)(5 := page_of 1))" "32 * length (g_frames ?s) = 2 ^ 20"
    by (simp_all add: vm1_def)
  from clear_pages_wrong_frames [OF _ this(1) _ _ this(2), of 0 0 1024] show ?thesis by auto
qed

theorem copy_page_copies_witness:
  "\<exists>s'. copy_page 0x5000 0x2000 vm1 = Some s' \<and> load_page (0x12000, 5) s' = Some (page_of 3)"
proof -
  let ?c = "dir_zero\<lparr>tables := (\<lambda>_. 0)(0 := 0x10000, 4 := 0x11000)\<rparr>" and ?n = "dir_zero\<lparr>tables := (\<lambda>_. 0)(0 := 0x12000)\<rparr>"
  let ?p = "\<lambda>f. fill_page (\<not> p_user (page_of 1)) (p_rw (page_of 1)) (of_nat f) page_zero"
  have p: "?p 3 = page_of 3" by (simp add: fill_page_def page_of_def page_zero_def)
  have z: "p_present (page_of f)" "p_frame page_zero = 0" for f by (simp_all add: page_of_def page_zero_def)
  have fr: "free_frames vm1 \<noteq> {}" by (auto simp: free_frames_def used_vm1 intro: exI [of _ 3])
  have "\<exists>f s'. copy_page 0x5000 0x2000 vm1 = Some s' \<and> f \<notin> used vm1 \<and> (\<forall>g < f. g \<in> used vm1) \<and> used s' = insert f (used vm1) \<and>
    vm_phys s' = (vm_phys vm1)(of_nat f := vm_phys vm1 (p_frame (page_of 1))) \<and>
    (\<forall>q. load_page q s' = (if q = (0x12000, 5) then Some (?p f) else load_page q vm1))"
    by (rule copy_page_copies [where cur = ?c and new = ?n and cp = "(0x10000, 5)" and bp = "(0x11000, 256)" and b = "page_of 2"])
      (simp_all add: load_page_vm1 z fr)
  then obtain f s' where s': "copy_page 0x5000 0x2000 vm1 = Some s'" "f \<notin> used vm1" "\<forall>g < f. g \<in> used vm1"
    "\<forall>q. load_page q s' = (if q = (0x12000, 5) then Some (?p f) else load_page q vm1)" by blast
  have "f = 3" using s'(2) s'(3) [rule_format, of 3] by (cases "3 < f") (auto simp: used_vm1 less_Suc_eq numeral_3_eq_3)
  with s'(4) [rule_format, of "(0x12000, 5)"] s'(1) p show ?thesis by auto
qed

theorem map_frame_translation_witness:
  "\<exists>s'. map_frame (0x12000, 5) 0x3000 True False True vm1 = Some (0, s') \<and> virt_to_phys_from_dir 0x5123 0x2000 s' = Some 0x3123"
proof -
  show ?thesis
    using map_frame_translation [of "0x2000" vm1 "dir_zero\<lparr>tables := (\<lambda>_. 0)(0 := 0x12000)\<rparr>" "(0x12000, 5)" "0x5123" page_zero "0x3000" False True]
    by (simp add: load_page_vm1)
qed

text \<open>The bitmap as start-up allocates it: 1024 words for 131072 frames.\<close>

definition vm2 :: vm where
  "vm2 = vm1\<lparr>g_nframes := 131072, g_frames := replicate 1024 0\<rparr>"

lemma vm2_simps [simp]:
  "load_dir 0x1000 vm2 = Some (dir_zero\<lparr>tables := (\<lambda>_. 0)(0 := 0x10000, 4 := 0x11000)\<rparr>)"
  "load_page (t, i) vm2 = load_page (t, i) vm1"
  by (simp_all add: vm2_def load_dir_def load_page_def vm1_def)

lemma vm2_free: "free_frames vm2 = {..<32768}"
  by (auto simp: free_frames_def used_def vm2_def div_less_iff_less_mult)

theorem map_memory_block_terminates_witness:
  "\<exists>s'. map_memory_block 0 0x3000 False True 0x1000 vm2 = Some (0, s') \<and> length (g_frames vm2) < unat (g_nframes vm2) div 32"
proof -
  have "va div 0x1000 div 1024 = 0" if "va < 0x3000" for va :: addr
  proof -
    have "unat va < 0x3000" using that by (simp add: word_less_nat_alt)
    then have "unat (va div 0x1000 div 1024) = 0" by (simp add: unat_div)
    then show ?thesis by (simp add: unat_eq_0)
  qed
  then have b: "block_tables 0 0x3000 (dir_zero\<lparr>tables := (\<lambda>_. 0)(0 := 0x10000, 4 := 0x11000)\<rparr>) vm2"
    by (auto simp: block_tables_def load_page_vm1)
  have f: "frames_suffice (block_pages 0 0x3000) vm2" by (simp add: frames_suffice_def vm2_free block_pages_def) (simp add: vm2_def)
  from map_memory_block_terminates [OF vm2_simps(1) b f] show ?thesis by (simp add: vm2_def)
qed

end
