(* ===== verification/Ds_Ringbuffer.thy ===== *)
theory Ds_Ringbuffer
  imports Mm_Heap
begin

text \<open>
  Spin locks (\<^verbatim>\<open>kernel/yanix/atomic.c\<close> with \<^verbatim>\<open>kernel/arch/i386/cpu/atomic.asm\<close>), the ring buffer behind pipes,
  terminals and sockets (\<^verbatim>\<open>kernel/yanix/ds/ringbuffer.c\<close>) and the raw operations of pipes
  (\<^verbatim>\<open>kernel/fs/vfs/pipe.c\<close>).

  The ring lives in byte memory: position \<open>i\<close> of the stream is at \<^verbatim>\<open>buffer_start\<close> plus the low 16 bits of
  \<open>i\<close>. The results of the operations carry the return value, the value of \<^verbatim>\<open>errno\<close>, the structure and the
  memory. The lemmas show that the bytes between \<^verbatim>\<open>virtual_begin\<close> and \<^verbatim>\<open>virtual_end\<close> are a queue: storing
  appends, taking removes from the front. This is a fact about the operations under the lock: releasing the lock faults, so
  the operations that take it do not return.
\<close>

subsection \<open>Spin locks\<close>

text \<open>The \<^verbatim>\<open>cmpxchg\<close> instruction leaves the old value of the word in \<^verbatim>\<open>eax\<close>, which is the result of the
  function: 0 when the exchange was made with an expected value of 0, the current value otherwise.\<close>

definition atomic_compare_exchange :: "u32 \<Rightarrow> u32 \<Rightarrow> u32 \<Rightarrow> u32 \<times> u32" where
  "atomic_compare_exchange v unset st = (if v = unset then (unset, st) else (v, v))"

definition atomic_test_and_set :: "u32 \<Rightarrow> u32 \<Rightarrow> u32 \<times> u32" where
  "atomic_test_and_set v st = (if v = 0 then (0, st) else (v, v))"

partial_function (option) spinlock_lock :: "u32 \<Rightarrow> u32 option" where
  "spinlock_lock locked =
     (let (r, locked) = atomic_compare_exchange locked 0 1 in
      if r = 0 then spinlock_lock locked else Some locked)"

text \<open>The store is a \<^verbatim>\<open>mov\<close> with a \<^verbatim>\<open>lock\<close> prefix. The processor does not allow the prefix on this instruction: it
  raises the invalid opcode exception before anything is stored, for which the kernel has no handler. So the function never
  returns.\<close>

definition atomic_store :: "u32 \<Rightarrow> u32 \<Rightarrow> u32 option" where
  "atomic_store v st = None"

definition spinlock_unlock :: "u32 \<Rightarrow> u32 option" where
  "spinlock_unlock locked = atomic_store locked 0"

subsection \<open>The ring buffer\<close>

record ringbuffer =
  rb_size :: u32
  virtual_end :: u32
  virtual_begin :: u32
  buffer_start :: addr
  buffer_end :: addr
  rb_cursize :: u32
  rb_locked :: u32
  rb_flags :: u32

abbreviation (input) "RINGBUFFER_OPTIMIZE_USHORTINT \<equiv> (1 :: u32)"
abbreviation (input) "O_NONBLOCK \<equiv> (0x4000 :: u32)"
abbreviation (input) "USHRT_MAX \<equiv> (0xFFFF :: u32)"
abbreviation (input) "SIZEOF_RINGBUFFER \<equiv> (32 :: u32)"

abbreviation (input) "ENOSYS \<equiv> (38 :: int)"
abbreviation (input) "EPIPE \<equiv> (32 :: int)"

definition create_ringbuffer :: "u32 \<Rightarrow> u32 \<Rightarrow> kmem \<Rightarrow> (addr \<times> ringbuffer \<times> kmem) option" where
  "create_ringbuffer sz flags k = do {
     (circbuf, k) \<leftarrow> kmalloc SIZEOF_RINGBUFFER k;
     let sz = (if flags AND RINGBUFFER_OPTIMIZE_USHORTINT \<noteq> 0 then USHRT_MAX else sz);
     (buf, k) \<leftarrow> kmalloc sz k;
     Some (circbuf, \<lparr>rb_size = sz, virtual_end = 0, virtual_begin = 0, buffer_start = buf,
       buffer_end = buf + sz, rb_cursize = 0, rb_locked = 0, rb_flags = flags\<rparr>, k) }"

definition ringbuffer_destroy :: "addr \<Rightarrow> ringbuffer \<Rightarrow> kmem \<Rightarrow> kmem option" where
  "ringbuffer_destroy circbuf rb k = do {
     (_, k) \<leftarrow> kfree (buffer_start rb) k;
     (_, k) \<leftarrow> kfree circbuf k;
     Some k }"

text \<open>The address of stream position \<open>i\<close>; the index is an \<^verbatim>\<open>unsigned short int\<close>.\<close>

definition ring_at :: "addr \<Rightarrow> u16 \<Rightarrow> addr" where
  "ring_at bs ind = bs + ucast ind"

primrec ring_read_loop :: "mem \<Rightarrow> addr \<Rightarrow> addr \<Rightarrow> u16 \<Rightarrow> nat \<Rightarrow> mem" where
  "ring_read_loop m dest bs ind 0 = m"
| "ring_read_loop m dest bs ind (Suc n) =
     ring_read_loop (m(dest := m (ring_at bs ind))) (dest + 1) bs (ind + 1) n"

definition ringbuffer_read_index ::
  "addr \<Rightarrow> u32 \<Rightarrow> u32 \<Rightarrow> ringbuffer \<Rightarrow> int \<Rightarrow> mem \<Rightarrow> int \<times> int \<times> ringbuffer \<times> mem" where
  "ringbuffer_read_index buffer sz index rb e m =
     (let sz = (if rb_cursize rb \<noteq> 0 \<and> rb_cursize rb < sz then rb_cursize rb else sz) in
      if rb_flags rb AND RINGBUFFER_OPTIMIZE_USHORTINT \<noteq> 0 then
        let mx = (if sz > virtual_end rb - virtual_begin rb then virtual_end rb - virtual_begin rb else sz);
            m = ring_read_loop m buffer (buffer_start rb) (ucast index) (unat mx);
            rb = rb\<lparr>virtual_begin := index + mx\<rparr>;
            rb = (if rb_cursize rb \<noteq> 0 then rb\<lparr>rb_cursize := rb_cursize rb - mx\<rparr> else rb) in
        (sint mx, e, rb, m)
      else (-1, ENOSYS, rb, m))"

definition ringbuffer_read ::
  "addr \<Rightarrow> u32 \<Rightarrow> ringbuffer \<Rightarrow> int \<Rightarrow> mem \<Rightarrow> (int \<times> int \<times> ringbuffer \<times> mem) option" where
  "ringbuffer_read buffer sz rb e m = do {
     l \<leftarrow> spinlock_lock (rb_locked rb);
     let (ret, e, rb, m) = ringbuffer_read_index buffer sz (virtual_begin rb) (rb\<lparr>rb_locked := l\<rparr>) e m;
     l \<leftarrow> spinlock_unlock (rb_locked rb);
     Some (ret, e, rb\<lparr>rb_locked := l\<rparr>, m) }"

text \<open>The loop of \<^verbatim>\<open>ringbuffer_write_index\<close>; \<open>i\<close> counts up, \<open>n\<close> is the number of bytes left. With
  \<^verbatim>\<open>O_NONBLOCK\<close> every byte is readable at once, otherwise only complete lines are.\<close>

primrec ring_write_loop ::
  "mem \<Rightarrow> addr \<Rightarrow> u16 \<Rightarrow> u32 \<Rightarrow> ringbuffer \<Rightarrow> nat \<Rightarrow> ringbuffer \<times> mem" where
  "ring_write_loop m buffer ind i rb 0 = (rb, m)"
| "ring_write_loop m buffer ind i rb (Suc n) =
     (let c = m (buffer + i);
          rb = (if rb_flags rb AND O_NONBLOCK \<noteq> 0 \<or> c = 0x0A
                then rb\<lparr>rb_cursize := virtual_end rb - virtual_begin rb + i + 1\<rparr> else rb) in
      ring_write_loop (m(ring_at (buffer_start rb) ind := c)) buffer (ind + 1) (i + 1) rb n)"

definition ringbuffer_write_index ::
  "addr \<Rightarrow> u32 \<Rightarrow> u32 \<Rightarrow> ringbuffer \<Rightarrow> int \<Rightarrow> mem \<Rightarrow> int \<times> int \<times> ringbuffer \<times> mem" where
  "ringbuffer_write_index buffer sz index rb e m =
     (if rb_flags rb AND RINGBUFFER_OPTIMIZE_USHORTINT \<noteq> 0 then
        let (rb, m) = ring_write_loop m buffer (ucast index) 0 rb (unat sz) in
        (sint sz, e, rb\<lparr>virtual_end := index + sz\<rparr>, m)
      else (-1, ENOSYS, rb, m))"

definition ringbuffer_write ::
  "addr \<Rightarrow> u32 \<Rightarrow> ringbuffer \<Rightarrow> int \<Rightarrow> mem \<Rightarrow> (int \<times> int \<times> ringbuffer \<times> mem) option" where
  "ringbuffer_write buffer sz rb e m = do {
     l \<leftarrow> spinlock_lock (rb_locked rb);
     let (ret, e, rb, m) = ringbuffer_write_index buffer sz (virtual_end rb) (rb\<lparr>rb_locked := l\<rparr>) e m;
     l \<leftarrow> spinlock_unlock (rb_locked rb);
     Some (ret, e, rb\<lparr>rb_locked := l\<rparr>, m) }"

text \<open>Waiting for a byte: nothing in this context changes \<^verbatim>\<open>cursize\<close>, so on an empty buffer the loop spins
  until an interrupt handler or another task writes.\<close>

definition ringbuffer_block :: "ringbuffer \<Rightarrow> unit option" where
  "ringbuffer_block rb = (if rb_cursize rb = 0 then None else Some ())"

definition ringbuffer_flush :: "ringbuffer \<Rightarrow> ringbuffer" where
  "ringbuffer_flush rb = rb\<lparr>virtual_begin := virtual_end rb, rb_cursize := 0\<rparr>"

primrec ring_shift :: "mem \<Rightarrow> addr \<Rightarrow> nat \<Rightarrow> mem" where
  "ring_shift m a 0 = m"
| "ring_shift m a (Suc n) = ring_shift (m(a := m (a + 1))) (a + 1) n"

definition ringbuffer_remove :: "u32 \<Rightarrow> ringbuffer \<Rightarrow> int \<Rightarrow> mem \<Rightarrow> int \<times> int \<times> ringbuffer \<times> mem" where
  "ringbuffer_remove location rb e m =
     (if virtual_end rb - virtual_begin rb = 0 then (-1, e, rb, m)
      else if rb_flags rb AND RINGBUFFER_OPTIMIZE_USHORTINT \<noteq> 0 then
        let base = (ucast (ucast (ucast (virtual_end rb) :: u16) - location - 1) :: u16);
            m = ring_shift m (buffer_start rb + ucast base) (nat (sint location - 1)) in
        (0, e, rb\<lparr>virtual_end := virtual_end rb - 1\<rparr>, m(buffer_start rb + virtual_end rb := 0))
      else (-1, ENOSYS, rb, m))"

subsection \<open>Pipes\<close>

record pipe =
  pipe_circbuf :: addr
  pipefd0 :: u32
  pipefd1 :: u32
  pipe_flags :: u32

abbreviation (input) "SIZEOF_PIPE \<equiv> (16 :: u32)"

text \<open>The raw operations on a pipe; a null pipe is \<open>None\<close>. The ring is passed by value in place of
  \<^verbatim>\<open>pipe->circbuf\<close>.\<close>

definition pipe_read_raw ::
  "ringbuffer option \<Rightarrow> addr \<Rightarrow> u32 \<Rightarrow> u32 \<Rightarrow> int \<Rightarrow> mem \<Rightarrow> (int \<times> int \<times> ringbuffer option \<times> mem) option" where
  "pipe_read_raw p buffer sz flags e m =
     (case p of None \<Rightarrow> Some (-1, EPIPE, None, m)
      | Some rb \<Rightarrow> do {
          _ \<leftarrow> (if flags AND O_NONBLOCK = 0 then ringbuffer_block rb else Some ());
          (ret, e, rb, m) \<leftarrow> ringbuffer_read buffer sz rb e m;
          Some (ret, e, Some rb, m) })"

definition pipe_write_raw ::
  "ringbuffer option \<Rightarrow> addr \<Rightarrow> u32 \<Rightarrow> u32 \<Rightarrow> int \<Rightarrow> mem \<Rightarrow> (int \<times> int \<times> ringbuffer option \<times> mem) option" where
  "pipe_write_raw p buffer sz flags e m =
     (case p of None \<Rightarrow> Some (-1, EPIPE, None, m)
      | Some rb \<Rightarrow> do {
          (ret, e, rb, m) \<leftarrow> ringbuffer_write buffer sz
            (rb\<lparr>rb_flags := rb_flags rb OR (flags AND O_NONBLOCK)\<rparr>) e m;
          Some (ret, e, Some rb, m) })"

definition pipe_remove ::
  "ringbuffer option \<Rightarrow> u32 \<Rightarrow> int \<Rightarrow> mem \<Rightarrow> int \<times> int \<times> ringbuffer option \<times> mem" where
  "pipe_remove p location e m =
     (case p of None \<Rightarrow> (-1, EPIPE, None, m)
      | Some rb \<Rightarrow> let (ret, e, rb, m) = ringbuffer_remove location rb e m in (ret, e, Some rb, m))"

definition pipe_create :: "kmem \<Rightarrow> (addr \<times> (pipe \<times> ringbuffer) option \<times> kmem) option" where
  "pipe_create k = do {
     (p, k) \<leftarrow> kmalloc SIZEOF_PIPE k;
     if p = 0 then Some (0, None, k)
     else do {
       (circbuf, rb, k) \<leftarrow> create_ringbuffer 0 RINGBUFFER_OPTIMIZE_USHORTINT k;
       if circbuf = 0 then Some (0, None, k)
       else Some (p, Some (\<lparr>pipe_circbuf = circbuf, pipefd0 = 0, pipefd1 = 0, pipe_flags = 0\<rparr>, rb), k) } }"

definition pipe_destroy :: "addr \<Rightarrow> pipe \<Rightarrow> ringbuffer \<Rightarrow> kmem \<Rightarrow> kmem option" where
  "pipe_destroy a p rb k = do {
     k \<leftarrow> ringbuffer_destroy (pipe_circbuf p) rb k;
     (_, k) \<leftarrow> kfree a k;
     Some k }"

subsection \<open>Locks\<close>

lemma spinlock_lock_1: "spinlock_lock 1 = Some 1"
  by (simp add: spinlock_lock.simps [of 1] atomic_compare_exchange_def)

lemma spinlock_lock_0: "spinlock_lock 0 = Some 1"
  by (simp add: spinlock_lock.simps [of 0] atomic_compare_exchange_def spinlock_lock_1)

lemma spinlock_lock_held: "l \<noteq> 0 \<Longrightarrow> spinlock_lock l = Some l"
  by (simp add: spinlock_lock.simps [of l] atomic_compare_exchange_def)

subsection \<open>Positions of the ring\<close>

lemma unat_ucast_u16: "unat (ucast (a :: u16) :: u32) = unat a"
proof -
  have "unat a < 2 ^ 32" by (rule order_less_le_trans [OF unsigned_less]) simp
  then show ?thesis by (simp add: unsigned_ucast_eq take_bit_nat_eq_self)
qed

lemma ring_at_inj: "ring_at bs a = ring_at bs b \<longleftrightarrow> a = b"
proof
  assume "ring_at bs a = ring_at bs b"
  then have "unat (ucast a :: addr) = unat (ucast b :: addr)" by (simp add: ring_at_def)
  then have "unat a = unat b" by (simp add: unat_ucast_u16)
  then show "a = b" by (rule unsigned_word_eqI)
qed simp

lemma ring_index_inj: "i < 65536 \<Longrightarrow> j < 65536 \<Longrightarrow> ring_at bs (v + of_nat i) = ring_at bs (v + of_nat j) \<longleftrightarrow> i = j"
  using of_nat_word_eqD [of i j, where ?'a = 16] by (auto simp: ring_at_inj)

text \<open>\<open>bytes m p n\<close>: the \<open>n\<close> bytes at \<open>p\<close>; \<open>ring m bs v n\<close>: the \<open>n\<close> bytes of the ring from index \<open>v\<close>.\<close>

definition bytes :: "mem \<Rightarrow> addr \<Rightarrow> nat \<Rightarrow> u8 list" where
  "bytes m p n = map (\<lambda>i. m (p + of_nat i)) [0..<n]"

definition ring :: "mem \<Rightarrow> addr \<Rightarrow> u16 \<Rightarrow> nat \<Rightarrow> u8 list" where
  "ring m bs v n = map (\<lambda>i. m (ring_at bs (v + of_nat i))) [0..<n]"

lemma length_ring [simp]: "length (ring m bs v n) = n" and length_bytes [simp]: "length (bytes m p n) = n"
  by (simp_all add: ring_def bytes_def)

lemma ring_nth [simp]: "i < n \<Longrightarrow> ring m bs v n ! i = m (ring_at bs (v + of_nat i))"
  by (simp add: ring_def)

lemma bytes_nth [simp]: "i < n \<Longrightarrow> bytes m p n ! i = m (p + of_nat i)"
  by (simp add: bytes_def)

text \<open>The \<open>n\<close> bytes at \<open>p\<close> are not part of the ring.\<close>

definition off_ring :: "addr \<Rightarrow> addr \<Rightarrow> nat \<Rightarrow> bool" where
  "off_ring bs p n \<longleftrightarrow> (\<forall>i < n. \<forall>x. p + of_nat i \<noteq> ring_at bs x)"

lemma off_ring_Suc: "off_ring bs p (Suc n) \<Longrightarrow> off_ring bs (p + 1) n \<and> (\<forall>x. p \<noteq> ring_at bs x)"
  unfolding off_ring_def
proof (intro conjI allI impI)
  fix i x assume a: "\<forall>i < Suc n. \<forall>x. p + of_nat i \<noteq> ring_at bs x" and "i < n"
  then show "p + 1 + of_nat i \<noteq> ring_at bs x" using a [rule_format, of "Suc i" x] by (simp add: add.assoc)
qed (use spec in force)

lemma ring_read_loop_spec:
  "off_ring bs dest n \<Longrightarrow> n \<le> 2 ^ 32 \<Longrightarrow>
    bytes (ring_read_loop m dest bs v n) dest n = ring m bs v n \<and>
    (\<forall>a. \<not> inblk dest n a \<longrightarrow> ring_read_loop m dest bs v n a = m a)"
proof (induction n arbitrary: m dest v)
  case (Suc n)
  define m1 where "m1 = m(dest := m (ring_at bs v))"
  define r where "r = ring_read_loop m1 (dest + 1) bs (v + 1) n"
  from Suc.prems(1) have o: "off_ring bs (dest + 1) n" "\<And>x. dest \<noteq> ring_at bs x"
    by (auto dest: off_ring_Suc)
  from Suc.IH [OF o(1), of m1 "v + 1"] Suc.prems(2)
  have IH: "bytes r (dest + 1) n = ring m1 bs (v + 1) n" "\<And>a. \<not> inblk (dest + 1) n a \<Longrightarrow> r a = m1 a"
    by (auto simp: r_def)
  have "ring m1 bs (v + 1) n = ring m bs (v + 1) n" using o(2) by (auto simp: ring_def m1_def)
  moreover have "r dest = m (ring_at bs v)"
    using IH(2) inblk_Suc(2) [OF Suc.prems(2), of dest] by (simp add: m1_def)
  moreover have "bytes r dest (Suc n) = r dest # bytes r (dest + 1) n"
    by (simp add: bytes_def upt_conv_Cons map_Suc_upt [symmetric] add.assoc del: upt_Suc)
  moreover have "ring m bs v (Suc n) = m (ring_at bs v) # ring m bs (v + 1) n"
    by (simp add: ring_def upt_conv_Cons map_Suc_upt [symmetric] add.assoc del: upt_Suc)
  moreover have "r a = m a" if "\<not> inblk dest (Suc n) a" for a
    using IH(2) inblk_Suc(1) [OF Suc.prems(2), of dest a] that by (auto simp: m1_def)
  ultimately show ?case using IH(1) by (simp add: r_def m1_def)
qed (simp add: bytes_def ring_def)

text \<open>How much of the bytes written becomes readable: all of them with \<^verbatim>\<open>O_NONBLOCK\<close>, otherwise up to and
  including the last newline.\<close>

primrec line_end :: "bool \<Rightarrow> u8 list \<Rightarrow> nat" where
  "line_end nb [] = 0"
| "line_end nb (x # xs) =
     (if 0 < line_end nb xs then Suc (line_end nb xs) else if nb \<or> x = 0x0A then 1 else 0)"

lemma line_end_nonblock: "line_end True xs = length xs"
  by (induction xs) auto

lemma line_end_snoc: "line_end nb (xs @ [0x0A]) = Suc (length xs)"
  by (induction xs) auto

lemma bytes_Suc: "bytes m p (Suc n) = m p # bytes m (p + 1) n"
  by (simp add: bytes_def upt_conv_Cons map_Suc_upt [symmetric] add.assoc del: upt_Suc)

lemma ring_Suc: "ring m bs v (Suc n) = m (ring_at bs v) # ring m bs (v + 1) n"
  by (simp add: ring_def upt_conv_Cons map_Suc_upt [symmetric] add.assoc del: upt_Suc)

lemma ring_write_loop_spec:
  assumes "off_ring (buffer_start rb) (buf + i) n" and "n \<le> 65536"
  shows "\<exists>m'. ring_write_loop m buf v i rb n =
      (rb\<lparr>rb_cursize := (let k = line_end (rb_flags rb AND O_NONBLOCK \<noteq> 0) (bytes m (buf + i) n) in
         if k = 0 then rb_cursize rb else virtual_end rb - virtual_begin rb + i + of_nat k)\<rparr>, m') \<and>
    ring m' (buffer_start rb) v n = bytes m (buf + i) n \<and>
    (\<forall>a. (\<forall>j < n. a \<noteq> ring_at (buffer_start rb) (v + of_nat j)) \<longrightarrow> m' a = m a)"
  using assms
proof (induction n arbitrary: m v i rb)
  case 0
  then show ?case by (simp add: bytes_def ring_def)
next
  case (Suc n)
  define bs where "bs = buffer_start rb"
  define c where "c = m (buf + i)"
  define m1 where "m1 = m(ring_at bs v := c)"
  define nb where "nb = (rb_flags rb AND O_NONBLOCK \<noteq> 0)"
  define rb1 where "rb1 = (if nb \<or> c = 0x0A then rb\<lparr>rb_cursize := virtual_end rb - virtual_begin rb + i + 1\<rparr> else rb)"
  have rb1: "buffer_start rb1 = bs" "rb_flags rb1 = rb_flags rb" "virtual_end rb1 = virtual_end rb"
    "virtual_begin rb1 = virtual_begin rb" by (simp_all add: rb1_def bs_def)
  from Suc.prems(1) have o: "off_ring bs (buf + (i + 1)) n" "\<And>x. buf + i \<noteq> ring_at bs x"
    by (auto dest!: off_ring_Suc simp: bs_def add.assoc)
  have bm: "bytes m1 (buf + (i + 1)) n = bytes m (buf + (i + 1)) n"
    using o(1) by (simp add: bytes_def m1_def off_ring_def)
  from Suc.IH [of rb1 "i + 1" m1 "v + 1"] o(1) Suc_leD [OF Suc.prems(2)] obtain m' where
    IH: "ring_write_loop m1 buf (v + 1) (i + 1) rb1 n =
      (rb1\<lparr>rb_cursize := (let k = line_end nb (bytes m (buf + (i + 1)) n) in
         if k = 0 then rb_cursize rb1 else virtual_end rb - virtual_begin rb + (i + 1) + of_nat k)\<rparr>, m')"
    "ring m' bs (v + 1) n = bytes m (buf + (i + 1)) n"
    "\<And>a. (\<forall>j < n. a \<noteq> ring_at bs (v + 1 + of_nat j)) \<Longrightarrow> m' a = m1 a"
    unfolding rb1 nb_def bm by blast
  have step: "ring_write_loop m buf v i rb (Suc n) = ring_write_loop m1 buf (v + 1) (i + 1) rb1 n"
    by (simp add: Let_def m1_def rb1_def c_def nb_def bs_def)
  have ne: "ring_at bs v \<noteq> ring_at bs (v + 1 + of_nat j)" if "j < n" for j
    using ring_index_inj [of 0 "Suc j" bs v] that Suc.prems(2) by (simp add: add.assoc)
  have c': "m' (ring_at bs v) = c" using IH(3) [of "ring_at bs v"] ne by (simp add: m1_def)
  have bc: "bytes m (buf + i) (Suc n) = c # bytes m (buf + (i + 1)) n" by (simp add: bytes_Suc c_def add.assoc)
  have "ring m' bs v (Suc n) = bytes m (buf + i) (Suc n)" by (simp only: ring_Suc bc c' IH(2))
  moreover have "m' a = m a" if "\<forall>j < Suc n. a \<noteq> ring_at bs (v + of_nat j)" for a
  proof -
    have "a \<noteq> ring_at bs (v + 1 + of_nat j)" if "j < n" for j
      using \<open>\<forall>j < Suc n. a \<noteq> ring_at bs (v + of_nat j)\<close> [rule_format, of "Suc j"] that by (simp add: add.assoc)
    then have "m' a = m1 a" by (intro IH(3)) simp
    moreover have "a \<noteq> ring_at bs v" using that [rule_format, of 0] by simp
    ultimately show ?thesis by (simp add: m1_def)
  qed
  moreover have "rb1\<lparr>rb_cursize := (let k = line_end nb (bytes m (buf + (i + 1)) n) in
         if k = 0 then rb_cursize rb1 else virtual_end rb - virtual_begin rb + (i + 1) + of_nat k)\<rparr> =
      rb\<lparr>rb_cursize := (let k = line_end nb (bytes m (buf + i) (Suc n)) in
         if k = 0 then rb_cursize rb else virtual_end rb - virtual_begin rb + i + of_nat k)\<rparr>"
    unfolding bc by (simp add: rb1_def Let_def add.assoc)
  ultimately show ?case unfolding step IH(1) bs_def nb_def by blast
qed

subsection \<open>The ring as a queue\<close>

definition rb_content :: "ringbuffer \<Rightarrow> mem \<Rightarrow> u8 list" where
  "rb_content rb m = ring m (buffer_start rb) (ucast (virtual_begin rb)) (unat (virtual_end rb - virtual_begin rb))"

lemma ucast_plus_u16: "(ucast (a + b :: u32) :: u16) = ucast a + ucast b"
proof -
  have "(x mod 2 ^ 32 + y mod 2 ^ 32) mod 2 ^ 16 = (x + y) mod (2 ^ 16 :: int)" for x y
  proof -
    have d: "(2 ^ 16 :: int) dvd 2 ^ 32" by (rule le_imp_power_dvd) simp
    have "(x mod 2 ^ 32 + y mod 2 ^ 32) mod 2 ^ 16 = ((x mod 2 ^ 32) mod 2 ^ 16 + (y mod 2 ^ 32) mod 2 ^ 16) mod (2 ^ 16 :: int)"
      by (simp only: mod_add_eq)
    also have "\<dots> = (x + y) mod 2 ^ 16" by (simp only: mod_mod_cancel [OF d] mod_add_eq)
    finally show ?thesis .
  qed
  then have "take_bit 16 (take_bit 32 x + take_bit 32 y) = take_bit 16 (x + y)" for x y :: int
    by (simp only: take_bit_eq_mod)
  then show ?thesis by transfer (simp add: take_bit_add)
qed

lemma ucast_of_nat_u16: "(ucast (of_nat n :: u32) :: u16) = of_nat n"
  by transfer (simp add: take_bit_eq_mod mod_mod_cancel)

lemma ring_append: "ring m bs v (j + k) = ring m bs v j @ ring m bs (v + of_nat j) k"
  by (induction j arbitrary: v) (simp_all add: ring_Suc add.assoc, simp add: ring_def)

lemma ring_drop: "r \<le> k \<Longrightarrow> ring m bs (v + of_nat r) (k - r) = drop r (ring m bs v k) \<and>
    ring m bs v r = take r (ring m bs v k)"
  using ring_append [of m bs v r "k - r"] by simp

lemma ring_write_frame:
  assumes "\<forall>a. (\<forall>j < n. a \<noteq> ring_at bs (v + of_nat k + of_nat j)) \<longrightarrow> m' a = m a" and "k + n \<le> 65536"
  shows "ring m' bs v k = ring m bs v k"
proof -
  have "m' (ring_at bs (v + of_nat i)) = m (ring_at bs (v + of_nat i))" if "i < k" for i
  proof -
    have "ring_at bs (v + of_nat i) \<noteq> ring_at bs (v + of_nat k + of_nat j)" if "j < n" for j
      using ring_index_inj [of i "k + j" bs v] \<open>i < k\<close> that assms(2) by (simp add: add.assoc)
    then show ?thesis using assms(1) by blast
  qed
  then show ?thesis by (simp add: ring_def)
qed

text \<open>No operation that releases the lock returns.\<close>

lemma spinlock_lock_returns: "\<exists>l'. spinlock_lock l = Some l'"
  using spinlock_lock_0 spinlock_lock_held by (cases "l = 0") auto

lemma ringbuffer_locked_faults: "ringbuffer_read dest n rb e m = None" "ringbuffer_write src n rb e m = None"
  using spinlock_lock_returns [of "rb_locked rb"]
  by (auto simp: ringbuffer_read_def ringbuffer_write_def spinlock_unlock_def atomic_store_def split: prod.split)

lemma ringbuffer_write_index_appends:
  assumes fl: "rb_flags rb AND RINGBUFFER_OPTIMIZE_USHORTINT \<noteq> 0"
    and o: "off_ring (buffer_start rb) src (unat n)"
    and cap: "length (rb_content rb m) + unat n \<le> 65536"
  shows "\<exists>rb' m'. ringbuffer_write_index src n (virtual_end rb) rb e m = (sint n, e, rb', m') \<and>
    rb_content rb' m' = rb_content rb m @ bytes m src (unat n) \<and>
    rb_cursize rb' = (let k = line_end (rb_flags rb AND O_NONBLOCK \<noteq> 0) (bytes m src (unat n)) in
      if k = 0 then rb_cursize rb else of_nat (length (rb_content rb m) + k)) \<and>
    buffer_start rb' = buffer_start rb \<and> rb_flags rb' = rb_flags rb \<and> virtual_begin rb' = virtual_begin rb \<and>
    (\<forall>a. (\<forall>x. a \<noteq> ring_at (buffer_start rb) x) \<longrightarrow> m' a = m a)"
proof -
  define bs where "bs = buffer_start rb"
  define v :: u16 where "v = ucast (virtual_begin rb)"
  define k where "k = unat (virtual_end rb - virtual_begin rb)"
  have kn: "k + unat n \<le> 65536" using cap by (simp add: rb_content_def k_def)
  have ve: "virtual_end rb = virtual_begin rb + of_nat k" by (simp add: k_def)
  have ve16: "ucast (virtual_end rb) = v + of_nat k"
    by (subst ve) (simp only: ucast_plus_u16 ucast_of_nat_u16 v_def)
  from ring_write_loop_spec [of rb src 0 "unat n" m "v + of_nat k"] o kn obtain m' where
    w: "ring_write_loop m src (v + of_nat k) 0 rb (unat n) =
      (rb\<lparr>rb_cursize := (let k = line_end (rb_flags rb AND O_NONBLOCK \<noteq> 0) (bytes m src (unat n)) in
         if k = 0 then rb_cursize rb else virtual_end rb - virtual_begin rb + of_nat k)\<rparr>, m')"
    and r: "ring m' bs (v + of_nat k) (unat n) = bytes m src (unat n)"
    and f: "\<forall>a. (\<forall>j < unat n. a \<noteq> ring_at bs (v + of_nat k + of_nat j)) \<longrightarrow> m' a = m a"
    by (auto simp: bs_def Let_def)
  have len: "unat (virtual_end rb + n - virtual_begin rb) = k + unat n"
  proof -
    have "virtual_end rb + n - virtual_begin rb = of_nat (k + unat n)" by (simp add: ve)
    moreover have "unat (of_nat (k + unat n) :: u32) = k + unat n" using kn by (intro unat_of_nat_nowrap) simp
    ultimately show ?thesis by (simp only:)
  qed
  let ?rb' = "rb\<lparr>rb_cursize := (let k = line_end (rb_flags rb AND O_NONBLOCK \<noteq> 0) (bytes m src (unat n)) in
         if k = 0 then rb_cursize rb else virtual_end rb - virtual_begin rb + of_nat k),
         virtual_end := virtual_end rb + n\<rparr>"
  have "ringbuffer_write_index src n (virtual_end rb) rb e m = (sint n, e, ?rb', m')"
    using fl w by (simp add: ringbuffer_write_index_def ve16)
  moreover have "rb_content ?rb' m' = rb_content rb m @ bytes m src (unat n)"
    using ring_append [of m' bs v k "unat n"] ring_write_frame [OF f kn] r
    by (simp add: rb_content_def len v_def [symmetric] bs_def [symmetric] k_def [symmetric])
  moreover have "virtual_end rb - virtual_begin rb = of_nat k" by (simp add: k_def)
  then have "rb_cursize ?rb' = (let k = line_end (rb_flags rb AND O_NONBLOCK \<noteq> 0) (bytes m src (unat n)) in
      if k = 0 then rb_cursize rb else of_nat (length (rb_content rb m) + k))"
    by (simp add: rb_content_def Let_def)
  moreover have "\<forall>a. (\<forall>x. a \<noteq> ring_at (buffer_start rb) x) \<longrightarrow> m' a = m a" using f by (simp add: bs_def)
  ultimately show ?thesis by (intro exI [of _ ?rb'] exI [of _ m']) simp
qed

text \<open>How many bytes a read of \<open>n\<close> bytes takes: never more than are buffered, and when complete lines are
  waiting, never more than those.\<close>

definition read_amount :: "u32 \<Rightarrow> ringbuffer \<Rightarrow> mem \<Rightarrow> nat" where
  "read_amount n rb m =
     min (unat (if rb_cursize rb \<noteq> 0 \<and> rb_cursize rb < n then rb_cursize rb else n)) (length (rb_content rb m))"

lemma ringbuffer_read_index_takes:
  assumes fl: "rb_flags rb AND RINGBUFFER_OPTIMIZE_USHORTINT \<noteq> 0"
    and o: "off_ring (buffer_start rb) dest (read_amount n rb m)"
    and cap: "length (rb_content rb m) \<le> 65536"
  shows "\<exists>rb' m'. ringbuffer_read_index dest n (virtual_begin rb) rb e m = (int (read_amount n rb m), e, rb', m') \<and>
    bytes m' dest (read_amount n rb m) = take (read_amount n rb m) (rb_content rb m) \<and>
    rb_content rb' m' = drop (read_amount n rb m) (rb_content rb m) \<and>
    rb_cursize rb' = (if rb_cursize rb \<noteq> 0 then rb_cursize rb - of_nat (read_amount n rb m) else 0) \<and>
    buffer_start rb' = buffer_start rb \<and> rb_flags rb' = rb_flags rb \<and>
    (\<forall>a. \<not> inblk dest (read_amount n rb m) a \<longrightarrow> m' a = m a)"
proof -
  define bs where "bs = buffer_start rb"
  define v :: u16 where "v = ucast (virtual_begin rb)"
  define d where "d = virtual_end rb - virtual_begin rb"
  define sz where "sz = (if rb_cursize rb \<noteq> 0 \<and> rb_cursize rb < n then rb_cursize rb else n)"
  define mx where "mx = (if sz > d then d else sz)"
  have k: "length (rb_content rb m) = unat d" by (simp add: rb_content_def d_def)
  have r: "read_amount n rb m = unat mx"
    unfolding read_amount_def k sz_def [symmetric] by (auto simp: mx_def min_def word_le_nat_alt word_less_nat_alt)
  have rk: "unat mx \<le> unat d" by (auto simp: mx_def word_less_nat_alt)
  have mxb: "unat mx < 2 ^ 31" using rk cap k by simp
  have sm: "sint mx = int (unat mx)" using sint_of_nat_small [OF mxb] by simp
  define m' where "m' = ring_read_loop m dest bs v (unat mx)"
  from ring_read_loop_spec [of bs dest "unat mx" m v] o r mxb have
    rd: "bytes m' dest (unat mx) = ring m bs v (unat mx)" and f: "\<forall>a. \<not> inblk dest (unat mx) a \<longrightarrow> m' a = m a"
    by (simp_all add: m'_def bs_def)
  have "m' (ring_at bs x) = m (ring_at bs x)" for x
    using f o r by (metis bs_def inblkE off_ring_def)
  then have rg: "ring m' bs w j = ring m bs w j" for w j by (simp add: ring_def)
  define rb1 where "rb1 = rb\<lparr>virtual_begin := virtual_begin rb + mx\<rparr>"
  define rb2 where "rb2 = (if rb_cursize rb1 \<noteq> 0 then rb1\<lparr>rb_cursize := rb_cursize rb1 - mx\<rparr> else rb1)"
  have ri: "ringbuffer_read_index dest n (virtual_begin rb) rb e m = (sint mx, e, rb2, m')"
    unfolding ringbuffer_read_index_def Let_def rb2_def rb1_def m'_def v_def bs_def mx_def sz_def d_def
    using fl by (simp cong: if_cong split del: if_split)
  have rb2: "virtual_begin rb2 = virtual_begin rb + mx" "virtual_end rb2 = virtual_end rb" "buffer_start rb2 = bs"
    "rb_flags rb2 = rb_flags rb" "rb_cursize rb2 = (if rb_cursize rb \<noteq> 0 then rb_cursize rb - mx else 0)"
    by (simp_all add: rb2_def rb1_def bs_def)
  have "ringbuffer_read_index dest n (virtual_begin rb) rb e m = (int (unat mx), e, rb2, m')"
    by (simp add: ri sm)
  moreover have "unat (d - mx) = unat d - unat mx" using rk by (intro unat_sub) (simp add: word_le_nat_alt)
  then have "rb_content rb2 m' = ring m bs (v + of_nat (unat mx)) (unat d - unat mx)"
    by (simp add: rb_content_def rb2 rg v_def d_def ucast_plus_u16 ucast_of_nat_u16 [symmetric] diff_diff_eq [symmetric])
  with ring_drop [OF rk, of m bs v] have "rb_content rb2 m' = drop (unat mx) (rb_content rb m)"
    "bytes m' dest (unat mx) = take (unat mx) (rb_content rb m)"
    by (simp_all add: rd) (simp_all add: rb_content_def bs_def v_def d_def)
  ultimately show ?thesis unfolding r using f by (intro exI [of _ rb2] exI [of _ m']) (simp add: rb2 bs_def)
qed

subsection \<open>Streams of bytes\<close>

text \<open>What a reader and a writer of a channel may rely on, whatever their interleaving. A history is a
  list of events, each a successful write or read with the bytes it moved.\<close>

datatype event = Put "u8 list" | Get "u8 list"

primrec history :: "('s \<Rightarrow> u8 list \<Rightarrow> 's \<Rightarrow> bool) \<Rightarrow> ('s \<Rightarrow> u8 list \<Rightarrow> 's \<Rightarrow> bool) \<Rightarrow> 's \<Rightarrow> event list \<Rightarrow> 's \<Rightarrow> bool" where
  "history put get s [] s' \<longleftrightarrow> s = s'"
| "history put get s (ev # evs) s' \<longleftrightarrow>
     (\<exists>t. (case ev of Put xs \<Rightarrow> put s xs t | Get xs \<Rightarrow> get s xs t) \<and> history put get t evs s')"

primrec written :: "event list \<Rightarrow> u8 list" where
  "written [] = []"
| "written (ev # evs) = (case ev of Put xs \<Rightarrow> xs | Get xs \<Rightarrow> []) @ written evs"

primrec taken :: "event list \<Rightarrow> u8 list" where
  "taken [] = []"
| "taken (ev # evs) = (case ev of Put xs \<Rightarrow> [] | Get xs \<Rightarrow> xs) @ taken evs"

locale byte_stream =
  fixes content :: "'s \<Rightarrow> u8 list"
    and put :: "'s \<Rightarrow> u8 list \<Rightarrow> 's \<Rightarrow> bool" and get :: "'s \<Rightarrow> u8 list \<Rightarrow> 's \<Rightarrow> bool"
  assumes put_law: "put s xs s' \<Longrightarrow> content s' = content s @ xs"
    and get_law: "get s xs s' \<Longrightarrow> content s = xs @ content s'"
begin

lemma fifo: "history put get s evs s' \<Longrightarrow> content s @ written evs = taken evs @ content s'"
proof (induction evs arbitrary: s)
  case (Cons ev evs)
  then obtain t where t: "case ev of Put xs \<Rightarrow> put s xs t | Get xs \<Rightarrow> get s xs t" "history put get t evs s'" by auto
  with Cons.IH [OF t(2)] put_law [of s _ t] get_law [of s _ t] show ?case
    by (cases ev) auto
qed simp

end

text \<open>The events of a ring: what \<^verbatim>\<open>ringbuffer_write\<close> and \<^verbatim>\<open>ringbuffer_read\<close> do while they hold the lock. The caller's buffer is not inside
  the ring, and a write does not exceed the 65536 positions of the index (the code has no check for a full ring).\<close>

definition ring_put :: "ringbuffer \<times> mem \<Rightarrow> u8 list \<Rightarrow> ringbuffer \<times> mem \<Rightarrow> bool" where
  "ring_put s xs s' \<longleftrightarrow> (\<exists>src n e ret e'.
     ringbuffer_write_index src n (virtual_end (fst s)) (fst s) e (snd s) = (ret, e', fst s', snd s') \<and>
     xs = bytes (snd s) src (unat n) \<and> off_ring (buffer_start (fst s)) src (unat n) \<and>
     rb_flags (fst s) AND RINGBUFFER_OPTIMIZE_USHORTINT \<noteq> 0 \<and>
     length (rb_content (fst s) (snd s)) + unat n \<le> 65536)"

definition ring_get :: "ringbuffer \<times> mem \<Rightarrow> u8 list \<Rightarrow> ringbuffer \<times> mem \<Rightarrow> bool" where
  "ring_get s xs s' \<longleftrightarrow> (\<exists>dest n e ret e'.
     ringbuffer_read_index dest n (virtual_begin (fst s)) (fst s) e (snd s) = (ret, e', fst s', snd s') \<and>
     xs = bytes (snd s') dest (nat ret) \<and> off_ring (buffer_start (fst s)) dest (unat n) \<and>
     rb_flags (fst s) AND RINGBUFFER_OPTIMIZE_USHORTINT \<noteq> 0 \<and>
     length (rb_content (fst s) (snd s)) \<le> 65536)"

lemma read_amount_le: "read_amount n rb m \<le> unat n"
  by (auto simp: read_amount_def word_less_nat_alt)

lemma off_ring_mono: "off_ring bs p n \<Longrightarrow> k \<le> n \<Longrightarrow> off_ring bs p k"
  by (simp add: off_ring_def)

lemma ring_put_law: "ring_put s xs s' \<Longrightarrow> rb_content (fst s') (snd s') = rb_content (fst s) (snd s) @ xs"
proof -
  assume "ring_put s xs s'"
  then obtain src n e ret e' where p: "ringbuffer_write_index src n (virtual_end (fst s)) (fst s) e (snd s) = (ret, e', fst s', snd s')"
     "xs = bytes (snd s) src (unat n)" "off_ring (buffer_start (fst s)) src (unat n)"
     "rb_flags (fst s) AND RINGBUFFER_OPTIMIZE_USHORTINT \<noteq> 0"
     "length (rb_content (fst s) (snd s)) + unat n \<le> 65536" unfolding ring_put_def by blast
  from ringbuffer_write_index_appends [OF p(4,3,5), of e] p(1,2) show ?thesis by auto
qed

lemma ring_get_law: "ring_get s xs s' \<Longrightarrow> rb_content (fst s) (snd s) = xs @ rb_content (fst s') (snd s')"
proof -
  assume "ring_get s xs s'"
  then obtain dest n e ret e' where p: "ringbuffer_read_index dest n (virtual_begin (fst s)) (fst s) e (snd s) = (ret, e', fst s', snd s')"
     "xs = bytes (snd s') dest (nat ret)" "off_ring (buffer_start (fst s)) dest (unat n)"
     "rb_flags (fst s) AND RINGBUFFER_OPTIMIZE_USHORTINT \<noteq> 0"
     "length (rb_content (fst s) (snd s)) \<le> 65536" unfolding ring_get_def by blast
  from ringbuffer_read_index_takes [OF p(4) off_ring_mono [OF p(3) read_amount_le] p(5), of e] p(1,2)
  show ?thesis by auto
qed

interpretation ring_stream: byte_stream "\<lambda>s. rb_content (fst s) (snd s)" ring_put ring_get
  by unfold_locales (auto intro: ring_put_law ring_get_law)

subsection \<open>Properties\<close>

text \<open>C13. The ring buffer is a first-in first-out channel under its lock. Over any interleaving of the accesses that \<^verbatim>\<open>ringbuffer_write\<close> makes at
  \<^verbatim>\<open>virtual_end\<close> and \<^verbatim>\<open>ringbuffer_read\<close> at \<^verbatim>\<open>virtual_begin\<close>, in the 16-bit index mode of pipes, with the callers' buffers outside of the ring and
  each write within its 65536 positions, the bytes in the ring at the start followed by all bytes written are exactly all bytes read
  followed by the bytes still in the ring: nothing is lost, duplicated or reordered.\<close>

theorem ring_fifo:
  assumes "history ring_put ring_get (rb, m) evs (rb', m')"
  shows "rb_content rb m @ written evs = taken evs @ rb_content rb' m'"
  using ring_stream.fifo [OF assms] by simp

definition rb0 :: ringbuffer where
  "rb0 = \<lparr>rb_size = USHRT_MAX, virtual_end = 0, virtual_begin = 0, buffer_start = 0x100000,
     buffer_end = 0x10FFFF, rb_cursize = 0, rb_locked = 0, rb_flags = RINGBUFFER_OPTIMIZE_USHORTINT\<rparr>"

lemma rb0_off_ring: "off_ring (buffer_start rb0) 0x1000 n" if "n \<le> 0x1000" for n
proof -
  have "0x1000 + of_nat i \<noteq> ring_at 0x100000 x" if "i < n" for i x
  proof
    assume a: "0x1000 + of_nat i = ring_at 0x100000 x"
    have "unat x < 2 ^ 16" using unsigned_less [of x] by simp
    then have "unat (ring_at 0x100000 x) = 0x100000 + unat x"
      by (simp add: ring_at_def unat_plus_nowrap unat_ucast_u16)
    moreover have "unat (0x1000 + of_nat i :: addr) = 0x1000 + i"
      using that \<open>n \<le> 0x1000\<close> unat_offset [of "0x1000" i] by simp
    ultimately show False using a that \<open>n \<le> 0x1000\<close> by simp
  qed
  then show ?thesis by (simp add: off_ring_def rb0_def)
qed

lemma bytes_2: "bytes m p 2 = [m p, m (p + 1)]"
  by (simp add: bytes_def numeral_2_eq_2)

text \<open>Two bytes are written, then read into another buffer.\<close>

theorem ring_fifo_witness:
  "\<exists>rb1 m1 rb2 m2. history ring_put ring_get (rb0, \<lambda>_. 0x61) [Put [0x61, 0x61], Get [0x61, 0x61]] (rb2, m2) \<and>
     ring_put (rb0, \<lambda>_. 0x61) [0x61, 0x61] (rb1, m1) \<and> rb_content rb1 m1 = [0x61, 0x61] \<and> rb_content rb2 m2 = []"
proof -
  let ?m = "\<lambda>_. 0x61 :: u8"
  have e: "rb_content rb0 ?m = []" by (simp add: rb0_def rb_content_def ring_def)
  have o: "off_ring (buffer_start rb0) 0x1000 (unat (2 :: u32))" by (rule rb0_off_ring) simp
  have fl: "rb_flags rb0 AND RINGBUFFER_OPTIMIZE_USHORTINT \<noteq> 0" by (simp add: rb0_def)
  obtain rb1 m1 where w: "ringbuffer_write_index 0x1000 2 (virtual_end rb0) rb0 0 ?m = (2, 0, rb1, m1)"
    "rb_content rb1 m1 = [0x61, 0x61]" "rb_cursize rb1 = 0" "buffer_start rb1 = buffer_start rb0" "rb_flags rb1 = rb_flags rb0"
    using ringbuffer_write_index_appends [OF fl o, of ?m 0] e by (auto simp: bytes_2 rb0_def)
  have p: "ring_put (rb0, ?m) [0x61, 0x61] (rb1, m1)" unfolding ring_put_def
    using w(1) o fl e by (intro exI [of _ "0x1000"] exI [of _ 2] exI [of _ 0]) (auto simp: bytes_2)
  have a: "read_amount 2 rb1 m1 = 2" by (simp add: read_amount_def w)
  obtain rb2 m2 where r: "ringbuffer_read_index 0x1000 2 (virtual_begin rb1) rb1 0 m1 = (2, 0, rb2, m2)" "bytes m2 0x1000 2 = [0x61, 0x61]"
    using ringbuffer_read_index_takes [of rb1 "0x1000" 2 m1 0] fl o w a by auto
  have g: "ring_get (rb1, m1) [0x61, 0x61] (rb2, m2)" unfolding ring_get_def
    using r o fl w by (intro exI [of _ "0x1000"] exI [of _ 2] exI [of _ 0]) auto
  have h: "history ring_put ring_get (rb0, ?m) [Put [0x61, 0x61], Get [0x61, 0x61]] (rb2, m2)" using p g by auto
  from ring_fifo [OF h] e have "rb_content rb2 m2 = []" by simp
  with h p w(2) show ?thesis by blast
qed

text \<open>The sixteen-bit index runs one byte past the buffer. \<^verbatim>\<open>create_ringbuffer\<close> allocates 65535 bytes, but stream
  position 65535 is stored at \<^verbatim>\<open>buffer_end\<close>: writing the byte at that position overwrites the first byte after the
  allocated block, which is the header of the next heap block.\<close>

theorem ringbuffer_writes_past_end:
  assumes "create_ringbuffer sz RINGBUFFER_OPTIMIZE_USHORTINT k = Some (c, rb, k')"
    and "off_ring (buffer_start rb) src 1"
  shows "rb_size rb = 65535 \<and> buffer_end rb = buffer_start rb + rb_size rb \<and>
    (\<exists>rb' m'. ringbuffer_write_index src 1 0xFFFF rb e m = (1, e, rb', m') \<and> m' (buffer_end rb) = m src)"
proof -
  from assms(1) have rb: "rb_size rb = 65535" "buffer_end rb = buffer_start rb + 0xFFFF" "rb_flags rb = 1"
    by (auto simp: create_ringbuffer_def Let_def elim!: bind_SomeE split: prod.splits)
  have "ring_at (buffer_start rb) 0xFFFF = buffer_end rb" by (simp add: ring_at_def rb)
  with rb show ?thesis
    by (auto simp: ringbuffer_write_index_def Let_def split: prod.splits)
qed

lemma create_ringbuffer_kmem1:
  "\<exists>rb k'. create_ringbuffer 0 1 kmem1 = Some (0xC000000C, rb, k') \<and> buffer_start rb = 0xC0000038"
proof -
  let ?h1 = "akheap0\<lparr>a_cur := 44, a_used := [(0xC0000000, 32)]\<rparr>"
  have g1: "a_get_free 32 False akheap0 = Some (0xC0000000, ?h1)"
    by (simp add: a_get_free_def a_expand_def akheap0_def req_def Let_def)
  have g2: "\<exists>h2. a_get_free 65535 False ?h1 = Some (0xC000002C, h2)"
    by (simp add: a_get_free_def a_expand_def akheap0_def req_def Let_def)
  have nz: "kernel_heap kmem1 \<noteq> 0" by (simp add: kmem1_def)
  from alloc_ok [OF heap_ok_kmem1, of 32 False] g1 nz obtain k1 where
    k1: "kmalloc 32 kmem1 = Some (0xC000000C, k1)" "heap_ok (kernel_heap k1) ?h1 k1" "kernel_heap k1 \<noteq> 0"
    by (auto simp: kmalloc_def kmalloc_base_def)
  from alloc_ok [OF k1(2), of 65535 False] g2 k1(3) obtain k2 where
    "kmalloc 65535 k1 = Some (0xC0000038, k2)" by (auto simp: kmalloc_def kmalloc_base_def)
  with k1(1) show ?thesis by (simp add: create_ringbuffer_def Let_def)
qed

theorem ringbuffer_writes_past_end_witness:
  "\<exists>rb k' rb' m'. create_ringbuffer 0 1 kmem1 = Some (0xC000000C, rb, k') \<and>
     ringbuffer_write_index 0x1000 1 0xFFFF rb 0 (\<lambda>_. 7) = (1, 0, rb', m') \<and> m' (buffer_end rb) = 7"
proof -
  from create_ringbuffer_kmem1 obtain rb k' where
    c: "create_ringbuffer 0 1 kmem1 = Some (0xC000000C, rb, k')" "buffer_start rb = 0xC0000038" by blast
  have "0x1000 \<noteq> ring_at 0xC0000038 x" for x
  proof
    assume a: "0x1000 = ring_at 0xC0000038 x"
    have "unat x < 2 ^ 16" using unsigned_less [of x] by simp
    then have "unat (ring_at 0xC0000038 x) = 0xC0000038 + unat x"
      by (simp add: ring_at_def unat_plus_nowrap unat_ucast_u16)
    then have "unat (0x1000 :: addr) = 0xC0000038 + unat x" by (simp only: a)
    then show False by simp
  qed
  then have "off_ring (buffer_start rb) 0x1000 1" by (simp add: off_ring_def c(2))
  from ringbuffer_writes_past_end [OF c(1) this, of 0 "\<lambda>_. 7"] c(1) show ?thesis by auto
qed

text \<open>The spin lock does not exclude anyone. \<^verbatim>\<open>spinlock_lock\<close> always returns with the lock word set, also when the
  lock is already held: it takes the old value returned by \<^verbatim>\<open>cmpxchg\<close> for a success flag.\<close>

theorem spinlock_lock_never_waits:
  "spinlock_lock 0 = Some 1 \<and> spinlock_lock 1 = Some 1"
  by (simp add: spinlock_lock_0 spinlock_lock_1)

end
