(* ===== verification/Ds_Queue.thy ===== *)
theory Ds_Queue
  imports Ds_Ringbuffer
begin

text \<open>
  The bounded queue of pointers (\<^verbatim>\<open>kernel/yanix/ds/queue.c\<close>) that sockets and network devices use. The elements are
  32-bit words of byte memory, moved down by \<^verbatim>\<open>memcpy\<close> after every removal. The lemmas show that, on a queue whose lock
  word is 0, the operations are those of a bounded list; the interface \<open>bounded_queue\<close> is interpreted on them.
\<close>

record queue =
  q_buffer :: addr
  q_size :: u32
  q_capacity :: u32
  q_lock :: u32

abbreviation (input) "QUEUE_DEFAULT_SIZE \<equiv> (128 :: u32)"
abbreviation (input) "SIZEOF_QUEUE \<equiv> (16 :: u32)"

partial_function (option) queue_lock :: "queue \<Rightarrow> queue option" where
  "queue_lock q =
     (if q_lock q \<noteq> 0 then
        let (r, l) = atomic_test_and_set (q_lock q) 1; q = q\<lparr>q_lock := l\<rparr> in
        if r \<noteq> 0 then queue_lock q else Some q
      else Some q)"

definition queue_unlock :: "queue \<Rightarrow> queue" where
  "queue_unlock q = q\<lparr>q_lock := 0\<rparr>"

definition queue_create :: "u32 \<Rightarrow> kmem \<Rightarrow> (addr \<times> queue \<times> kmem) option" where
  "queue_create sz k =
     (let sz = (if sz = -1 then QUEUE_DEFAULT_SIZE else sz) in do {
      (q, k) \<leftarrow> kmalloc SIZEOF_QUEUE k;
      (buf, k) \<leftarrow> kmalloc (sz * 4) k;
      Some (q, \<lparr>q_buffer = buf, q_size = 0, q_capacity = sz, q_lock = 0\<rparr>, k) })"

definition queue_pop :: "queue \<times> mem \<Rightarrow> (addr \<times> queue \<times> mem) option" where
  "queue_pop = (\<lambda>(q, m). do {
     q \<leftarrow> queue_lock q;
     if q_size q = 0 then Some (0, q, m)
     else
       let q = q\<lparr>q_size := q_size q - 1\<rparr>;
           element = ld32 m (q_buffer q);
           m = memcpy m (q_buffer q) (q_buffer q + 4) (4 * q_size q) in
       Some (element, queue_unlock q, m) })"

definition queue_push :: "addr \<Rightarrow> queue \<times> mem \<Rightarrow> (int \<times> queue \<times> mem) option" where
  "queue_push element = (\<lambda>(q, m). do {
     q \<leftarrow> queue_lock q;
     if q_capacity q = q_size q then Some (-1, q, m)
     else
       let m = st32 m (q_buffer q + 4 * q_size q) element;
           q = q\<lparr>q_size := q_size q + 1\<rparr>;
           ret = sint (q_size q - 1) in
       Some (ret, queue_unlock q, m) })"

subsection \<open>Words of memory\<close>

lemma ld32_st32_same [simp]: "ld32 (st32 m a v) a = v"
proof -
  have "ld32 (st32 m a v) a = ucast (ucast v :: u8) OR push_bit 8 (ucast (ucast (drop_bit 8 v) :: u8))
     OR push_bit 16 (ucast (ucast (drop_bit 16 v) :: u8)) OR push_bit 24 (ucast (ucast (drop_bit 24 v) :: u8))"
    by (simp add: ld32_def st32_def)
  also have "\<dots> = v"
  proof (rule bit_word_eqI)
    fix n
    show "bit (ucast (ucast v :: u8) OR push_bit 8 (ucast (ucast (drop_bit 8 v) :: u8))
      OR push_bit 16 (ucast (ucast (drop_bit 16 v) :: u8)) OR push_bit 24 (ucast (ucast (drop_bit 24 v) :: u8)) :: u32) n = bit v n"
      if "n < LENGTH(32)"
      using that by (cases "24 \<le> n"; cases "16 \<le> n"; cases "8 \<le> n") (auto simp: bit_simps not_less)
  qed
  finally show ?thesis .
qed

lemma ld32_cong: "(\<And>i. i < 4 \<Longrightarrow> m (a + of_nat i) = m' (a + of_nat i)) \<Longrightarrow> ld32 m a = ld32 m' a"
proof -
  assume a: "\<And>i. i < 4 \<Longrightarrow> m (a + of_nat i) = m' (a + of_nat i)"
  show ?thesis using a [of 0] a [of 1] a [of 2] a [of 3] by (simp add: ld32_def)
qed

lemma st32_outside: "\<not> inblk a 4 b \<Longrightarrow> st32 m a v b = m b"
proof -
  assume "\<not> inblk a 4 b"
  then have "b \<noteq> a + of_nat i" if "i < 4" for i using that inblkI [of i 4 a] by auto
  from this [of 0] this [of 1] this [of 2] this [of 3] show ?thesis by (simp add: st32_def)
qed

lemma unat_below:
  assumes "i < k" and "k \<le> 2 ^ 32"
  shows "unat (of_nat i - of_nat k :: addr) = 2 ^ 32 - k + i"
proof -
  have "(of_nat (2 ^ 32 - k) :: addr) = - of_nat k" using assms(2) by (simp add: of_nat_diff)
  then have "(of_nat i - of_nat k :: addr) = of_nat (2 ^ 32 - k + i)" by simp
  moreover have "unat (of_nat (2 ^ 32 - k + i) :: addr) = 2 ^ 32 - k + i"
    by (rule unat_of_nat_nowrap) (use assms in simp)
  ultimately show ?thesis by (simp only:)
qed

definition words :: "mem \<Rightarrow> addr \<Rightarrow> nat \<Rightarrow> u32 list" where
  "words m p n = map (\<lambda>i. ld32 m (p + 4 * of_nat i)) [0..<n]"

lemma length_words [simp]: "length (words m p n) = n"
  by (simp add: words_def)

lemma words_Suc: "words m p (Suc n) = ld32 m p # words m (p + 4) n"
  by (simp add: words_def upt_conv_Cons map_Suc_upt [symmetric] algebra_simps del: upt_Suc)

lemma words_snoc: "words m p (Suc n) = words m p n @ [ld32 m (p + 4 * of_nat n)]"
  by (simp add: words_def)

lemma words_cong: "(\<And>i. i < 4 * n \<Longrightarrow> m (p + of_nat i) = m' (p + of_nat i)) \<Longrightarrow> words m p n = words m' p n"
proof -
  assume a: "\<And>i. i < 4 * n \<Longrightarrow> m (p + of_nat i) = m' (p + of_nat i)"
  have "ld32 m (p + 4 * of_nat j) = ld32 m' (p + 4 * of_nat j)" if "j < n" for j
  proof (rule ld32_cong)
    fix i :: nat assume "i < 4"
    with that have "4 * j + i < 4 * n" by simp
    from a [OF this] show "m (p + 4 * of_nat j + of_nat i) = m' (p + 4 * of_nat j + of_nat i)"
      by (simp add: add.assoc)
  qed
  then show ?thesis by (simp add: words_def)
qed

lemma copy_words_shift:
  assumes "4 * n + 4 \<le> 2 ^ 32"
  shows "words (copy_words m d (d + 4) n) d n = words m (d + 4) n \<and>
    (\<forall>a. \<not> inblk d (4 * n) a \<longrightarrow> copy_words m d (d + 4) n a = m a)"
  using assms
proof (induction n arbitrary: m d)
  case (Suc n)
  define m1 where "m1 = st32 m d (ld32 m (d + 4))"
  define r where "r = copy_words m1 (d + 4) (d + 4 + 4) n"
  have IH: "words r (d + 4) n = words m1 (d + 4 + 4) n" "\<And>a. \<not> inblk (d + 4) (4 * n) a \<Longrightarrow> r a = m1 a"
    using Suc.IH [of m1 "d + 4"] Suc.prems by (auto simp: r_def)
  have out: "\<not> inblk d 4 (d + of_nat i)" if "4 \<le> i" "i < 4 * Suc n + 4" for i
    using that Suc.prems by (simp add: inblk_def unat_of_nat_nowrap)
  have "words m1 (d + 4 + 4) n = words m (d + 4 + 4) n"
  proof (rule words_cong)
    fix i assume "i < 4 * n"
    then have "\<not> inblk d 4 (d + of_nat (8 + i))" by (intro out) simp_all
    then show "m1 (d + 4 + 4 + of_nat i) = m (d + 4 + 4 + of_nat i)"
      by (simp add: m1_def st32_outside add.assoc)
  qed
  moreover have "ld32 r d = ld32 m1 d"
  proof (rule ld32_cong)
    fix i :: nat assume i: "i < 4"
    have "unat (of_nat i - 4 :: addr) = 2 ^ 32 - 4 + i" using unat_below [of i 4] i by simp
    then have "\<not> inblk (d + 4) (4 * n) (d + of_nat i)" using Suc.prems by (simp add: inblk_def)
    then show "r (d + of_nat i) = m1 (d + of_nat i)" by (rule IH(2))
  qed
  moreover have "r a = m a" if "\<not> inblk d (4 * Suc n) a" for a
  proof -
    have "\<not> inblk d 4 a" using that by (auto simp: inblk_def)
    moreover have "\<not> inblk (d + 4) (4 * n) a"
    proof
      assume "inblk (d + 4) (4 * n) a"
      then obtain k where "k < 4 * n" "a = d + 4 + of_nat k" by (rule inblkE)
      then have "a = d + of_nat (4 + k)" "4 + k < 4 * Suc n" by simp_all
      with that inblkI [of "4 + k" "4 * Suc n" d] Suc.prems show False by simp
    qed
    ultimately show ?thesis by (simp add: IH(2) m1_def st32_outside)
  qed
  moreover have "copy_words m d (d + 4) (Suc n) = r" by (simp add: r_def m1_def)
  ultimately show ?case by (simp only: words_Suc IH(1)) (simp add: m1_def)
qed (simp add: words_def)

subsection \<open>The interface of a bounded queue\<close>

primrec push_all :: "('e \<Rightarrow> 's \<Rightarrow> (int \<times> 's) option) \<Rightarrow> 'e list \<Rightarrow> 's \<Rightarrow> 's option" where
  "push_all push [] s = Some s"
| "push_all push (x # xs) s = do { (_, s) \<leftarrow> push x s; push_all push xs s }"

primrec pop_all :: "('s \<Rightarrow> ('e \<times> 's) option) \<Rightarrow> nat \<Rightarrow> 's \<Rightarrow> ('e list \<times> 's) option" where
  "pop_all pop 0 s = Some ([], s)"
| "pop_all pop (Suc n) s = do { (x, s) \<leftarrow> pop s; (xs, s) \<leftarrow> pop_all pop n s; Some (x # xs, s) }"

locale bounded_queue =
  fixes ok :: "'s \<Rightarrow> bool" and cap :: "'s \<Rightarrow> nat" and content :: "'s \<Rightarrow> 'e list"
    and push :: "'e \<Rightarrow> 's \<Rightarrow> (int \<times> 's) option" and pop :: "'s \<Rightarrow> ('e \<times> 's) option"
  assumes push_space: "ok s \<Longrightarrow> length (content s) < cap s \<Longrightarrow>
      \<exists>s'. push x s = Some (int (length (content s)), s') \<and> ok s' \<and> cap s' = cap s \<and> content s' = content s @ [x]"
    and pop_some: "ok s \<Longrightarrow> content s = x # xs \<Longrightarrow> \<exists>s'. pop s = Some (x, s') \<and> ok s' \<and> cap s' = cap s \<and> content s' = xs"
begin

lemma push_all_content:
  "ok s \<Longrightarrow> length (content s) + length xs \<le> cap s \<Longrightarrow>
    \<exists>s'. push_all push xs s = Some s' \<and> ok s' \<and> cap s' = cap s \<and> content s' = content s @ xs"
proof (induction xs arbitrary: s)
  case (Cons x xs)
  from push_space [OF Cons.prems(1), of x] Cons.prems(2) obtain s1 where
    s1: "push x s = Some (int (length (content s)), s1)" "ok s1" "cap s1 = cap s" "content s1 = content s @ [x]" by auto
  with Cons.IH [OF s1(2)] Cons.prems(2) show ?case by auto
qed simp

lemma pop_all_content:
  "ok s \<Longrightarrow> content s = xs @ ys \<Longrightarrow> \<exists>s'. pop_all pop (length xs) s = Some (xs, s') \<and> ok s' \<and> cap s' = cap s \<and> content s' = ys"
proof (induction xs arbitrary: s)
  case (Cons x xs)
  from pop_some [OF Cons.prems(1)] Cons.prems(2) obtain s1 where
    s1: "pop s = Some (x, s1)" "ok s1" "cap s1 = cap s" "content s1 = xs @ ys" by force
  with Cons.IH [OF s1(2) s1(4)] show ?case by auto
qed simp

lemma fifo:
  assumes "ok s" and "length (content s) + length xs \<le> cap s"
  shows "\<exists>s1 s2. push_all push xs s = Some s1 \<and>
    pop_all pop (length (content s @ xs)) s1 = Some (content s @ xs, s2) \<and> ok s2 \<and> content s2 = []"
  using push_all_content [OF assms] pop_all_content [where ys = "[]"] by fastforce

end

subsection \<open>The queue as a bounded list\<close>

definition queue_ok :: "queue \<times> mem \<Rightarrow> bool" where
  "queue_ok = (\<lambda>(q, m). q_lock q = 0 \<and> q_size q \<le> q_capacity q \<and> unat (q_capacity q) < 2 ^ 29)"

definition queue_content :: "queue \<times> mem \<Rightarrow> addr list" where
  "queue_content = (\<lambda>(q, m). words m (q_buffer q) (unat (q_size q)))"

definition queue_cap :: "queue \<times> mem \<Rightarrow> nat" where
  "queue_cap = (\<lambda>(q, m). unat (q_capacity q))"

lemma queue_lock_free: "q_lock q = 0 \<Longrightarrow> queue_lock q = Some q"
  by (simp add: queue_lock.simps)

lemma queue_lock_Some: "queue_lock q = Some q' \<Longrightarrow> q_lock q = 0"
  by (rule queue_lock.raw_induct [where P = "\<lambda>q _. q_lock q = 0"])
    (auto simp: atomic_test_and_set_def split: if_splits)

lemma queue_push_space:
  assumes "queue_ok (q, m)" and "unat (q_size q) < unat (q_capacity q)"
  shows "\<exists>m'. queue_push x (q, m) = Some (int (unat (q_size q)), q\<lparr>q_size := q_size q + 1\<rparr>, m') \<and>
    words m' (q_buffer q) (Suc (unat (q_size q))) = words m (q_buffer q) (unat (q_size q)) @ [x]"
proof -
  define n where "n = unat (q_size q)"
  define a where "a = q_buffer q + 4 * of_nat n"
  have n: "n < 2 ^ 29" "q_size q = of_nat n" using assms by (simp_all add: n_def queue_ok_def)
  have "words (st32 m a x) (q_buffer q) n = words m (q_buffer q) n"
  proof (rule words_cong)
    fix i assume i: "i < 4 * n"
    have "unat (of_nat i - 4 * of_nat n :: addr) = 2 ^ 32 - 4 * n + i" using unat_below [of i "4 * n"] i n by simp
    then have "\<not> inblk a 4 (q_buffer q + of_nat i)" using n by (simp add: inblk_def a_def)
    then show "st32 m a x (q_buffer q + of_nat i) = m (q_buffer q + of_nat i)" by (rule st32_outside)
  qed
  moreover have "uint (q_size q) = int n" by (simp add: n_def)
  then have "sint (q_size q) = int n" using n(1) by (simp add: sint_uint signed_take_bit_int_eq_self_iff)
  moreover have "q_capacity q \<noteq> q_size q" using assms(2) by auto
  moreover have "unat (of_nat n :: u32) = n" "uint (of_nat n :: u32) = int n" by (simp_all add: n_def)
  ultimately show ?thesis using assms(1)
    by (simp add: queue_push_def queue_ok_def queue_lock_free queue_unlock_def words_snoc a_def n(2))
qed

lemma queue_pop_some:
  assumes "queue_ok (q, m)" and "unat (q_size q) = Suc n"
  shows "\<exists>m'. queue_pop (q, m) = Some (ld32 m (q_buffer q), q\<lparr>q_size := of_nat n\<rparr>, m') \<and>
    words m' (q_buffer q) n = words m (q_buffer q + 4) n"
proof -
  have s: "q_size q = of_nat (Suc n)" by (simp flip: assms(2) del: of_nat_Suc)
  have n: "n < 2 ^ 29" using assms by (simp add: queue_ok_def word_le_nat_alt)
  then have "unat (4 * of_nat n :: u32) = 4 * n" using unat_of_nat_nowrap [of "4 * n", where ?'a = 32] by simp
  then have "memcpy m (q_buffer q) (q_buffer q + 4) (4 * of_nat n) = copy_words m (q_buffer q) (q_buffer q + 4) n"
    using n by (simp add: memcpy_def Let_def unat_div unat_mod)
  moreover have "words (copy_words m (q_buffer q) (q_buffer q + 4) n) (q_buffer q) n = words m (q_buffer q + 4) n"
    using copy_words_shift [of n m "q_buffer q"] n by simp
  moreover have "q_size q \<noteq> 0" using assms(2) by auto
  ultimately show ?thesis using assms(1)
    by (simp add: queue_pop_def queue_ok_def queue_lock_free queue_unlock_def s)
qed

interpretation kqueue: bounded_queue queue_ok queue_cap queue_content queue_push queue_pop
proof
  fix s :: "queue \<times> mem" and x
  assume a: "queue_ok s" "length (queue_content s) < queue_cap s"
  obtain q m where s: "s = (q, m)" by force
  with a have l: "unat (q_size q) < unat (q_capacity q)" by (simp add: queue_content_def queue_cap_def)
  then have "unat (q_size q + 1) = Suc (unat (q_size q))" using unat_u32_less [of "q_capacity q"] by (simp add: unat_plus_nowrap)
  with queue_push_space [of q m x] a l
  show "\<exists>s'. queue_push x s = Some (int (length (queue_content s)), s') \<and> queue_ok s' \<and> queue_cap s' = queue_cap s \<and>
    queue_content s' = queue_content s @ [x]"
    by (auto simp: s queue_content_def queue_cap_def queue_ok_def word_le_nat_alt)
next
  fix s :: "queue \<times> mem" and x xs
  assume a: "queue_ok s" "queue_content s = x # xs"
  obtain q m where s: "s = (q, m)" by force
  with a(2) obtain n where n: "unat (q_size q) = Suc n" by (cases "unat (q_size q)") (auto simp: queue_content_def words_def)
  then have "unat (of_nat n :: u32) = n" using unat_u32_less [of "q_size q"] by (simp add: unat_of_nat_nowrap)
  with queue_pop_some [of q m n] a n
  show "\<exists>s'. queue_pop s = Some (x, s') \<and> queue_ok s' \<and> queue_cap s' = queue_cap s \<and> queue_content s' = xs"
    by (auto simp: s queue_content_def queue_cap_def queue_ok_def word_le_nat_alt words_Suc)
qed

subsection \<open>Properties\<close>

text \<open>C27. The queue is first in, first out: the elements pushed into a queue with room for them come back, behind those it
  already held, in the order of the pushes, and leave it empty.\<close>

theorem queue_fifo:
  assumes "queue_ok s" and "length (queue_content s) + length xs \<le> queue_cap s"
  shows "\<exists>s1 s2. push_all queue_push xs s = Some s1 \<and>
    pop_all queue_pop (length (queue_content s @ xs)) s1 = Some (queue_content s @ xs, s2) \<and> queue_ok s2 \<and> queue_content s2 = []"
  using assms by (rule kqueue.fifo)

theorem queue_fifo_witness:
  "\<exists>s1 s2. push_all queue_push [7, 8, 9] (\<lparr>q_buffer = 0x1000, q_size = 0, q_capacity = 4, q_lock = 0\<rparr>, \<lambda>_. 0) = Some s1 \<and>
     pop_all queue_pop 3 s1 = Some ([7, 8, 9], s2) \<and> queue_ok s2 \<and> queue_content s2 = []"
  using queue_fifo [of "(\<lparr>q_buffer = 0x1000, q_size = 0, q_capacity = 4, q_lock = 0\<rparr>, \<lambda>_. 0)" "[7, 8, 9]"]
  by (simp add: queue_ok_def queue_content_def queue_cap_def words_def numeral_3_eq_3 del: push_all.simps pop_all.simps)

text \<open>The ends of the queue: a pop from an empty queue is a null pointer and a push into a full one is -1, and both change
  nothing.\<close>

theorem queue_limits:
  assumes "q_lock q = 0"
  shows "(q_size q = 0 \<longrightarrow> queue_pop (q, m) = Some (0, q, m)) \<and>
    (q_size q = q_capacity q \<longrightarrow> queue_push x (q, m) = Some (-1, q, m))"
  using assms by (simp_all add: queue_pop_def queue_push_def queue_lock_free)

theorem queue_limits_witness:
  "queue_pop (\<lparr>q_buffer = 0x1000, q_size = 0, q_capacity = 0, q_lock = 0\<rparr>, \<lambda>_. 0) =
     Some (0, \<lparr>q_buffer = 0x1000, q_size = 0, q_capacity = 0, q_lock = 0\<rparr>, \<lambda>_. 0)"
  using queue_limits [of "\<lparr>q_buffer = 0x1000, q_size = 0, q_capacity = 0, q_lock = 0\<rparr>" "\<lambda>_. 0"] by simp

text \<open>The lock excludes nobody and can only hang: taking it leaves a free lock free, so a second context gets it as well, and
  never returns once the lock word is set.\<close>

theorem queue_lock_no_exclusion: "queue_lock q = (if q_lock q = 0 then Some q else None)"
  by (cases "queue_lock q") (auto simp: queue_lock_free dest: queue_lock_Some)

end
