(* ===== verification/Libk_Math.thy ===== *)
theory Libk_Math
  imports Yanix_Prelude "HOL-Library.Signed_Division"
begin

text \<open>
  The integer routines of \<^verbatim>\<open>kernel/libk/math/math.c\<close> and \<^verbatim>\<open>kernel/libk/bit/bit.c\<close>. Division is C's, towards zero.
  \<open>None\<close> is the signed overflow of a negation and the division by zero; the product of \<^verbatim>\<open>pow\<close> wraps at 32 bits.
  The floating point routines are left out.
\<close>

definition flip_int :: "int \<Rightarrow> int option" where
  "flip_int n = (if n = - (2 ^ 31) then None else Some (- n))"

definition abs_int :: "int \<Rightarrow> int option" where
  "abs_int n = (if n < 0 then if n = - (2 ^ 31) then None else Some (- n) else Some n)"

primrec pow_loop :: "u32 \<Rightarrow> u32 \<Rightarrow> nat \<Rightarrow> u32" where
  "pow_loop x r 0 = r"
| "pow_loop x r (Suc n) = pow_loop x (r * x) n"

definition pow_int :: "u32 \<Rightarrow> int \<Rightarrow> u32" where
  "pow_int x n = pow_loop x x (nat (n - 1))"

definition swap_int :: "int \<times> int \<Rightarrow> int \<times> int" where
  "swap_int = (\<lambda>(a, b). (b, a))"

definition roundup :: "int \<Rightarrow> int \<Rightarrow> int option" where
  "roundup x y = (if y = 0 then None else Some (if x smod y = 0 then x sdiv y else x sdiv y + 1))"

definition getbit :: "u32 \<Rightarrow> nat \<Rightarrow> u32" where
  "getbit n k = signed_drop_bit k (n AND push_bit k 1)"

lemma pow_loop_power: "pow_loop x r n = r * x ^ n"
  by (induction n arbitrary: r) (simp_all add: mult.assoc)

text \<open>\<^verbatim>\<open>roundup\<close> is the quotient rounded up: for a non-negative dividend and a positive divisor it is the least
  integer whose multiple by the divisor reaches the dividend.\<close>

theorem roundup_ceiling:
  assumes "0 \<le> x" and "0 < y"
  shows "\<exists>q. roundup x y = Some q \<and> x \<le> q * y \<and> (q - 1) * y < x + (if x = 0 then 1 else 0)"
proof -
  have e: "x sdiv y = x div y" "x smod y = x mod y"
    using assms by (simp_all add: signed_divide_int_def signed_modulo_int_def sgn_if minus_div_mult_eq_mod [symmetric])
  have d: "x = x div y * y + x mod y" "0 \<le> x mod y" "x mod y < y" using assms by simp_all
  show ?thesis
  proof (cases "x mod y = 0")
    case True
    with d(1) assms show ?thesis by (auto simp: roundup_def e algebra_simps)
  next
    case False
    with d have "x div y * y < x" "x < x div y * y + y" by linarith+
    then have "x \<le> (x div y + 1) * y" "x div y * y < x" by (simp_all add: distrib_right)
    with False assms show ?thesis by (simp add: roundup_def e)
  qed
qed

theorem roundup_ceiling_witness: "\<exists>q. roundup 17 8 = Some q \<and> 17 \<le> q * 8 \<and> (q - 1) * 8 < 17"
  using roundup_ceiling [of 17 8] by simp

text \<open>\<^verbatim>\<open>pow\<close> is the power for positive exponents only: exponent 0 gives the base.\<close>

lemma pow_int_positive: "0 < n \<Longrightarrow> pow_int x n = x ^ nat n"
proof -
  assume "0 < n"
  then have "nat n = Suc (nat (n - 1))" by simp
  then show ?thesis by (simp add: pow_int_def pow_loop_power)
qed

lemma pow_int_zero: "pow_int x 0 = x"
  by (simp add: pow_int_def)

end
