(* ===== verification/Fs_Descriptor.thy ===== *)
theory Fs_Descriptor
  imports Ds_Queue Libk_Math
begin

text \<open>
  The growing vector of file descriptors of a task (\<^verbatim>\<open>kernel/yanix/ds/fd_vector.c\<close>) and the descriptor operations on the
  current task (\<^verbatim>\<open>kernel/fs/filedescriptor.c\<close>).

  The entries of a vector are a list of as many elements as the buffer has room for; the addresses of the buffer and of
  the structure come from \<^verbatim>\<open>kmalloc\<close>. A pointer to an entry is its index. \<open>None\<close> is an access outside the buffer, a null
  pointer, or a size whose byte count does not fit into 32 bits.
\<close>

record file_descriptor =
  fd_node :: addr
  fd_mode :: u16
  fd_flags :: u32
  fd_seek :: int
  fd_lock_index :: int

record vector =
  vec_self :: addr
  vector_buffer :: addr
  vector_fds :: "file_descriptor list"
  vector_size :: int
  vector_maxsize :: int

abbreviation (input) "VECTOR_BEGIN_AMOUNT \<equiv> (8 :: int)"
abbreviation (input) "SIZEOF_VECTOR \<equiv> (12 :: u32)"
abbreviation (input) "SIZEOF_FD \<equiv> (20 :: int)"

definition fd_zero :: file_descriptor where
  "fd_zero = \<lparr>fd_node = 0, fd_mode = 0, fd_flags = 0, fd_seek = 0, fd_lock_index = 0\<rparr>"

subsection \<open>The vector\<close>

definition vector_create :: "kmem \<Rightarrow> (vector option \<times> kmem) option" where
  "vector_create k = do {
     (vec, k) \<leftarrow> kmalloc SIZEOF_VECTOR k;
     if vec = 0 then Some (None, k)
     else do {
       (buf, k) \<leftarrow> kmalloc (of_int (SIZEOF_FD * VECTOR_BEGIN_AMOUNT)) k;
       if buf = 0 then Some (None, k)
       else Some (Some \<lparr>vec_self = vec, vector_buffer = buf, vector_fds = replicate (nat VECTOR_BEGIN_AMOUNT) fd_zero,
         vector_size = 0, vector_maxsize = VECTOR_BEGIN_AMOUNT\<rparr>, k) } }"

definition vector_copy :: "vector \<Rightarrow> kmem \<Rightarrow> (vector option \<times> kmem) option" where
  "vector_copy cp k = do {
     (vec, k) \<leftarrow> kmalloc SIZEOF_VECTOR k;
     if vec = 0 then Some (None, k)
     else if SIZEOF_FD * vector_maxsize cp \<ge> 2 ^ 32 then None
     else do {
       (buf, k) \<leftarrow> kmalloc (of_int (SIZEOF_FD * vector_maxsize cp)) k;
       if buf = 0 then Some (None, k)
       else Some (Some \<lparr>vec_self = vec, vector_buffer = buf, vector_fds = take (nat (vector_maxsize cp)) (vector_fds cp),
         vector_size = vector_size cp, vector_maxsize = vector_maxsize cp\<rparr>, k) } }"

definition vector_expand :: "int \<Rightarrow> vector \<Rightarrow> kmem \<Rightarrow> (int \<times> vector \<times> kmem) option" where
  "vector_expand amount vec k =
     (let newsize = vector_maxsize vec * amount in
      if SIZEOF_FD * newsize \<ge> 2 ^ 32 \<or> newsize < 0 then None
      else do {
        (tmp, k) \<leftarrow> kmalloc (of_int (SIZEOF_FD * newsize)) k;
        if tmp = 0 then Some (-1, vec, k)
        else if newsize < vector_maxsize vec then None
        else do {
          (_, k) \<leftarrow> kfree (vector_buffer vec) k;
          Some (0, vec\<lparr>vector_buffer := tmp,
            vector_fds := vector_fds vec @ replicate (nat (newsize - vector_maxsize vec)) fd_zero,
            vector_maxsize := newsize\<rparr>, k) } })"

definition vec_store :: "int \<Rightarrow> file_descriptor \<Rightarrow> vector \<Rightarrow> vector option" where
  "vec_store i fd vec =
     (if 0 \<le> i \<and> nat i < length (vector_fds vec) then Some (vec\<lparr>vector_fds := (vector_fds vec)[nat i := fd]\<rparr>) else None)"

definition vec_load :: "int \<Rightarrow> vector \<Rightarrow> file_descriptor option" where
  "vec_load i vec = (if 0 \<le> i \<and> nat i < length (vector_fds vec) then Some (vector_fds vec ! nat i) else None)"

definition vector_push :: "file_descriptor \<Rightarrow> vector \<Rightarrow> kmem \<Rightarrow> (int \<times> vector \<times> kmem) option" where
  "vector_push fd vec k = do {
     (r, vec, k) \<leftarrow> (if vector_size vec = vector_maxsize vec then vector_expand 2 vec k else Some (0, vec, k));
     if r \<noteq> 0 then Some (-1, vec, k)
     else do {
       vec \<leftarrow> vec_store (vector_size vec) fd vec;
       let vec = vec\<lparr>vector_size := vector_size vec + 1\<rparr>;
       Some (vector_size vec - 1, vec, k) } }"

text \<open>The index of the first entry from \<open>i\<close> up to \<open>n\<close> that satisfies \<open>P\<close>: the loops of \<^verbatim>\<open>vector_add\<close>, \<^verbatim>\<open>vector_get_node\<close> and
  \<^verbatim>\<open>vector_add_from\<close>.\<close>

function vector_scan :: "(file_descriptor \<Rightarrow> bool) \<Rightarrow> vector \<Rightarrow> int \<Rightarrow> int \<Rightarrow> int option option" where
  "vector_scan P vec i n =
     (if i < n then do {
        x \<leftarrow> vec_load i vec;
        if P x then Some (Some i) else vector_scan P vec (i + 1) n }
      else Some None)"
  by pat_completeness auto
termination by (relation "measure (\<lambda>(P, vec, i, n). nat (n - i))") auto

declare vector_scan.simps [simp del]

definition vector_add :: "file_descriptor \<Rightarrow> vector \<Rightarrow> kmem \<Rightarrow> (int \<times> vector \<times> kmem) option" where
  "vector_add fd vec k = do {
     found \<leftarrow> vector_scan (\<lambda>x. fd_node x = 0) vec 0 (vector_size vec);
     case found of
       Some i \<Rightarrow> do { vec \<leftarrow> vec_store i fd vec; Some (i, vec, k) }
     | None \<Rightarrow> vector_push fd vec k }"

definition vector_clear :: "int \<Rightarrow> vector \<Rightarrow> vector option" where
  "vector_clear fd vec = do { x \<leftarrow> vec_load fd vec; vec_store fd (x\<lparr>fd_node := 0\<rparr>) vec }"

definition vector_get :: "vector option \<Rightarrow> int \<Rightarrow> int option" where
  "vector_get vec fd = (case vec of None \<Rightarrow> None | Some vec \<Rightarrow> if fd < vector_size vec then Some fd else None)"

definition vector_get_node :: "vector option \<Rightarrow> addr \<Rightarrow> int option option" where
  "vector_get_node vec node =
     (case vec of None \<Rightarrow> Some None
      | Some vec \<Rightarrow> if node = 0 then Some None else vector_scan (\<lambda>x. fd_node x = node) vec 0 (vector_size vec))"

definition vector_destroy :: "vector \<Rightarrow> kmem \<Rightarrow> (int \<times> kmem) option" where
  "vector_destroy vec k = do {
     (_, k) \<leftarrow> kfree (vector_buffer vec) k;
     (_, k) \<leftarrow> kfree (vec_self vec) k;
     Some (0, k) }"

definition vector_add_from :: "file_descriptor \<Rightarrow> int \<Rightarrow> vector \<Rightarrow> kmem \<Rightarrow> (int \<times> vector \<times> kmem) option" where
  "vector_add_from fd from vec k = do {
     (_, vec, k) \<leftarrow>
       (if from > vector_maxsize vec
        then do { a \<leftarrow> roundup from (vector_maxsize vec); vector_expand a vec k }
        else Some (0, vec, k));
     found \<leftarrow> vector_scan (\<lambda>x. fd_node x = 0) vec from (vector_maxsize vec);
     case found of
       Some i \<Rightarrow> do {
         let vec = (if i \<ge> vector_size vec then vec\<lparr>vector_size := i + 1\<rparr> else vec);
         vec \<leftarrow> vec_store i fd vec;
         Some (i, vec, k) }
     | None \<Rightarrow> vector_push fd vec k }"

definition vector_set :: "file_descriptor \<Rightarrow> int \<Rightarrow> vector \<Rightarrow> kmem \<Rightarrow> (int \<times> vector \<times> kmem) option" where
  "vector_set obj fd vec k = do {
     (_, vec, k) \<leftarrow>
       (if fd \<ge> vector_maxsize vec
        then do { a \<leftarrow> roundup fd (vector_maxsize vec); vector_expand a vec k }
        else Some (0, vec, k));
     let vec = (if fd \<ge> vector_size vec then vec\<lparr>vector_size := fd + 1\<rparr> else vec);
     vec \<leftarrow> vec_store fd obj vec;
     Some (fd, vec, k) }"

subsection \<open>File locks\<close>

record file_lock =
  lock_node :: addr
  lock_pid :: int

abbreviation (input) "GLOBAL_FILE_TABLE_SIZE \<equiv> (1024 :: nat)"
abbreviation (input) "ENFILE \<equiv> (23 :: int)"

fun lock_scan :: "addr \<Rightarrow> file_lock list \<Rightarrow> nat \<Rightarrow> nat option" where
  "lock_scan node [] i = None"
| "lock_scan node (x # xs) i = (if lock_node x = node then Some i else lock_scan node xs (i + 1))"

text \<open>The table is a list of \<^verbatim>\<open>GLOBAL_FILE_TABLE_SIZE\<close> entries; the second result is \<^verbatim>\<open>errno\<close>.\<close>

definition lock_file :: "addr \<Rightarrow> int \<Rightarrow> file_lock list \<Rightarrow> int \<Rightarrow> int \<times> int \<times> file_lock list" where
  "lock_file node pid tab e =
     (case lock_scan 0 tab 0 of
        Some i \<Rightarrow> (int i, e, tab[i := \<lparr>lock_node = node, lock_pid = pid\<rparr>])
      | None \<Rightarrow> (-1, ENFILE, tab))"

definition find_locked_file :: "addr \<Rightarrow> file_lock list \<Rightarrow> int" where
  "find_locked_file node tab = (case lock_scan node tab 0 of Some i \<Rightarrow> int i | None \<Rightarrow> -1)"

definition unlock_file :: "int \<Rightarrow> file_lock list \<Rightarrow> (int \<times> file_lock list) option" where
  "unlock_file index tab =
     (if 0 \<le> index \<and> nat index < length tab
      then Some (0, tab[nat index := (tab ! nat index)\<lparr>lock_node := 0\<rparr>]) else None)"

subsection \<open>Descriptors of the current task\<close>

text \<open>\<open>task_fds\<close> is \<open>None\<close> without a current task, and \<open>Some None\<close> when the task has no vector.\<close>

record fd_state =
  task_fds :: "vector option option"
  fd_kmem :: kmem
  fd_errno :: int

abbreviation (input) "E_CLOEXEC \<equiv> (1 :: u32)"
abbreviation (input) "EBADFD \<equiv> (77 :: int)"

text \<open>An operation on \<^verbatim>\<open>get_current_task()->fds\<close>.\<close>

definition on_fds :: "(vector \<Rightarrow> kmem \<Rightarrow> (int \<times> vector \<times> kmem) option) \<Rightarrow> fd_state \<Rightarrow> (int \<times> fd_state) option" where
  "on_fds f s =
     (case task_fds s of
        Some (Some vec) \<Rightarrow> do {
          (r, vec, k) \<leftarrow> f vec (fd_kmem s);
          Some (r, s\<lparr>task_fds := Some (Some vec), fd_kmem := k\<rparr>) }
      | _ \<Rightarrow> None)"

text \<open>\<^verbatim>\<open>lock_index\<close> of the new descriptor is not initialised by the code: \<open>li\<close> is what the stack holds.\<close>

definition register_filedescriptor :: "int \<Rightarrow> addr \<Rightarrow> u32 \<Rightarrow> u32 \<Rightarrow> fd_state \<Rightarrow> (int \<times> fd_state) option" where
  "register_filedescriptor li node flags mode s =
     on_fds (vector_add \<lparr>fd_node = node, fd_mode = ucast mode, fd_flags = flags, fd_seek = 0, fd_lock_index = li\<rparr>) s"

definition get_filedescriptor :: "int \<Rightarrow> fd_state \<Rightarrow> int option \<times> fd_state" where
  "get_filedescriptor fd s =
     (if fd < 0 then (None, s\<lparr>fd_errno := EBADFD\<rparr>)
      else case task_fds s of
        Some vec \<Rightarrow> (vector_get vec fd, s)
      | None \<Rightarrow> (None, s\<lparr>fd_errno := EBADFD\<rparr>))"

definition get_filedescriptor_from_node :: "addr \<Rightarrow> fd_state \<Rightarrow> (int option \<times> fd_state) option" where
  "get_filedescriptor_from_node node s =
     (case task_fds s of
        Some vec \<Rightarrow> do { r \<leftarrow> vector_get_node vec node; Some (r, s) }
      | None \<Rightarrow> Some (None, s\<lparr>fd_errno := EBADFD\<rparr>))"

definition fd_deref :: "int \<Rightarrow> fd_state \<Rightarrow> file_descriptor option" where
  "fd_deref p s = (case task_fds s of Some (Some vec) \<Rightarrow> vec_load p vec | _ \<Rightarrow> None)"

definition get_filedescriptor_node :: "int \<Rightarrow> fd_state \<Rightarrow> (addr \<times> fd_state) option" where
  "get_filedescriptor_node fd s =
     (let (p, s) = get_filedescriptor fd s in
      case p of None \<Rightarrow> Some (0, s) | Some p \<Rightarrow> do { x \<leftarrow> fd_deref p s; Some (fd_node x, s) })"

definition close_filedescriptor :: "int \<Rightarrow> fd_state \<Rightarrow> (int \<times> fd_state) option" where
  "close_filedescriptor fd s =
     (let (p, s) = get_filedescriptor fd s in
      case p of None \<Rightarrow> Some (0, s)
      | Some p \<Rightarrow> do {
          (_, s) \<leftarrow> on_fds (\<lambda>vec k. do { vec \<leftarrow> vector_clear fd vec; Some (0, vec, k) }) s;
          Some (0, s) })"

definition init_filedescriptors :: int where
  "init_filedescriptors = 0"

definition dup_filedescriptor :: "int \<Rightarrow> int \<Rightarrow> fd_state \<Rightarrow> (int \<times> fd_state) option" where
  "dup_filedescriptor fd from s =
     (let (p, s) = get_filedescriptor fd s in
      case p of None \<Rightarrow> Some (-1, s)
      | Some p \<Rightarrow> do {
          x \<leftarrow> fd_deref p s;
          if fd_node x = 0 then Some (-1, s)
          else if from = -1 then on_fds (vector_add x) s
          else on_fds (vector_add_from x from) s })"

definition setflags_filedescriptor :: "int \<Rightarrow> u32 \<Rightarrow> fd_state \<Rightarrow> (int \<times> fd_state) option" where
  "setflags_filedescriptor fd flags s =
     (let (p, s) = get_filedescriptor fd s in
      case p of None \<Rightarrow> Some (-1, s)
      | Some p \<Rightarrow> do {
          x \<leftarrow> fd_deref p s;
          on_fds (\<lambda>vec k. do { vec \<leftarrow> vec_store p (x\<lparr>fd_flags := flags\<rparr>) vec; Some (0, vec, k) }) s })"

primrec check_loop :: "int \<Rightarrow> nat \<Rightarrow> fd_state \<Rightarrow> fd_state option" where
  "check_loop i 0 s = Some s"
| "check_loop i (Suc n) s =
     (let (p, s) = get_filedescriptor i s in do {
      s \<leftarrow> (case p of None \<Rightarrow> Some s
        | Some p \<Rightarrow> do {
            x \<leftarrow> fd_deref p s;
            if fd_flags x AND E_CLOEXEC \<noteq> 0 then do { (_, s) \<leftarrow> close_filedescriptor i s; Some s } else Some s });
      check_loop (i + 1) n s })"

definition check_filedescriptors :: "fd_state \<Rightarrow> fd_state option" where
  "check_filedescriptors s =
     (case task_fds s of Some (Some vec) \<Rightarrow> check_loop 0 (nat (vector_size vec)) s | _ \<Rightarrow> None)"

definition dup2_filedescriptor :: "int \<Rightarrow> int \<Rightarrow> fd_state \<Rightarrow> (int \<times> fd_state) option" where
  "dup2_filedescriptor old new s =
     (let (oldfd, s) = get_filedescriptor old s in
      case oldfd of None \<Rightarrow> Some (-1, s)
      | Some oldfd \<Rightarrow> do {
          x \<leftarrow> fd_deref oldfd s;
          if fd_node x = 0 then Some (-1, s)
          else
            let (newfd, s) = get_filedescriptor new s in do {
            (_, s) \<leftarrow> (case newfd of None \<Rightarrow> Some (0, s) | Some _ \<Rightarrow> close_filedescriptor new s);
            x \<leftarrow> fd_deref oldfd s;
            on_fds (vector_set x new) s } })"

subsection \<open>The table of open descriptors\<close>

definition vector_ok :: "vector \<Rightarrow> bool" where
  "vector_ok v \<longleftrightarrow> int (length (vector_fds v)) = vector_maxsize v \<and> 0 \<le> vector_size v \<and> vector_size v \<le> vector_maxsize v \<and>
     0 < vector_maxsize v \<and>
     (\<forall>x \<in> set (drop (nat (vector_size v)) (vector_fds v)). fd_node x = 0)"

text \<open>The descriptors that are open, by number.\<close>

definition fd_lookup :: "vector \<Rightarrow> int \<rightharpoonup> file_descriptor" where
  "fd_lookup v i =
     (if 0 \<le> i \<and> i < vector_size v \<and> fd_node (vector_fds v ! nat i) \<noteq> 0 then Some (vector_fds v ! nat i) else None)"

text \<open>A full vector can double: its new buffer is allocated and the old one released.\<close>

definition can_grow :: "vector \<Rightarrow> kmem \<Rightarrow> bool" where
  "can_grow v k \<longleftrightarrow> vector_size v < vector_maxsize v \<or>
     40 * vector_maxsize v < 2 ^ 32 \<and>
     (case kmalloc (of_int (40 * vector_maxsize v)) k of
        Some (p, k1) \<Rightarrow> p \<noteq> 0 \<and> kfree (vector_buffer v) k1 \<noteq> None | None \<Rightarrow> False)"

lemma set_drop_nth: "x \<in> set (drop n xs) \<longleftrightarrow> (\<exists>j. n \<le> j \<and> j < length xs \<and> x = xs ! j)"
proof
  assume "x \<in> set (drop n xs)"
  then obtain i where "i < length (drop n xs)" "x = drop n xs ! i" by (auto simp: in_set_conv_nth)
  then show "\<exists>j. n \<le> j \<and> j < length xs \<and> x = xs ! j" by (intro exI [of _ "n + i"]) auto
next
  assume "\<exists>j. n \<le> j \<and> j < length xs \<and> x = xs ! j"
  then obtain j where "n \<le> j" "j < length xs" "x = xs ! j" by blast
  then show "x \<in> set (drop n xs)" unfolding in_set_conv_nth by (intro exI [of _ "j - n"]) auto
qed

lemma vector_ok_beyond:
  assumes "vector_ok v" and "vector_size v \<le> i" and "i < vector_maxsize v"
  shows "fd_node (vector_fds v ! nat i) = 0"
proof -
  have "nat i < length (vector_fds v)" "nat (vector_size v) \<le> nat i" using assms by (auto simp: vector_ok_def)
  then have "vector_fds v ! nat i \<in> set (drop (nat (vector_size v)) (vector_fds v))"
    by (auto simp: set_drop_nth)
  with assms(1) show ?thesis by (simp add: vector_ok_def)
qed

lemma vector_okI:
  assumes "int (length (vector_fds v)) = vector_maxsize v" "0 \<le> vector_size v" "vector_size v \<le> vector_maxsize v" "0 < vector_maxsize v"
    and "\<And>i. vector_size v \<le> i \<Longrightarrow> i < vector_maxsize v \<Longrightarrow> fd_node (vector_fds v ! nat i) = 0"
  shows "vector_ok v"
proof -
  have "fd_node x = 0" if "x \<in> set (drop (nat (vector_size v)) (vector_fds v))" for x
  proof -
    from that obtain j where "nat (vector_size v) \<le> j" "j < length (vector_fds v)" "x = vector_fds v ! j"
      by (auto simp: set_drop_nth)
    with assms(5) [of "int j"] assms(1,2) show ?thesis by auto
  qed
  with assms show ?thesis by (auto simp: vector_ok_def)
qed

lemma vector_scan_spec:
  assumes "0 \<le> i" and "n \<le> int (length (vector_fds v))"
  shows "\<exists>r. vector_scan P v i n = Some r \<and>
    (case r of
       None \<Rightarrow> (\<forall>j. i \<le> j \<and> j < n \<longrightarrow> \<not> P (vector_fds v ! nat j))
     | Some j \<Rightarrow> i \<le> j \<and> j < n \<and> P (vector_fds v ! nat j) \<and> (\<forall>l. i \<le> l \<and> l < j \<longrightarrow> \<not> P (vector_fds v ! nat l)))"
  using assms
proof (induction P v i n rule: vector_scan.induct)
  case (1 P v i n)
  show ?case
  proof (cases "i < n")
    case True
    with 1(2,3) have l: "vec_load i v = Some (vector_fds v ! nat i)" by (auto simp: vec_load_def)
    show ?thesis
    proof (cases "P (vector_fds v ! nat i)")
      case True
      with l \<open>i < n\<close> show ?thesis by (auto simp: vector_scan.simps [of P v i])
    next
      case False
      with 1(1) [OF \<open>i < n\<close> l False] 1(2,3) obtain r where r: "vector_scan P v (i + 1) n = Some r"
        "case r of None \<Rightarrow> (\<forall>j. i + 1 \<le> j \<and> j < n \<longrightarrow> \<not> P (vector_fds v ! nat j))
         | Some j \<Rightarrow> i + 1 \<le> j \<and> j < n \<and> P (vector_fds v ! nat j) \<and> (\<forall>l. i + 1 \<le> l \<and> l < j \<longrightarrow> \<not> P (vector_fds v ! nat l))"
        by auto
      have s: "i + 1 \<le> j \<or> j = i" if "i \<le> j" for j using that by linarith
      from r False l \<open>i < n\<close> show ?thesis
        by (auto simp: vector_scan.simps [of P v i] split: option.splits dest: s)
    qed
  next
    case False
    then show ?thesis by (auto simp: vector_scan.simps [of P v i])
  qed
qed

lemma fd_lookup_store:
  assumes "int (length (vector_fds v)) = vector_maxsize v" "0 \<le> i" "i < vector_maxsize v" and "fd_node x \<noteq> 0"
    and "sz = (if i < vector_size v then vector_size v else i + 1)"
    and "\<And>j. vector_size v \<le> j \<Longrightarrow> j < vector_maxsize v \<Longrightarrow> fd_node (vector_fds v ! nat j) = 0"
  shows "fd_lookup (v\<lparr>vector_fds := (vector_fds v)[nat i := x], vector_size := sz\<rparr>) = (fd_lookup v)(i \<mapsto> x)"
proof
  fix j
  show "fd_lookup (v\<lparr>vector_fds := (vector_fds v)[nat i := x], vector_size := sz\<rparr>) j = ((fd_lookup v)(i \<mapsto> x)) j"
  proof (cases "j = i")
    case True
    with assms show ?thesis by (auto simp: fd_lookup_def)
  next
    case False
    then have "0 \<le> j \<Longrightarrow> (vector_fds v)[nat i := x] ! nat j = vector_fds v ! nat j" using assms(2) by simp
    moreover have "fd_node (vector_fds v ! nat j) = 0" if "vector_size v \<le> j" "j < i"
      using that assms(3) by (intro assms(6)) auto
    ultimately show ?thesis using False assms(1-5) by (cases "j < vector_size v"; cases "j < i") (auto simp: fd_lookup_def)
  qed
qed

lemma vector_ok_store:
  assumes "vector_ok v" "0 \<le> i" "i < vector_maxsize v" "sz = (if i < vector_size v then vector_size v else i + 1)"
  shows "vector_ok (v\<lparr>vector_fds := (vector_fds v)[nat i := x], vector_size := sz\<rparr>)"
proof (rule vector_okI)
  fix j
  assume "vector_size (v\<lparr>vector_fds := (vector_fds v)[nat i := x], vector_size := sz\<rparr>) \<le> j"
    and "j < vector_maxsize (v\<lparr>vector_fds := (vector_fds v)[nat i := x], vector_size := sz\<rparr>)"
  then have "sz \<le> j" "j < vector_maxsize v" by simp_all
  with assms have "j \<noteq> i" "vector_size v \<le> j" "0 \<le> j" by (auto simp: vector_ok_def split: if_splits)
  with vector_ok_beyond [OF assms(1), of j] \<open>j < vector_maxsize v\<close> assms(2)
  show "fd_node (vector_fds (v\<lparr>vector_fds := (vector_fds v)[nat i := x], vector_size := sz\<rparr>) ! nat j) = 0" by simp
qed (use assms in \<open>auto simp: vector_ok_def\<close>)

lemma vector_expand_ok:
  assumes "vector_ok v" and "1 \<le> a" and "vector_expand a v k = Some (0, v', k')"
  shows "vector_ok v' \<and> fd_lookup v' = fd_lookup v \<and> vector_size v' = vector_size v \<and> vector_maxsize v' = a * vector_maxsize v"
proof -
  have m: "vector_maxsize v \<le> a * vector_maxsize v" using assms(1,2) by (simp add: vector_ok_def)
  then have s: "vector_size v \<le> a * vector_maxsize v" using assms(1) unfolding vector_ok_def by linarith
  from assms(3) obtain tmp where v': "v' = v\<lparr>vector_buffer := tmp,
      vector_fds := vector_fds v @ replicate (nat (vector_maxsize v * a - vector_maxsize v)) fd_zero,
      vector_maxsize := vector_maxsize v * a\<rparr>"
    by (auto simp: vector_expand_def Let_def split: if_splits elim!: bind_SomeE)
  have n: "(vector_fds v @ replicate n fd_zero) ! nat i =
      (if i < vector_maxsize v then vector_fds v ! nat i else fd_zero)"
    if "0 \<le> i" "nat i < length (vector_fds v) + n" for i n
    using that assms(1) by (auto simp: nth_append vector_ok_def)
  have "vector_ok v'"
  proof (rule vector_okI)
    fix i assume "vector_size v' \<le> i" "i < vector_maxsize v'"
    with assms(1) m n [of i] show "fd_node (vector_fds v' ! nat i) = 0"
      using vector_ok_beyond [OF assms(1), of i] by (auto simp: v' vector_ok_def fd_zero_def ac_simps)
  qed (use assms(1) m s in \<open>auto simp: v' vector_ok_def ac_simps\<close>)
  moreover have "fd_lookup v' = fd_lookup v"
    using assms(1) by (auto simp: fd_lookup_def v' vector_ok_def nth_append fun_eq_iff)
  ultimately show ?thesis by (simp add: v' ac_simps)
qed

lemma vector_push_ok:
  assumes "vector_ok v" and "fd_node x \<noteq> 0" and "can_grow v k"
  shows "\<exists>v' k'. vector_push x v k = Some (vector_size v, v', k') \<and> vector_ok v' \<and>
    fd_lookup v' = (fd_lookup v)(vector_size v \<mapsto> x) \<and>
    vector_maxsize v' = (if vector_size v < vector_maxsize v then vector_maxsize v else 2 * vector_maxsize v)"
proof -
  obtain v1 k1 where v1: "(if vector_size v = vector_maxsize v then vector_expand 2 v k else Some (0, v, k)) = Some (0, v1, k1)"
    "vector_ok v1" "fd_lookup v1 = fd_lookup v" "vector_size v1 = vector_size v" "vector_size v1 < vector_maxsize v1"
    "vector_maxsize v1 = (if vector_size v < vector_maxsize v then vector_maxsize v else 2 * vector_maxsize v)"
  proof (cases "vector_size v = vector_maxsize v")
    case True
    with assms(3) obtain p k1 r k2 where g: "40 * vector_maxsize v < 2 ^ 32"
      "kmalloc (of_int (40 * vector_maxsize v)) k = Some (p, k1)" "p \<noteq> 0" "kfree (vector_buffer v) k1 = Some (r, k2)"
      by (auto simp: can_grow_def split: option.splits)
    moreover have "0 < vector_maxsize v" using assms(1) by (simp add: vector_ok_def)
    ultimately obtain v1 where "vector_expand 2 v k = Some (0, v1, k2)"
      by (simp add: vector_expand_def Let_def ac_simps)
    with True vector_expand_ok [OF assms(1) _ this] \<open>0 < vector_maxsize v\<close> show ?thesis by (intro that [of v1 k2]) auto
  next
    case False
    with assms(1) show ?thesis by (intro that [of v k]) (auto simp: vector_ok_def)
  qed
  define i where "i = vector_size v1"
  have i: "0 \<le> i" "i < vector_maxsize v1" "int (length (vector_fds v1)) = vector_maxsize v1"
    using v1 by (auto simp: i_def vector_ok_def)
  have "vec_store i x v1 = Some (v1\<lparr>vector_fds := (vector_fds v1)[nat i := x]\<rparr>)"
    using i by (auto simp: vec_store_def)
  with v1(1) have "vector_push x v k = Some (i, v1\<lparr>vector_fds := (vector_fds v1)[nat i := x], vector_size := i + 1\<rparr>, k1)"
    by (simp add: vector_push_def i_def)
  with vector_ok_store [OF v1(2) i(1,2), of "i + 1" x] fd_lookup_store [OF i(3,1,2) assms(2), of "i + 1"]
    vector_ok_beyond [OF v1(2)] v1(3,4,6)
  show ?thesis by (auto simp: i_def)
qed

lemma vector_add_ok:
  assumes "vector_ok v" and "fd_node x \<noteq> 0" and "can_grow v k"
  shows "\<exists>i v' k'. vector_add x v k = Some (i, v', k') \<and> vector_ok v' \<and> 0 \<le> i \<and> fd_lookup v i = None \<and>
    (\<forall>j. 0 \<le> j \<and> j < i \<longrightarrow> fd_lookup v j \<noteq> None) \<and> fd_lookup v' = (fd_lookup v)(i \<mapsto> x) \<and>
    vector_maxsize v' = (if i < vector_maxsize v then vector_maxsize v else 2 * vector_maxsize v)"
proof -
  have l: "vector_size v \<le> int (length (vector_fds v))" using assms(1) by (simp add: vector_ok_def)
  from vector_scan_spec [OF order_refl l, of "\<lambda>x. fd_node x = 0"] obtain r where
    r: "vector_scan (\<lambda>x. fd_node x = 0) v 0 (vector_size v) = Some r"
    "case r of None \<Rightarrow> (\<forall>j. 0 \<le> j \<and> j < vector_size v \<longrightarrow> fd_node (vector_fds v ! nat j) \<noteq> 0)
     | Some j \<Rightarrow> 0 \<le> j \<and> j < vector_size v \<and> fd_node (vector_fds v ! nat j) = 0 \<and>
         (\<forall>l. 0 \<le> l \<and> l < j \<longrightarrow> fd_node (vector_fds v ! nat l) \<noteq> 0)" by blast
  show ?thesis
  proof (cases r)
    case None
    with vector_push_ok [OF assms] r assms(1) show ?thesis
      by (auto simp: vector_add_def fd_lookup_def vector_ok_def)
  next
    case (Some i)
    with r(2) have i: "0 \<le> i" "i < vector_size v" "i < vector_maxsize v" using assms(1) by (auto simp: vector_ok_def)
    have "vec_store i x v = Some (v\<lparr>vector_fds := (vector_fds v)[nat i := x], vector_size := vector_size v\<rparr>)"
      using i l by (auto simp: vec_store_def)
    moreover have "int (length (vector_fds v)) = vector_maxsize v" using assms(1) by (simp add: vector_ok_def)
    note fd_lookup_store [OF this i(1,3) assms(2), of "vector_size v"] vector_ok_store [OF assms(1) i(1,3), of "vector_size v" x]
    ultimately show ?thesis using Some r i vector_ok_beyond [OF assms(1)]
      by (auto simp: vector_add_def fd_lookup_def [of v])
  qed
qed

text \<open>Operations at an open descriptor.\<close>

lemma fd_lookup_SomeD:
  assumes "fd_lookup v i = Some x" and "vector_ok v"
  shows "0 \<le> i" "i < vector_size v" "i < vector_maxsize v" "fd_node x \<noteq> 0" "vec_load i v = Some x"
  using assms by (auto simp: fd_lookup_def vector_ok_def vec_load_def split: if_splits)

lemma get_filedescriptor_simps:
  assumes "task_fds s = Some (Some v)" and "0 \<le> i"
  shows "get_filedescriptor i s = (if i < vector_size v then Some i else None, s)"
  using assms by (simp add: get_filedescriptor_def vector_get_def)

lemma close_ok:
  assumes "task_fds s = Some (Some v)" and "vector_ok v" and "0 \<le> i"
  shows "\<exists>v'. close_filedescriptor i s = Some (0, s\<lparr>task_fds := Some (Some v')\<rparr>) \<and> vector_ok v' \<and>
    fd_lookup v' = (fd_lookup v)(i := None) \<and> vector_size v' = vector_size v \<and> vector_maxsize v' = vector_maxsize v"
proof (cases "i < vector_size v")
  case True
  define x where "x = (vector_fds v ! nat i)\<lparr>fd_node := 0\<rparr>"
  define v' where "v' = v\<lparr>vector_fds := (vector_fds v)[nat i := x], vector_size := vector_size v\<rparr>"
  have i: "i < vector_maxsize v" "nat i < length (vector_fds v)" using True assms by (auto simp: vector_ok_def)
  have "vector_clear i v = Some v'"
    using i assms(3) by (simp add: vector_clear_def vec_load_def vec_store_def x_def v'_def)
  moreover have "vector_ok v'"
    unfolding v'_def using assms(2,3) i(1) True by (intro vector_ok_store) simp_all
  moreover have "fd_lookup v' = (fd_lookup v)(i := None)"
  proof
    fix j
    have "0 \<le> j \<Longrightarrow> j \<noteq> i \<Longrightarrow> nat i \<noteq> nat j" using assms(3) by simp
    then show "fd_lookup v' j = ((fd_lookup v)(i := None)) j"
      using i assms(3) by (cases "j = i"; cases "0 \<le> j") (simp_all add: fd_lookup_def v'_def x_def)
  qed
  moreover have "s\<lparr>task_fds := Some (Some v'), fd_kmem := fd_kmem s\<rparr> = s\<lparr>task_fds := Some (Some v')\<rparr>" by (cases s) simp
  moreover have "vector_size v' = vector_size v" "vector_maxsize v' = vector_maxsize v" by (simp_all add: v'_def)
  ultimately show ?thesis using True assms
    by (intro exI [of _ v']) (simp add: close_filedescriptor_def get_filedescriptor_simps [OF assms(1,3)] on_fds_def)
next
  case False
  moreover from this have "(fd_lookup v)(i := None) = fd_lookup v" by (auto simp: fd_lookup_def)
  moreover have "s\<lparr>task_fds := Some (Some v)\<rparr> = s" using assms(1) by (cases s) simp
  ultimately show ?thesis using assms
    by (intro exI [of _ v]) (simp add: close_filedescriptor_def get_filedescriptor_simps [OF assms(1,3)])
qed

lemma vector_set_ok:
  assumes "vector_ok v" and "fd_node x \<noteq> 0" and "0 \<le> i" and "i < vector_maxsize v"
  shows "\<exists>v'. vector_set x i v k = Some (i, v', k) \<and> vector_ok v' \<and> fd_lookup v' = (fd_lookup v)(i \<mapsto> x)"
proof -
  define sz where "sz = (if i < vector_size v then vector_size v else i + 1)"
  have l: "int (length (vector_fds v)) = vector_maxsize v" using assms(1) by (simp add: vector_ok_def)
  have "vector_set x i v k = Some (i, v\<lparr>vector_fds := (vector_fds v)[nat i := x], vector_size := sz\<rparr>, k)"
    using assms(3,4) l by (cases v) (auto simp: vector_set_def vec_store_def sz_def Let_def)
  with vector_ok_store [OF assms(1,3,4) sz_def, of x] fd_lookup_store [OF l assms(3,4,2) sz_def] vector_ok_beyond [OF assms(1)]
  show ?thesis by blast
qed

lemma on_fds_ok:
  assumes "task_fds s = Some (Some v)" and "f v (fd_kmem s) = Some (r, v', k')"
  shows "on_fds f s = Some (r, s\<lparr>task_fds := Some (Some v'), fd_kmem := k'\<rparr>)"
  using assms by (simp add: on_fds_def)

lemma check_loop_ok:
  assumes "task_fds s = Some (Some v)" and "vector_ok v" and "0 \<le> i" and "i + int n = vector_size v"
  shows "\<exists>v'. check_loop i n s = Some (s\<lparr>task_fds := Some (Some v')\<rparr>) \<and> vector_ok v' \<and>
    fd_lookup v' = (\<lambda>j. case fd_lookup v j of None \<Rightarrow> None
      | Some x \<Rightarrow> if i \<le> j \<and> fd_flags x AND E_CLOEXEC \<noteq> 0 then None else Some x)"
  using assms
proof (induction n arbitrary: i s v)
  case 0
  have "s\<lparr>task_fds := Some (Some v)\<rparr> = s" using 0(1) by (cases s) simp
  moreover have "fd_lookup v j = None" if "i \<le> j" for j using that 0(4) by (simp add: fd_lookup_def)
  ultimately show ?case using 0(2) by (intro exI [of _ v]) (auto simp: fun_eq_iff split: option.splits)
next
  case (Suc n)
  have i: "i < vector_size v" "nat i < length (vector_fds v)" using Suc.prems by (auto simp: vector_ok_def)
  define x where "x = vector_fds v ! nat i"
  have x: "fd_deref i s = Some x" using Suc.prems(1,3) i by (simp add: fd_deref_def vec_load_def x_def)
  have lx: "fd_lookup v i = (if fd_node x = 0 then None else Some x)" using i Suc.prems(3) by (simp add: fd_lookup_def x_def)
  obtain v1 where v1: "(if fd_flags x AND E_CLOEXEC \<noteq> 0 then do { (_, s) \<leftarrow> close_filedescriptor i s; Some s } else Some s) =
      Some (s\<lparr>task_fds := Some (Some v1)\<rparr>)" "vector_ok v1" "vector_size v1 = vector_size v"
    "fd_lookup v1 = (if fd_flags x AND E_CLOEXEC \<noteq> 0 then (fd_lookup v)(i := None) else fd_lookup v)"
  proof (cases "fd_flags x AND E_CLOEXEC \<noteq> 0")
    case True
    with close_ok [OF Suc.prems(1-3)] show ?thesis by (auto intro: that)
  next
    case False
    moreover have "s\<lparr>task_fds := Some (Some v)\<rparr> = s" using Suc.prems(1) by (cases s) simp
    ultimately show ?thesis using Suc.prems(2) by (intro that [of v]) auto
  qed
  have "check_loop i (Suc n) s = check_loop (i + 1) n (s\<lparr>task_fds := Some (Some v1)\<rparr>)"
    using v1(1) i x by (simp add: get_filedescriptor_simps [OF Suc.prems(1,3)] del: bind_eq_Some_conv)
  moreover from Suc.IH [of "s\<lparr>task_fds := Some (Some v1)\<rparr>" v1 "i + 1"] v1(2,3) Suc.prems(3,4) obtain v' where
    v': "check_loop (i + 1) n (s\<lparr>task_fds := Some (Some v1)\<rparr>) = Some (s\<lparr>task_fds := Some (Some v')\<rparr>)" "vector_ok v'"
    "fd_lookup v' = (\<lambda>j. case fd_lookup v1 j of None \<Rightarrow> None
      | Some x \<Rightarrow> if i + 1 \<le> j \<and> fd_flags x AND E_CLOEXEC \<noteq> 0 then None else Some x)" by auto
  moreover have "fd_lookup v' j = (case fd_lookup v j of None \<Rightarrow> None
      | Some x \<Rightarrow> if i \<le> j \<and> fd_flags x AND E_CLOEXEC \<noteq> 0 then None else Some x)" for j
    by (cases "j = i") (auto simp: v'(3) v1(4) lx split: option.splits)
  ultimately show ?case by auto
qed

subsection \<open>Properties\<close>

text \<open>C22. A new descriptor gets the lowest number that is not open, and nothing else in the table changes. A number below the
  capacity of the vector leaves the capacity as it is, otherwise the vector is doubled; the heap must have room for this
  when the vector is full.\<close>

theorem register_lowest:
  assumes "task_fds s = Some (Some v)" and "vector_ok v" and "node \<noteq> 0" and "can_grow v (fd_kmem s)"
  shows "\<exists>i v' k'. register_filedescriptor li node flags mode s = Some (i, s\<lparr>task_fds := Some (Some v'), fd_kmem := k'\<rparr>) \<and>
    vector_ok v' \<and> 0 \<le> i \<and> fd_lookup v i = None \<and> (\<forall>j. 0 \<le> j \<and> j < i \<longrightarrow> fd_lookup v j \<noteq> None) \<and>
    fd_lookup v' = (fd_lookup v)(i \<mapsto> \<lparr>fd_node = node, fd_mode = ucast mode, fd_flags = flags, fd_seek = 0, fd_lock_index = li\<rparr>) \<and>
    vector_maxsize v' = (if i < vector_maxsize v then vector_maxsize v else 2 * vector_maxsize v)"
proof -
  let ?x = "\<lparr>fd_node = node, fd_mode = ucast mode, fd_flags = flags, fd_seek = 0, fd_lock_index = li\<rparr>"
  have "fd_node ?x \<noteq> 0" using assms(3) by simp
  from vector_add_ok [OF assms(2) this assms(4)] show ?thesis
    using on_fds_ok [OF assms(1), of "vector_add ?x"] by (fastforce simp: register_filedescriptor_def)
qed

text \<open>C23. \<^verbatim>\<open>dup2\<close> of an open descriptor to a different number below the capacity of the vector makes that number a copy of it, whatever
  it was before, and changes no other descriptor.\<close>

theorem dup2_copies:
  assumes "task_fds s = Some (Some v)" and "vector_ok v" and "fd_lookup v old = Some x"
    and "0 \<le> new" and "new < vector_maxsize v" and "new \<noteq> old"
  shows "\<exists>v'. dup2_filedescriptor old new s = Some (new, s\<lparr>task_fds := Some (Some v')\<rparr>) \<and> vector_ok v' \<and>
    fd_lookup v' = (fd_lookup v)(new \<mapsto> x)"
proof -
  note x = fd_lookup_SomeD [OF assms(3,2)]
  from close_ok [OF assms(1,2,4)] obtain v1 where
    v1: "close_filedescriptor new s = Some (0, s\<lparr>task_fds := Some (Some v1)\<rparr>)" "vector_ok v1"
      "fd_lookup v1 = (fd_lookup v)(new := None)" "vector_maxsize v1 = vector_maxsize v" by blast
  have "s\<lparr>task_fds := Some (Some v)\<rparr> = s" using assms(1) by (cases s) simp
  have c: "(case fst (get_filedescriptor new s) of None \<Rightarrow> Some (0, s) | Some _ \<Rightarrow> close_filedescriptor new s) =
      Some (0, s\<lparr>task_fds := Some (Some v1)\<rparr>)"
    using v1(1) by (auto simp: get_filedescriptor_simps [OF assms(1,4)] close_filedescriptor_def)
  have "fd_lookup v1 old = Some x" using v1(3) assms(3,6) by simp
  note x1 = fd_lookup_SomeD [OF this v1(2)]
  from vector_set_ok [OF v1(2) x(4) assms(4)] v1(4) assms(5) obtain v' where
    v': "vector_set x new v1 (fd_kmem s) = Some (new, v', fd_kmem s)" "vector_ok v'" "fd_lookup v' = (fd_lookup v1)(new \<mapsto> x)"
    by auto
  have "dup2_filedescriptor old new s = on_fds (vector_set x new) (s\<lparr>task_fds := Some (Some v1)\<rparr>)"
    using x x1 c assms(1)
    by (simp add: dup2_filedescriptor_def get_filedescriptor_simps [OF assms(1) x(1)] get_filedescriptor_simps [OF assms(1,4)] fd_deref_def)
  moreover have "s\<lparr>task_fds := Some (Some v'), fd_kmem := fd_kmem s\<rparr> = s\<lparr>task_fds := Some (Some v')\<rparr>" by (cases s) simp
  ultimately show ?thesis using v' v1(3)
    by (intro exI [of _ v']) (simp add: on_fds_def)
qed

text \<open>C39. \<^verbatim>\<open>dup2\<close> of an open descriptor to itself returns its number but leaves it closed.\<close>

theorem dup2_self_closes:
  assumes "task_fds s = Some (Some v)" and "vector_ok v" and "fd_lookup v fd = Some x"
  shows "\<exists>v'. dup2_filedescriptor fd fd s = Some (fd, s\<lparr>task_fds := Some (Some v')\<rparr>) \<and> fd_lookup v' = (fd_lookup v)(fd := None)"
proof -
  note x = fd_lookup_SomeD [OF assms(3,2)]
  from close_ok [OF assms(1,2) x(1)] obtain v1 where
    v1: "close_filedescriptor fd s = Some (0, s\<lparr>task_fds := Some (Some v1)\<rparr>)" "vector_ok v1"
      "fd_lookup v1 = (fd_lookup v)(fd := None)" "vector_size v1 = vector_size v" "vector_maxsize v1 = vector_maxsize v" by blast
  have l: "int (length (vector_fds v1)) = vector_maxsize v1" using v1(2) by (simp add: vector_ok_def)
  then have ld: "vec_load fd v1 = Some (vector_fds v1 ! nat fd)" using x v1(5) by (simp add: vec_load_def)
  have "vector_set (vector_fds v1 ! nat fd) fd v1 (fd_kmem s) = Some (fd, v1, fd_kmem s)"
    using x v1(4,5) l by (cases v1) (simp add: vector_set_def vec_store_def Let_def)
  moreover have "dup2_filedescriptor fd fd s = on_fds (vector_set (vector_fds v1 ! nat fd) fd) (s\<lparr>task_fds := Some (Some v1)\<rparr>)"
    using x v1(1) ld assms(1)
    by (simp add: dup2_filedescriptor_def get_filedescriptor_simps [OF assms(1) x(1)] fd_deref_def)
  moreover have "s\<lparr>task_fds := Some (Some v1), fd_kmem := fd_kmem s\<rparr> = s\<lparr>task_fds := Some (Some v1)\<rparr>" by (cases s) simp
  ultimately show ?thesis using v1(3) by (intro exI [of _ v1]) (simp add: on_fds_def)
qed

text \<open>Setting a descriptor whose number is a multiple of the capacity stores outside the buffer: the vector grows to exactly
  that number of entries, one too few.\<close>

theorem vector_set_out_of_bounds:
  assumes "vector_ok v" and "1 \<le> c"
  shows "vector_set x (c * vector_maxsize v) v k = None"
proof -
  have m: "0 < vector_maxsize v" "vector_maxsize v \<le> c * vector_maxsize v" using assms by (auto simp: vector_ok_def)
  have "roundup (c * vector_maxsize v) (vector_maxsize v) = Some c"
    using m assms(2) by (simp add: roundup_def signed_divide_int_def signed_modulo_int_def)
  moreover have "vec_store (c * vector_maxsize v) x (if b then v'\<lparr>vector_size := c * vector_maxsize v + 1\<rparr> else v') = None"
    if "vector_expand c v k = Some (r, v', k')" for r v' k' b
  proof -
    have "int (length (vector_fds v')) \<le> c * vector_maxsize v"
      using that assms(1) m
      by (auto simp: vector_expand_def Let_def vector_ok_def ac_simps split: if_splits elim!: bind_SomeE)
    then show ?thesis by (auto simp: vec_store_def)
  qed
  ultimately show ?thesis using m
    by (cases "vector_expand c v k") (auto simp: vector_set_def Let_def)
qed

text \<open>C24. \<^verbatim>\<open>check_filedescriptors\<close>, run at every \<^verbatim>\<open>execve\<close>, closes exactly the open descriptors with the close-on-exec flag.\<close>

theorem check_filedescriptors_cloexec:
  assumes "task_fds s = Some (Some v)" and "vector_ok v"
  shows "\<exists>v'. check_filedescriptors s = Some (s\<lparr>task_fds := Some (Some v')\<rparr>) \<and> vector_ok v' \<and>
    fd_lookup v' = (\<lambda>j. case fd_lookup v j of None \<Rightarrow> None
      | Some x \<Rightarrow> if fd_flags x AND E_CLOEXEC \<noteq> 0 then None else Some x)"
proof -
  have "0 + int (nat (vector_size v)) = vector_size v" using assms(2) by (simp add: vector_ok_def)
  from check_loop_ok [OF assms order_refl this] obtain v' where
    v': "check_loop 0 (nat (vector_size v)) s = Some (s\<lparr>task_fds := Some (Some v')\<rparr>)" "vector_ok v'"
    "fd_lookup v' = (\<lambda>j. case fd_lookup v j of None \<Rightarrow> None
      | Some x \<Rightarrow> if 0 \<le> j \<and> fd_flags x AND E_CLOEXEC \<noteq> 0 then None else Some x)" by blast
  moreover have "0 \<le> j" if "fd_lookup v j = Some x" for j x using that by (simp add: fd_lookup_def split: if_splits)
  ultimately show ?thesis using assms(1)
    by (intro exI [of _ v']) (auto simp: check_filedescriptors_def fun_eq_iff split: option.splits)
qed

text \<open>A vector of eight entries of which two are open.\<close>

definition vector1 :: vector where
  "vector1 = \<lparr>vec_self = 0xC0001000, vector_buffer = 0xC0002000,
     vector_fds = [\<lparr>fd_node = 0xC0003000, fd_mode = 0, fd_flags = 1, fd_seek = 0, fd_lock_index = 0\<rparr>, fd_zero,
       \<lparr>fd_node = 0xC0004000, fd_mode = 0, fd_flags = 2, fd_seek = 0, fd_lock_index = 0\<rparr>, fd_zero, fd_zero, fd_zero, fd_zero, fd_zero],
     vector_size = 3, vector_maxsize = 8\<rparr>"

definition fds1 :: fd_state where
  "fds1 = \<lparr>task_fds = Some (Some vector1), fd_kmem = kmem1, fd_errno = 0\<rparr>"

lemma vector1_ok: "task_fds fds1 = Some (Some vector1)" "vector_ok vector1" "can_grow vector1 k"
  by (simp_all add: fds1_def vector1_def vector_ok_def can_grow_def fd_zero_def)

lemma vector1_lookup:
  "fd_lookup vector1 0 = Some \<lparr>fd_node = 0xC0003000, fd_mode = 0, fd_flags = 1, fd_seek = 0, fd_lock_index = 0\<rparr>"
  "fd_lookup vector1 1 = None"
  "fd_lookup vector1 2 = Some \<lparr>fd_node = 0xC0004000, fd_mode = 0, fd_flags = 2, fd_seek = 0, fd_lock_index = 0\<rparr>"
  by (simp_all add: vector1_def fd_lookup_def fd_zero_def)

text \<open>A vector of one entry, which is open: registering doubles it.\<close>

definition vector2 :: vector where
  "vector2 = \<lparr>vec_self = 0xC0001000, vector_buffer = 0xC0002000,
     vector_fds = [\<lparr>fd_node = 0xC0003000, fd_mode = 0, fd_flags = 1, fd_seek = 0, fd_lock_index = 0\<rparr>], vector_size = 1, vector_maxsize = 1\<rparr>"

definition fds2 :: fd_state where
  "fds2 = \<lparr>task_fds = Some (Some vector2), fd_kmem = kmem1, fd_errno = 0\<rparr>"

lemma kmalloc_40_kmem1: "\<exists>k'. kmalloc 40 kmem1 = Some (0xC000000C, k')"
proof -
  have "a_get_free 40 False akheap0 = Some (0xC0000000, akheap0\<lparr>a_cur := 52, a_used := [(0xC0000000, 40)]\<rparr>)"
    by (simp add: a_get_free_def a_expand_def akheap0_def req_def Let_def)
  with alloc_ok [OF heap_ok_kmem1, of 40 False] show ?thesis
    by (auto simp: kmalloc_def kmalloc_base_def kmem1_def)
qed

lemma vector2_ok: "task_fds fds2 = Some (Some vector2)" "vector_ok vector2" "can_grow vector2 (fd_kmem fds2)"
proof -
  show "task_fds fds2 = Some (Some vector2)" "vector_ok vector2" by (simp_all add: fds2_def vector2_def vector_ok_def)
  obtain k' where k': "kmalloc 40 kmem1 = Some (0xC000000C, k')" using kmalloc_40_kmem1 by blast
  have "kheap_ok k'" using kheap.malloc_law [OF kheap_kmem1(1) _ k'] by simp
  then have "kfree p k' \<noteq> None" for p
    using kheap.free_law [of k' "(p, _)"] kheap.free_bad [of k' p] by (cases "p \<in> fst ` kheap_live k'") fastforce+
  with k' show "can_grow vector2 (fd_kmem fds2)" by (simp add: can_grow_def vector2_def fds2_def)
qed

theorem register_lowest_witness:
  "(\<exists>s'. register_filedescriptor 0 0xC0005000 0 0 fds1 = Some (1, s')) \<and>
   (\<exists>v' k'. register_filedescriptor 0 0xC0005000 0 0 fds2 = Some (1, fds2\<lparr>task_fds := Some (Some v'), fd_kmem := k'\<rparr>) \<and> vector_maxsize v' = 2)"
proof
  from register_lowest [OF vector1_ok(1,2), of "0xC0005000" 0 0 0] vector1_ok(3) obtain i s' where
    i: "register_filedescriptor 0 0xC0005000 0 0 fds1 = Some (i, s')" "0 \<le> i" "fd_lookup vector1 i = None"
      "\<forall>j. 0 \<le> j \<and> j < i \<longrightarrow> fd_lookup vector1 j \<noteq> None" by auto
  from i(4) [rule_format, of 1] vector1_lookup(2) have "i \<le> 1" by force
  moreover have "i \<noteq> 0" using i(3) vector1_lookup(1) by auto
  ultimately show "\<exists>s'. register_filedescriptor 0 0xC0005000 0 0 fds1 = Some (1, s')" using i(1,2) by (cases "i = 1") auto
next
  from register_lowest [OF vector2_ok(1,2) _ vector2_ok(3), of "0xC0005000" 0 0 0] obtain i v' k' where
    i: "register_filedescriptor 0 0xC0005000 0 0 fds2 = Some (i, fds2\<lparr>task_fds := Some (Some v'), fd_kmem := k'\<rparr>)" "0 \<le> i" "fd_lookup vector2 i = None"
      "\<forall>j. 0 \<le> j \<and> j < i \<longrightarrow> fd_lookup vector2 j \<noteq> None" "vector_maxsize v' = (if i < vector_maxsize vector2 then vector_maxsize vector2 else 2 * vector_maxsize vector2)"
    by auto
  have "i \<le> 1" using i(4) [rule_format, of 1] by (force simp: fd_lookup_def vector2_def)
  moreover have "i \<noteq> 0" using i(3) by (auto simp: fd_lookup_def vector2_def)
  ultimately have "i = 1" using i(2) by simp
  with i(1,5) show "\<exists>v' k'. register_filedescriptor 0 0xC0005000 0 0 fds2 = Some (1, fds2\<lparr>task_fds := Some (Some v'), fd_kmem := k'\<rparr>) \<and> vector_maxsize v' = 2"
    by (auto simp: vector2_def)
qed

theorem dup2_copies_witness:
  "\<exists>v'. dup2_filedescriptor 2 1 fds1 = Some (1, fds1\<lparr>task_fds := Some (Some v')\<rparr>) \<and> fd_lookup v' 1 = fd_lookup vector1 2"
  using dup2_copies [OF vector1_ok(1,2) vector1_lookup(3), of 1] vector1_lookup(3) by (auto simp: vector1_def)

theorem dup2_self_closes_witness:
  "\<exists>v'. dup2_filedescriptor 2 2 fds1 = Some (2, fds1\<lparr>task_fds := Some (Some v')\<rparr>) \<and> fd_lookup v' 2 = None"
  using dup2_self_closes [OF vector1_ok(1,2) vector1_lookup(3)] by auto

theorem vector_set_out_of_bounds_witness: "vector_set fd_zero 8 vector1 kmem1 = None"
  using vector_set_out_of_bounds [OF vector1_ok(2), of 1] by (simp add: vector1_def)

theorem check_filedescriptors_cloexec_witness:
  "\<exists>v'. check_filedescriptors fds1 = Some (fds1\<lparr>task_fds := Some (Some v')\<rparr>) \<and>
     fd_lookup v' 0 = None \<and> fd_lookup v' 2 = fd_lookup vector1 2"
  using check_filedescriptors_cloexec [OF vector1_ok(1,2)] by (auto simp: vector1_lookup)

end
