(* ===== verification/Ec_Vector.thy ===== *)
theory Ec_Vector
  imports Mm_Heap
begin

text \<open>
  The vector template of \<^verbatim>\<open>external/eclib/vector.h\<close>, which the kernel instantiates for signal handlers and threads.
  The elements are a typed list of length \<^verbatim>\<open>size\<close>; the memory comes from \<^verbatim>\<open>kmalloc\<close>. \<open>sz\<close> is the size of an element in bytes, and
  \<open>z\<close> the element whose bytes are all 0, which the error returns deliver. \<open>None\<close> is an access outside the buffer.
\<close>

record 'a ecvec =
  v_self :: addr
  v_buffer :: addr
  v_items :: "'a list"
  v_capacity :: u32
  v_destroyed :: bool
  v_error :: int
  v_iter :: int

abbreviation (input) "VECTOR_STARTCAP \<equiv> (8 :: u32)"
abbreviation (input) "ECLIB_EIND \<equiv> (1 :: int)"
abbreviation (input) "ECLIB_EDESTR \<equiv> (2 :: int)"
abbreviation (input) "SIZEOF_VEC \<equiv> (24 :: u32)"

definition CHECK_INDEX :: "'a ecvec \<Rightarrow> u32 \<Rightarrow> bool" where
  "CHECK_INDEX vec ind \<longleftrightarrow> unat ind < length (v_items vec) \<and> \<not> v_destroyed vec"

definition vec_create :: "u32 \<Rightarrow> kmem \<Rightarrow> ('a ecvec \<times> kmem) option" where
  "vec_create sz k = do {
     (vec, k) \<leftarrow> kmalloc SIZEOF_VEC k;
     (buf, k) \<leftarrow> kmalloc (sz * VECTOR_STARTCAP) k;
     Some (\<lparr>v_self = vec, v_buffer = buf, v_items = [], v_capacity = VECTOR_STARTCAP, v_destroyed = False,
       v_error = 0, v_iter = 0\<rparr>, k) }"

definition vec_get :: "'a \<Rightarrow> 'a ecvec \<Rightarrow> u32 \<Rightarrow> 'a \<times> 'a ecvec" where
  "vec_get z vec index =
     (let vec = vec\<lparr>v_error := 0\<rparr> in
      if \<not> CHECK_INDEX vec index then (z, vec\<lparr>v_error := ECLIB_EIND\<rparr>)
      else if v_destroyed vec then (z, vec\<lparr>v_error := ECLIB_EDESTR\<rparr>)
      else (v_items vec ! unat index, vec))"

definition vec_destroy :: "'a ecvec \<Rightarrow> kmem \<Rightarrow> (int \<times> 'a ecvec \<times> kmem) option" where
  "vec_destroy vec k =
     (if v_destroyed vec then Some (-1, vec, k)
      else do {
        (_, k) \<leftarrow> kfree (v_buffer vec) k;
        (_, k) \<leftarrow> kfree (v_self vec) k;
        Some (0, vec\<lparr>v_destroyed := True\<rparr>, k) })"

definition vec_wipe :: "'a \<Rightarrow> 'a ecvec \<Rightarrow> u32 \<Rightarrow> int \<times> 'a ecvec" where
  "vec_wipe z vec index =
     (if \<not> CHECK_INDEX vec index then (-1, vec) else (0, vec\<lparr>v_items := (v_items vec)[unat index := z]\<rparr>))"

text \<open>The fields \<^verbatim>\<open>error\<close> and \<^verbatim>\<open>iter\<close> of a copy are not initialised: \<open>er\<close> and \<open>it\<close> are what the heap block held.\<close>

definition vec_copy :: "u32 \<Rightarrow> int \<Rightarrow> int \<Rightarrow> 'a ecvec \<Rightarrow> kmem \<Rightarrow> ('a ecvec \<times> kmem) option" where
  "vec_copy sz er it srcvec k = do {
     (vec, k) \<leftarrow> kmalloc SIZEOF_VEC k;
     (buf, k) \<leftarrow> kmalloc (sz * v_capacity srcvec) k;
     Some (\<lparr>v_self = vec, v_buffer = buf, v_items = v_items srcvec, v_capacity = v_capacity srcvec,
       v_destroyed = v_destroyed srcvec, v_error = er, v_iter = it\<rparr>, k) }"

definition vec_reserve :: "u32 \<Rightarrow> u32 \<Rightarrow> 'a ecvec \<Rightarrow> kmem \<Rightarrow> (int \<times> 'a ecvec \<times> kmem) option" where
  "vec_reserve sz amount vec k =
     (if amount < v_capacity vec then Some (-1, vec, k)
      else do {
        (buf, k) \<leftarrow> kmalloc (sz * amount) k;
        (_, k) \<leftarrow> kfree (v_buffer vec) k;
        Some (0, vec\<lparr>v_buffer := buf, v_capacity := amount\<rparr>, k) })"

definition vec_push :: "u32 \<Rightarrow> 'a \<Rightarrow> 'a ecvec \<Rightarrow> kmem \<Rightarrow> (int \<times> 'a ecvec \<times> kmem) option" where
  "vec_push sz object vec k =
     (if v_destroyed vec then Some (-1, vec, k)
      else do {
        (_, vec, k) \<leftarrow> (if length (v_items vec) = unat (v_capacity vec)
                        then vec_reserve sz (v_capacity vec * 2) vec k else Some (0, vec, k));
        if length (v_items vec) < unat (v_capacity vec)
        then Some (int (length (v_items vec)) + 1, vec\<lparr>v_items := v_items vec @ [object]\<rparr>, k)
        else None })"

definition vec_set :: "'a ecvec \<Rightarrow> u32 \<Rightarrow> 'a \<Rightarrow> int \<times> 'a ecvec" where
  "vec_set vec index object =
     (if v_destroyed vec then (-1, vec)
      else if \<not> CHECK_INDEX vec index then (-1, vec)
      else (0, vec\<lparr>v_items := (v_items vec)[unat index := object]\<rparr>))"

definition vec_pop :: "'a \<Rightarrow> 'a ecvec \<Rightarrow> 'a \<times> 'a ecvec" where
  "vec_pop z vec =
     (let vec = vec\<lparr>v_error := 0\<rparr> in
      if v_destroyed vec then (z, vec\<lparr>v_error := ECLIB_EDESTR\<rparr>)
      else if length (v_items vec) = 0 then (z, vec\<lparr>v_error := ECLIB_EIND\<rparr>)
      else (v_items vec ! (length (v_items vec) - 1), vec))"

definition vec_iter :: "'a ecvec \<Rightarrow> int \<times> 'a ecvec" where
  "vec_iter vec =
     (if v_iter vec = int (length (v_items vec)) then (-1, vec\<lparr>v_iter := 0\<rparr>)
      else (v_iter vec, vec\<lparr>v_iter := v_iter vec + 1\<rparr>))"

text \<open>A push is seen by \<open>vec_get\<close> at the next index, and \<open>vec_pop\<close> reads the last element but leaves it in the vector.\<close>

lemma vec_push_get:
  assumes "\<not> v_destroyed vec" and "length (v_items vec) < unat (v_capacity vec)"
  shows "\<exists>vec'. vec_push sz x vec k = Some (int (length (v_items vec)) + 1, vec', k) \<and>
    fst (vec_get z vec' (of_nat (length (v_items vec)))) = x"
proof -
  have "length (v_items vec) < 2 ^ 32" using assms(2) unat_u32_less [of "v_capacity vec"] by linarith
  then have "unat (of_nat (length (v_items vec)) :: u32) = length (v_items vec)" by (simp add: unat_of_nat_nowrap)
  with assms show ?thesis by (simp add: vec_push_def vec_get_def CHECK_INDEX_def)
qed

lemma vec_pop_keeps: "v_items (snd (vec_pop z vec)) = v_items vec"
  by (simp add: vec_pop_def Let_def)

end
