(* ===== verification/Proc_Sched.thy ===== *)
theory Proc_Sched
  imports Mm_Paging Fs_Descriptor Ec_Vector
begin

text \<open>
  Tasks: the scheduler (\<^verbatim>\<open>kernel/proc/sched.c\<close>), task creation, signals and termination (\<^verbatim>\<open>kernel/proc/tasking.c\<close>), threads
  (\<^verbatim>\<open>kernel/proc/threads.c\<close>), the context switch (\<^verbatim>\<open>kernel/arch/i386/proc/tasking.c\<close> and its assembly) and the timer
  (\<^verbatim>\<open>kernel/core/timer.c\<close>).

  Tasks and threads are objects by address; the task lists are linked through \<^verbatim>\<open>next\<close>. \<open>None\<close> is the use of a null pointer or
  an endless loop. The processor is its stack pointer, the directory register, the kernel stack of the task state segment and
  the interrupt flag. A switch saves the stack pointer in the thread of the previous task and loads that of the next;
  what the next task does then is not part of the model.
\<close>

record thread =
  th_stack :: u32
  th_stack_top :: u32
  th_stack_size :: u32
  th_kernel_stack :: u32
  th_kernel_stack_top :: u32
  th_kernel_stack_size :: u32
  th_entry :: u32

record sighandler =
  sh_sig :: int
  sh_handler :: addr

record task =
  t_directory :: addr
  t_program_start :: u32
  t_program_break :: u32
  t_name :: addr
  t_cwd :: addr
  t_pid :: u32
  t_parent :: u32
  t_childamount :: u32
  t_uid :: u32
  t_euid :: u32
  t_umask :: u16
  t_gid :: u32
  t_egid :: u32
  t_ring :: int
  t_fds :: "vector option"
  t_lastsignal :: int
  t_tty :: u32
  t_sighandlers :: "sighandler ecvec option"
  t_state :: int
  t_timeslice :: u32
  t_timeused :: u32
  t_sliceused :: u32
  t_priority :: int
  t_threads :: "addr ecvec option"
  t_next :: addr

record task_list =
  tl_head :: addr
  tl_next :: addr

datatype tlist = Ready | Sleep | Blocked

record sched =
  sc_vm :: vm
  sc_tasks :: "addr \<rightharpoonup> task"
  sc_threads :: "addr \<rightharpoonup> thread"
  sc_lists :: "tlist \<Rightarrow> task_list"
  scheduler_locks :: u32
  g_runningtask :: addr
  PIDS :: u32
  cpu_esp :: u32
  cpu_esp0 :: u32
  cpu_if :: bool
  sc_errno :: int

abbreviation (input) "TASK_RUNNING \<equiv> (1 :: int)"
abbreviation (input) "TASK_ZOMBIE \<equiv> (2 :: int)"
abbreviation (input) "SIZEOF_TASK \<equiv> (122 :: u32)"
abbreviation (input) "OFFSETOF_STACK_HEAP \<equiv> (94 :: u32)"
abbreviation (input) "SIZEOF_THREAD \<equiv> (28 :: u32)"
abbreviation (input) "SIZEOF_SIGHANDLER \<equiv> (8 :: u32)"
abbreviation (input) "SIGINT \<equiv> (2 :: int)"
abbreviation (input) "ECHILD \<equiv> (10 :: int)"
abbreviation (input) "KERNEL_STACK_SIZE \<equiv> (0x5000 :: u32)"
abbreviation (input) "USER_STACK_SIZE \<equiv> (0x4000 :: u32)"
abbreviation (input) "KERNEL_MAIN_STACK \<equiv> (0xF00000 :: u32)"
abbreviation (input) "KERNEL_MAIN_KSTACK \<equiv> (0xF00000 - 0x5000 :: u32)"
abbreviation (input) "USER_STACKHEAP_START \<equiv> (0x1400000 :: u32)"
abbreviation (input) "USER_STACKHEAP_MAXSIZE \<equiv> (0x400000 :: u32)"

definition get_task :: "addr \<Rightarrow> sched \<Rightarrow> task option" where
  "get_task a s = (if a = 0 then None else sc_tasks s a)"

definition set_task :: "addr \<Rightarrow> task \<Rightarrow> sched \<Rightarrow> sched" where
  "set_task a t s = s\<lparr>sc_tasks := (sc_tasks s)(a \<mapsto> t)\<rparr>"

definition upd_task :: "addr \<Rightarrow> (task \<Rightarrow> task) \<Rightarrow> sched \<Rightarrow> sched option" where
  "upd_task a f s = do { t \<leftarrow> get_task a s; Some (set_task a (f t) s) }"

definition get_thread :: "addr \<Rightarrow> sched \<Rightarrow> thread option" where
  "get_thread a s = (if a = 0 then None else sc_threads s a)"

definition on_heap :: "(kmem \<Rightarrow> ('a \<times> kmem) option) \<Rightarrow> sched \<Rightarrow> ('a \<times> sched) option" where
  "on_heap f s = do { (r, vm) \<leftarrow> on_kmem f (sc_vm s); Some (r, s\<lparr>sc_vm := vm\<rparr>) }"

subsection \<open>Task lists\<close>

definition get_current_task :: "sched \<Rightarrow> addr" where
  "get_current_task s = g_runningtask s"

definition getpid :: "sched \<Rightarrow> u32 option" where
  "getpid s = map_option t_pid (get_task (g_runningtask s) s)"

definition set_list :: "tlist \<Rightarrow> addr \<Rightarrow> sched \<Rightarrow> sched" where
  "set_list l task s = s\<lparr>sc_lists := (sc_lists s)(l := \<lparr>tl_head = task, tl_next = task\<rparr>)\<rparr>"

partial_function (option) last_task :: "addr \<Rightarrow> sched \<Rightarrow> addr option" where
  "last_task tmp s = do {
     t \<leftarrow> get_task tmp s;
     if t_next t \<noteq> 0 then last_task (t_next t) s else Some tmp }"

definition add_to_list :: "tlist \<Rightarrow> addr \<Rightarrow> sched \<Rightarrow> sched option" where
  "add_to_list l task s = do {
     let tmp = tl_head (sc_lists s l);
     s \<leftarrow> upd_task task (\<lambda>t. t\<lparr>t_next := 0\<rparr>) s;
     if tmp = 0 then Some (set_list l task s)
     else do {
       tmp \<leftarrow> last_task tmp s;
       upd_task tmp (\<lambda>t. t\<lparr>t_next := task\<rparr>) s } }"

partial_function (option) remove_loop :: "tlist \<Rightarrow> addr \<Rightarrow> addr \<Rightarrow> addr \<Rightarrow> sched \<Rightarrow> (int \<times> sched) option" where
  "remove_loop l task prev tmp s =
     (if tmp = 0 then Some (-1, s)
      else do {
        t \<leftarrow> get_task tmp s;
        if tmp = task then
          (if prev \<noteq> 0 then do { s \<leftarrow> upd_task prev (\<lambda>p. p\<lparr>t_next := t_next t\<rparr>) s; Some (0, s) }
           else Some (0, set_list l (t_next t) s))
        else remove_loop l task tmp (t_next t) s })"

definition remove_from_list :: "tlist \<Rightarrow> addr \<Rightarrow> sched \<Rightarrow> (int \<times> sched) option" where
  "remove_from_list l task s =
     (if tl_head (sc_lists s l) = 0 then Some (-1, s) else remove_loop l task 0 (tl_head (sc_lists s l)) s)"

definition get_next_from_list :: "tlist \<Rightarrow> sched \<Rightarrow> (addr \<times> sched) option" where
  "get_next_from_list l s =
     (let tl = sc_lists s l; next = tl_next tl in
      if next \<noteq> 0 then do {
        t \<leftarrow> get_task next s;
        Some (next, s\<lparr>sc_lists := (sc_lists s)(l := tl\<lparr>tl_next := t_next t\<rparr>)\<rparr>) }
      else do {
        t \<leftarrow> get_task (tl_head tl) s;
        Some (tl_head tl, s\<lparr>sc_lists := (sc_lists s)(l := tl\<lparr>tl_next := t_next t\<rparr>)\<rparr>) })"

definition get_next_task :: "sched \<Rightarrow> (addr \<times> sched) option" where
  "get_next_task s = get_next_from_list Ready s"

definition remove_from_ready_list :: "addr \<Rightarrow> sched \<Rightarrow> (int \<times> sched) option" where
  "remove_from_ready_list task s = remove_from_list Ready task s"

partial_function (option) find_pid_loop :: "addr \<Rightarrow> u32 \<Rightarrow> sched \<Rightarrow> addr option" where
  "find_pid_loop tmp pid s =
     (if tmp = 0 then Some 0
      else do {
        t \<leftarrow> get_task tmp s;
        if t_pid t = pid then Some tmp else find_pid_loop (t_next t) pid s })"

definition find_task_in_list_by_pid :: "tlist \<Rightarrow> u32 \<Rightarrow> sched \<Rightarrow> addr option" where
  "find_task_in_list_by_pid l pid s = find_pid_loop (tl_head (sc_lists s l)) pid s"

definition find_task_by_pid :: "u32 \<Rightarrow> sched \<Rightarrow> addr option" where
  "find_task_by_pid pid s = do {
     ret \<leftarrow> find_task_in_list_by_pid Ready pid s;
     if ret \<noteq> 0 then Some ret
     else do {
       ret \<leftarrow> find_task_in_list_by_pid Sleep pid s;
       if ret \<noteq> 0 then Some ret else find_task_in_list_by_pid Blocked pid s } }"

definition add_task_to_queue :: "addr \<Rightarrow> sched \<Rightarrow> sched option" where
  "add_task_to_queue new_task s = add_to_list Ready new_task s"

partial_function (option) count_loop :: "addr \<Rightarrow> sched \<Rightarrow> int \<Rightarrow> int option" where
  "count_loop tmp s cnt =
     (if tmp = 0 then Some cnt
      else do { t \<leftarrow> get_task tmp s; count_loop (t_next t) s (cnt + 1) })"

definition task_count_list :: "tlist \<Rightarrow> sched \<Rightarrow> int option" where
  "task_count_list l s = count_loop (tl_head (sc_lists s l)) s 0"

definition task_count_all :: "sched \<Rightarrow> int option" where
  "task_count_all s = do {
     a \<leftarrow> task_count_list Ready s;
     b \<leftarrow> task_count_list Blocked s;
     c \<leftarrow> task_count_list Sleep s;
     Some (a + b + c) }"

subsection \<open>Switching\<close>

text \<open>The first thread of a task; \<^verbatim>\<open>vec_thrds_get\<close> gives a null pointer for an empty vector.\<close>

definition get_main_thrd :: "addr \<Rightarrow> sched \<Rightarrow> addr option" where
  "get_main_thrd task s = do {
     t \<leftarrow> get_task task s;
     v \<leftarrow> t_threads t;
     Some (fst (vec_get 0 v 0)) }"

definition get_current_thrd :: "sched \<Rightarrow> addr option" where
  "get_current_thrd s = get_main_thrd (get_current_task s) s"

definition get_current_stacktop :: "sched \<Rightarrow> u32 option" where
  "get_current_stacktop s = do {
     t \<leftarrow> get_main_thrd (get_current_task s) s;
     th \<leftarrow> get_thread t s;
     Some (th_stack_top th) }"

text \<open>\<^verbatim>\<open>do_task_switch\<close> stores the stack pointer through its first argument and loads the other two into the stack pointer and the
  directory register, with interrupts off. \<open>cpu_esp\<close> is the stack pointer after the registers are pushed.\<close>

definition do_task_switch :: "addr \<Rightarrow> u32 \<Rightarrow> u32 \<Rightarrow> sched \<Rightarrow> sched option" where
  "do_task_switch pt next_esp cr3 s = do {
     th \<leftarrow> get_thread pt s;
     Some (s\<lparr>sc_vm := (sc_vm s)\<lparr>vm_cr3 := cr3\<rparr>,
       sc_threads := (sc_threads s)(pt \<mapsto> th\<lparr>th_stack := cpu_esp s\<rparr>), cpu_esp := next_esp, cpu_if := False\<rparr>) }"

definition arch_task_switch :: "addr \<Rightarrow> addr \<Rightarrow> sched \<Rightarrow> sched option" where
  "arch_task_switch next prev s = do {
     nt \<leftarrow> get_main_thrd next s;
     pt \<leftarrow> get_main_thrd prev s;
     n \<leftarrow> get_thread nt s;
     t \<leftarrow> get_task next s;
     d \<leftarrow> load_dir (t_directory t) (sc_vm s);
     do_task_switch pt (th_stack n) (physicalAddress d) (s\<lparr>cpu_esp0 := th_kernel_stack n\<rparr>) }"

definition switch_task :: "addr \<Rightarrow> sched \<Rightarrow> sched option" where
  "switch_task next s =
     (let previous = g_runningtask s in
      if previous = next then Some s
      else if next = 0 then Some s
      else do {
        s \<leftarrow> upd_task next (\<lambda>t. t\<lparr>t_sliceused := 0\<rparr>) (s\<lparr>g_runningtask := next\<rparr>);
        t \<leftarrow> get_task next s;
        arch_task_switch next previous (s\<lparr>sc_vm := set_current_dir (t_directory t) (sc_vm s)\<rparr>) })"

definition lock_scheduler :: "sched \<Rightarrow> sched" where
  "lock_scheduler s = s\<lparr>scheduler_locks := scheduler_locks s + 1, cpu_if := False\<rparr>"

definition unlock_scheduler :: "sched \<Rightarrow> sched" where
  "unlock_scheduler s =
     (let s = s\<lparr>scheduler_locks := scheduler_locks s - 1\<rparr> in
      if scheduler_locks s = 0 then s\<lparr>cpu_if := True\<rparr> else s)"

definition schedule :: "sched \<Rightarrow> sched option" where
  "schedule s = do {
     (next, s) \<leftarrow> get_next_task (lock_scheduler s);
     s \<leftarrow> (if next \<noteq> 0 then switch_task next s else Some s);
     Some (unlock_scheduler s) }"

text \<open>The jump itself (\<^verbatim>\<open>jmp_userspace\<close>) leaves the kernel.\<close>

definition jump_userspace :: "sched \<Rightarrow> sched option" where
  "jump_userspace s = do {
     s \<leftarrow> upd_task (g_runningtask s) (\<lambda>t. t\<lparr>t_ring := 3\<rparr>) s;
     tp \<leftarrow> get_main_thrd (get_current_task s) s;
     th \<leftarrow> get_thread tp s;
     Some (s\<lparr>cpu_esp0 := th_kernel_stack th\<rparr>) }"

definition init_scheduler :: "addr \<Rightarrow> sched \<Rightarrow> int \<times> sched" where
  "init_scheduler mainloop s =
     (0, (set_list Blocked 0 (set_list Sleep 0 (set_list Ready mainloop s)))\<lparr>g_runningtask := mainloop\<rparr>)"

definition task_block :: "u32 \<Rightarrow> sched \<Rightarrow> (int \<times> sched) option" where
  "task_block pid s = do {
     let s = lock_scheduler s;
     task \<leftarrow> find_task_in_list_by_pid Ready pid s;
     if task = 0 then Some (-1, s)
     else do {
       (r, s) \<leftarrow> remove_from_list Ready task s;
       if r = -1 then Some (-1, s)
       else do {
         s \<leftarrow> add_to_list Blocked task s;
         s \<leftarrow> schedule (unlock_scheduler s);
         Some (0, s) } } }"

definition task_resume :: "u32 \<Rightarrow> sched \<Rightarrow> (int \<times> sched) option" where
  "task_resume pid s = do {
     let s = lock_scheduler s;
     task \<leftarrow> find_task_in_list_by_pid Blocked pid s;
     if task = 0 then Some (-1, s)
     else do {
       (r, s) \<leftarrow> remove_from_list Blocked task s;
       if r = -1 then Some (-1, s)
       else do {
         s \<leftarrow> add_to_list Ready task s;
         Some (0, unlock_scheduler s) } } }"

subsection \<open>Threads and stacks\<close>

definition push_thread :: "addr \<Rightarrow> addr \<Rightarrow> sched \<Rightarrow> sched option" where
  "push_thread task thrd s = do {
     t \<leftarrow> get_task task s;
     v \<leftarrow> t_threads t;
     (v, s) \<leftarrow> on_heap (\<lambda>k. do { (_, v, k) \<leftarrow> vec_push 4 thrd v k; Some (v, k) }) s;
     upd_task task (\<lambda>t. t\<lparr>t_threads := Some v\<rparr>) s }"

text \<open>The field \<^verbatim>\<open>entry\<close> is not initialised: \<open>e\<close> is what the heap block held.\<close>

definition init_thread_setup :: "u32 \<Rightarrow> addr \<Rightarrow> u32 \<Rightarrow> sched \<Rightarrow> (int \<times> sched) option" where
  "init_thread_setup e parent stp s = do {
     (thrd, s) \<leftarrow> on_heap (kmalloc SIZEOF_THREAD) s;
     s \<leftarrow> push_thread parent thrd (s\<lparr>sc_threads := (sc_threads s)(thrd \<mapsto>
       \<lparr>th_stack = stp, th_stack_top = stp, th_stack_size = KERNEL_STACK_SIZE, th_kernel_stack = KERNEL_MAIN_KSTACK,
        th_kernel_stack_top = KERNEL_MAIN_KSTACK, th_kernel_stack_size = KERNEL_STACK_SIZE, th_entry = e\<rparr>)\<rparr>);
     Some (0, s) }"

definition threads_init_forked :: "addr \<Rightarrow> addr \<Rightarrow> sched \<Rightarrow> (int \<times> sched) option" where
  "threads_init_forked new old s = do {
     (thrd, s) \<leftarrow> on_heap (kmalloc SIZEOF_THREAD) s;
     ot \<leftarrow> get_main_thrd old s;
     th \<leftarrow> get_thread ot s;
     s \<leftarrow> push_thread new thrd (s\<lparr>sc_threads := (sc_threads s)(thrd \<mapsto> th)\<rparr>);
     Some (0, s) }"

definition setup_stack_heap :: "addr \<Rightarrow> bool \<Rightarrow> sched \<Rightarrow> sched option" where
  "setup_stack_heap ptr um s = do {
     (_, s) \<leftarrow> on_heap (create_heap ptr USER_STACKHEAP_START USER_STACKHEAP_MAXSIZE (if um then 1 else 0)) s;
     Some s }"

text \<open>\<open>sheap\<close> 0 stands for a null heap; \<open>g_kernel_stackheap\<close> is an argument.\<close>

definition stack_alloc :: "addr \<Rightarrow> bool \<Rightarrow> addr \<Rightarrow> sched \<Rightarrow> (u32 \<times> sched) option" where
  "stack_alloc g_kernel_stackheap krn sheap s = do {
     let sz = (if krn then KERNEL_STACK_SIZE else USER_STACK_SIZE);
     let heap = (if krn then g_kernel_stackheap else get_current_task s + OFFSETOF_STACK_HEAP);
     let heap = (if sheap \<noteq> 0 then sheap else heap);
     (a, s) \<leftarrow> on_heap (kmalloc_gen_base heap sz True) s;
     let a = a + sz;
     (_, vm) \<leftarrow> initialize_mem a sz (\<not> krn) 0 (sc_vm s);
     Some (a + sz, s\<lparr>sc_vm := vm\<rparr>) }"

definition stack_free :: "addr \<Rightarrow> bool \<Rightarrow> u32 \<Rightarrow> sched \<Rightarrow> sched option" where
  "stack_free g_kernel_stackheap krn stp s = do {
     (_, s) \<leftarrow> on_heap (if krn then kfree_gen g_kernel_stackheap (stp - KERNEL_STACK_SIZE)
                        else kfree_gen (get_current_task s + OFFSETOF_STACK_HEAP) (stp - USER_STACK_SIZE)) s;
     Some s }"

definition set_user_stack :: "addr \<Rightarrow> sched \<Rightarrow> sched option" where
  "set_user_stack g_kernel_stackheap s = do {
     let curtask = get_current_task s;
     (_, s) \<leftarrow> on_heap (\<lambda>k. do { k \<leftarrow> heap_setusermode (curtask + OFFSETOF_STACK_HEAP) k; Some ((), k) }) s;
     (stp, s) \<leftarrow> stack_alloc g_kernel_stackheap False (curtask + OFFSETOF_STACK_HEAP) s;
     tp \<leftarrow> get_main_thrd curtask s;
     th \<leftarrow> get_thread tp s;
     Some (s\<lparr>sc_threads := (sc_threads s)(tp \<mapsto> th\<lparr>th_stack_top := stp, th_stack_size := USER_STACK_SIZE\<rparr>)\<rparr>) }"

subsection \<open>Signals, creation and termination\<close>

definition signal :: "int \<Rightarrow> addr \<Rightarrow> sched \<Rightarrow> (addr \<times> sched) option" where
  "signal sig handler s = do {
     t \<leftarrow> get_task (get_current_task s) s;
     v \<leftarrow> t_sighandlers t;
     (v, s) \<leftarrow> on_heap (\<lambda>k. do {
       (_, v, k) \<leftarrow> vec_push SIZEOF_SIGHANDLER \<lparr>sh_sig = sig, sh_handler = handler\<rparr> v k; Some (v, k) }) s;
     s \<leftarrow> upd_task (get_current_task s) (\<lambda>t. t\<lparr>t_sighandlers := Some v\<rparr>) s;
     Some (handler, s) }"

definition sig_zero :: sighandler where
  "sig_zero = \<lparr>sh_sig = 0, sh_handler = 0\<rparr>"

partial_function (option) findsighandler :: "sighandler ecvec \<Rightarrow> int \<Rightarrow> (addr \<times> sighandler ecvec) option" where
  "findsighandler v sig =
     (let (i, v) = vec_iter v in
      if i = -1 then Some (0, v)
      else
        let (h, v) = vec_get sig_zero v (of_int i) in
        if sh_sig h = sig then Some (sh_handler h, v\<lparr>v_iter := 0\<rparr>)
        else findsighandler v sig)"

definition kill_proc :: "addr \<Rightarrow> sched \<Rightarrow> sched option" where
  "kill_proc task s = do {
     s \<leftarrow> upd_task task (\<lambda>t. t\<lparr>t_state := TASK_ZOMBIE\<rparr>) s;
     t \<leftarrow> get_task task s;
     s \<leftarrow> (if t_parent t \<noteq> 0 then do {
            parent \<leftarrow> find_task_by_pid (t_parent t) s;
            s \<leftarrow> upd_task parent (\<lambda>p. p\<lparr>t_childamount := t_childamount p - 1\<rparr>) s;
            (_, s) \<leftarrow> task_resume (t_parent t) s;
            Some s }
          else Some s);
     (_, s) \<leftarrow> remove_from_ready_list task s;
     if get_current_task s = task then do {
       (next, s) \<leftarrow> get_next_task s;
       switch_task next s }
     else Some s }"

text \<open>\<open>call\<close> is the code of the signal handler, which belongs to the program.\<close>

definition send_task_signal ::
  "(addr \<Rightarrow> int \<Rightarrow> sched \<Rightarrow> sched option) \<Rightarrow> addr \<Rightarrow> int \<Rightarrow> sched \<Rightarrow> (int \<times> sched) option" where
  "send_task_signal call task sig s =
     (if task \<noteq> 0 \<and> sig = SIGINT then do {
        t \<leftarrow> get_task task s;
        v \<leftarrow> t_sighandlers t;
        (handler, v) \<leftarrow> findsighandler v sig;
        s \<leftarrow> upd_task task (\<lambda>t. t\<lparr>t_sighandlers := Some v\<rparr>) s;
        s \<leftarrow> (if handler \<noteq> 0 then call handler sig s else kill_proc task s);
        Some (0, s) }
      else Some (0, s))"

definition send_sig :: "(addr \<Rightarrow> int \<Rightarrow> sched \<Rightarrow> sched option) \<Rightarrow> int \<Rightarrow> sched \<Rightarrow> sched option" where
  "send_sig call sig s = do { (_, s) \<leftarrow> send_task_signal call (get_current_task s) sig s; Some s }"

definition send_pid_sig :: "(addr \<Rightarrow> int \<Rightarrow> sched \<Rightarrow> sched option) \<Rightarrow> u32 \<Rightarrow> int \<Rightarrow> sched \<Rightarrow> (int \<times> sched) option" where
  "send_pid_sig call pid sig s = do {
     task \<leftarrow> find_task_by_pid pid s;
     send_task_signal call task sig s }"

text \<open>\<^verbatim>\<open>free_task\<close> begins with an endless loop.\<close>

definition free_task :: "addr \<Rightarrow> sched \<Rightarrow> sched option" where
  "free_task task s = None"

text \<open>\<open>er\<close> and \<open>it\<close> are the uninitialised fields of the copied vector of signal handlers. The vectors and the descriptors of a
  task are part of its record, so the order of the allocations is that of the code.\<close>

definition create_task :: "int \<Rightarrow> int \<Rightarrow> addr \<Rightarrow> bool \<Rightarrow> addr \<Rightarrow> sched \<Rightarrow> sched option" where
  "create_task er it new_task kernel_task dir s = do {
     s \<leftarrow> upd_task new_task (\<lambda>t. t\<lparr>t_ring := (if \<not> kernel_task then 3 else 0)\<rparr>) s;
     cur \<leftarrow> get_task (get_current_task s) s;
     ppid \<leftarrow> getpid s;
     let pid = PIDS s;
     s \<leftarrow> upd_task new_task (\<lambda>t. t\<lparr>t_directory := dir, t_name := t_name cur, t_pid := pid, t_parent := ppid, t_uid := t_uid cur,
         t_gid := t_gid cur, t_priority := t_priority cur\<rparr>) (s\<lparr>PIDS := PIDS s + 1\<rparr>);
     fds \<leftarrow> t_fds cur;
     (fds, s) \<leftarrow> on_heap (vector_copy fds) s;
     sig \<leftarrow> t_sighandlers cur;
     (sig, s) \<leftarrow> on_heap (vec_copy SIZEOF_SIGHANDLER er it sig) s;
     (thr, s) \<leftarrow> on_heap (vec_create 4) s;
     s \<leftarrow> upd_task new_task (\<lambda>t. t\<lparr>t_fds := fds, t_tty := t_tty cur, t_sighandlers := Some sig, t_state := TASK_RUNNING,
         t_threads := Some thr\<rparr>) s;
     s \<leftarrow> setup_stack_heap (new_task + OFFSETOF_STACK_HEAP) (\<not> kernel_task) s;
     (_, s) \<leftarrow> threads_init_forked new_task (get_current_task s) s;
     s \<leftarrow> upd_task new_task (\<lambda>t. t\<lparr>t_timeslice := 100\<rparr>) s;
     s \<leftarrow> upd_task (get_current_task s) (\<lambda>t. t\<lparr>t_childamount := t_childamount t + 1\<rparr>) s;
     (cwd, s) \<leftarrow> on_heap (strdup (t_cwd cur)) s;
     upd_task new_task (\<lambda>t. t\<lparr>t_cwd := cwd\<rparr>) s }"

text \<open>\<^verbatim>\<open>arch_spawn_task\<close> saves the stack pointer for the new task and copies the address space. The first return of \<^verbatim>\<open>fork\<close> is in
  the parent; the second, in the child, comes when the scheduler switches to the saved stack.\<close>

definition arch_spawn_task :: "addr \<Rightarrow> addr \<Rightarrow> sched \<Rightarrow> sched option" where
  "arch_spawn_task thrd task s = do {
     th \<leftarrow> get_thread thrd s;
     let s = s\<lparr>sc_threads := (sc_threads s)(thrd \<mapsto> th\<lparr>th_stack := cpu_esp s\<rparr>), cpu_if := False\<rparr>;
     (dir, vm) \<leftarrow> duplicate_current_page_directory (sc_vm s);
     upd_task task (\<lambda>t. t\<lparr>t_directory := dir\<rparr>) (s\<lparr>sc_vm := vm\<rparr>) }"

definition fork :: "int \<Rightarrow> int \<Rightarrow> sched \<Rightarrow> (u32 \<times> sched) option" where
  "fork er it s = do {
     let s = s\<lparr>cpu_if := False\<rparr>;
     let parent_task = get_current_task s;
     (new_task, s) \<leftarrow> on_heap (kmalloc SIZEOF_TASK) s;
     p \<leftarrow> get_task parent_task s;
     s \<leftarrow> create_task er it new_task (t_ring p = 0) 0 (set_task new_task p s);
     s \<leftarrow> add_task_to_queue new_task s;
     thrd \<leftarrow> get_main_thrd new_task s;
     s \<leftarrow> arch_spawn_task thrd new_task s;
     if parent_task = get_current_task s then do {
       t \<leftarrow> get_task new_task s;
       Some (t_pid t, s\<lparr>cpu_if := True\<rparr>) }
     else Some (0, s) }"

text \<open>\<open>name\<close> and \<open>cwd\<close> are the addresses of the two string constants.\<close>

definition init_tasking :: "u32 \<Rightarrow> addr \<Rightarrow> addr \<Rightarrow> sched \<Rightarrow> (int \<times> sched) option" where
  "init_tasking e name cwd s = do {
     (mainloop, s) \<leftarrow> on_heap (kmalloc SIZEOF_TASK) s;
     let pid = PIDS s;
     let s = s\<lparr>PIDS := PIDS s + 1\<rparr>;
     (fds, s) \<leftarrow> on_heap vector_create s;
     (sig, s) \<leftarrow> on_heap (vec_create SIZEOF_SIGHANDLER) s;
     (thr, s) \<leftarrow> on_heap (vec_create 4) s;
     let s = set_task mainloop \<lparr>t_directory = get_current_dir (sc_vm s), t_program_start = 0, t_program_break = 0,
       t_name = name, t_cwd = cwd, t_pid = pid, t_parent = 0, t_childamount = 0, t_uid = 0, t_euid = 0, t_umask = 0, t_gid = 0,
       t_egid = 0, t_ring = 0, t_fds = fds, t_lastsignal = 0, t_tty = 0, t_sighandlers = Some sig, t_state = 0,
       t_timeslice = 100, t_timeused = 0, t_sliceused = 0, t_priority = 0, t_threads = Some thr, t_next = 0\<rparr> s;
     s \<leftarrow> setup_stack_heap (mainloop + OFFSETOF_STACK_HEAP) False s;
     (_, s) \<leftarrow> init_thread_setup e mainloop KERNEL_MAIN_STACK s;
     Some (init_scheduler mainloop s) }"

definition task_wait :: "sched \<Rightarrow> (int \<times> sched) option" where
  "task_wait s = do {
     t \<leftarrow> get_task (get_current_task s) s;
     if t_childamount t \<noteq> 0 then do {
       pid \<leftarrow> getpid s;
       (_, s) \<leftarrow> task_block pid s;
       Some (0, s) }
     else Some (-1, s\<lparr>sc_errno := ECHILD\<rparr>) }"

definition get_proccount :: "sched \<Rightarrow> int option" where
  "get_proccount s = task_count_all s"

definition task_euid :: "sched \<Rightarrow> u32 option" where
  "task_euid s = map_option t_euid (get_task (get_current_task s) s)"

definition task_egid :: "sched \<Rightarrow> u32 option" where
  "task_egid s = map_option t_egid (get_task (get_current_task s) s)"

subsection \<open>The timer\<close>

record time_info =
  ticks_since_boot :: u32
  ti_period :: u32
  ti_frequency :: u32

abbreviation (input) "TIMER_FREQ \<equiv> (250 :: u32)"

definition timer_callback :: "time_info \<times> sched \<Rightarrow> (time_info \<times> sched) option" where
  "timer_callback = (\<lambda>(ti, s). do {
     s \<leftarrow> schedule s;
     Some (ti\<lparr>ticks_since_boot := ticks_since_boot ti + 1\<rparr>, s) })"

definition timer_get_period :: "time_info \<Rightarrow> u32" where
  "timer_get_period ti = ti_period ti"

definition timer_get_frequency :: "time_info \<Rightarrow> u32" where
  "timer_get_frequency ti = ti_frequency ti"

definition timer_get_cur_ticks :: "time_info \<Rightarrow> u32" where
  "timer_get_cur_ticks ti = ticks_since_boot ti"

text \<open>The frequency of the timer chip is the one it was set to (\<^verbatim>\<open>arch_init_timer\<close>, \<^verbatim>\<open>init_pit\<close>).\<close>

definition init_timer :: "sched \<Rightarrow> (time_info \<times> sched) option" where
  "init_timer s = do {
     (_, s) \<leftarrow> on_heap (kmalloc 12) s;
     Some (\<lparr>ticks_since_boot = 0, ti_period = 1000 div TIMER_FREQ, ti_frequency = TIMER_FREQ\<rparr>, s) }"

definition timer_secs_since_boot :: "u32 \<Rightarrow> time_info \<Rightarrow> u32 option" where
  "timer_secs_since_boot freq ti = (if freq = 0 then None else Some (ticks_since_boot ti div freq))"

text \<open>\<open>usec\<close> is the value the caller passes in and keeps when the remainder is 0; \<open>None\<close> is a division by zero.\<close>

definition time_since_boot :: "u32 \<Rightarrow> 64 word \<Rightarrow> time_info \<Rightarrow> (64 word \<times> 64 word) option" where
  "time_since_boot freq usec ti =
     (if freq = 0 then None
      else
        let ms = ticks_since_boot ti mod freq in
        if ms \<noteq> 0 then (if freq div ms = 0 then None else Some (ucast (ticks_since_boot ti div freq), ucast (1000 div (freq div ms))))
        else Some (ucast (ticks_since_boot ti div freq), usec))"

subsection \<open>Task lists as lists\<close>

primrec tpath :: "sched \<Rightarrow> addr \<Rightarrow> addr list \<Rightarrow> bool" where
  "tpath s a [] \<longleftrightarrow> a = 0"
| "tpath s a (x # xs) \<longleftrightarrow> a = x \<and> (\<exists>t. get_task x s = Some t \<and> tpath s (t_next t) xs)"

lemma tpath_in: "tpath s a xs \<Longrightarrow> x \<in> set xs \<Longrightarrow> x \<noteq> 0 \<and> get_task x s \<noteq> None"
  by (induction xs arbitrary: a) (auto simp: get_task_def split: if_splits)

lemma tpath_cong:
  assumes "\<And>x. x \<in> set xs \<Longrightarrow> map_option t_next (get_task x s') = map_option t_next (get_task x s)"
  shows "tpath s' a xs \<longleftrightarrow> tpath s a xs"
  using assms
proof (induction xs arbitrary: a)
  case (Cons x xs)
  from Cons.prems [of x] have "map_option t_next (get_task x s') = map_option t_next (get_task x s)" by simp
  then show ?case using Cons.IH Cons.prems by (cases "get_task x s"; cases "get_task x s'") auto
qed simp

text \<open>The task a path continues with after a prefix.\<close>

lemma tpath_hd: "tpath s a xs \<Longrightarrow> a = (if xs = [] then 0 else hd xs)"
  by (cases xs) auto

lemma tpath_drop:
  "tpath s a (xs @ ys) \<Longrightarrow> xs \<noteq> [] \<Longrightarrow> \<exists>t. get_task (last xs) s = Some t \<and> tpath s (t_next t) ys"
  by (induction xs arbitrary: a) (auto split: if_splits)

lemma tpath_next:
  assumes "tpath s a xs" and "i < length xs"
  shows "\<exists>t. get_task (xs ! i) s = Some t \<and> t_next t = (if Suc i < length xs then xs ! Suc i else 0)"
proof -
  have "xs = take (Suc i) xs @ drop (Suc i) xs" by simp
  with assms have "tpath s a (take (Suc i) xs @ drop (Suc i) xs)" by simp
  moreover have "last (take (Suc i) xs) = xs ! i" "take (Suc i) xs \<noteq> []" using assms(2) by (simp_all add: take_Suc_conv_app_nth)
  ultimately obtain t where "get_task (xs ! i) s = Some t" "tpath s (t_next t) (drop (Suc i) xs)"
    using tpath_drop [of s a "take (Suc i) xs" "drop (Suc i) xs"] by auto
  moreover from this(2) have "t_next t = (if Suc i < length xs then xs ! Suc i else 0)"
    using tpath_hd hd_drop_conv_nth [of "Suc i" xs] by fastforce
  ultimately show ?thesis by blast
qed

lemma last_task_ok: "tpath s a xs \<Longrightarrow> xs \<noteq> [] \<Longrightarrow> last_task a s = Some (last xs)"
proof (induction xs arbitrary: a)
  case (Cons x xs)
  then obtain t where t: "get_task x s = Some t" "tpath s (t_next t) xs" "a = x" by auto
  show ?case
  proof (cases "xs = []")
    case True
    with t show ?thesis by (simp add: last_task.simps [of x])
  next
    case False
    with t(2) have "t_next t \<noteq> 0" using tpath_hd [OF t(2)] tpath_in [OF t(2), of "hd xs"] by simp
    with t Cons.IH [OF t(2) False] False show ?thesis by (simp add: last_task.simps [of x])
  qed
qed simp

lemma get_task_upd:
  assumes "upd_task a f s = Some s'"
  shows "get_task x s' = (if x = a then map_option f (get_task a s) else get_task x s)" "s' = s\<lparr>sc_tasks := sc_tasks s'\<rparr>"
  using assms by (auto simp: upd_task_def set_task_def get_task_def split: if_splits elim!: bind_SomeE)

lemma upd_task_ok: "get_task a s = Some t \<Longrightarrow> \<exists>s'. upd_task a f s = Some s'"
  by (simp add: upd_task_def)

lemma get_task_lists [simp]:
  "get_task a (s\<lparr>sc_lists := ls\<rparr>) = get_task a s" "get_task a (s\<lparr>sc_tasks := sc_tasks s1\<rparr>) = get_task a s1"
  by (simp_all add: get_task_def)

lemma tpath_lists [simp]: "tpath (s\<lparr>sc_lists := ls\<rparr>) a xs = tpath s a xs"
  by (rule tpath_cong) simp

text \<open>A list in memory.\<close>

definition tl_is :: "sched \<Rightarrow> tlist \<Rightarrow> addr list \<Rightarrow> bool" where
  "tl_is s l xs \<longleftrightarrow> tpath s (tl_head (sc_lists s l)) xs \<and> distinct xs"

lemma tpath_snoc:
  assumes "tpath s a xs" and "distinct xs" and "x \<notin> set xs" and "xs \<noteq> []"
    and "get_task x s1 = Some tx" and "t_next tx = 0" and "x \<noteq> 0"
    and "\<And>y. y \<in> set xs \<Longrightarrow> y \<noteq> last xs \<Longrightarrow> map_option t_next (get_task y s1) = map_option t_next (get_task y s)"
    and "map_option t_next (get_task (last xs) s1) = Some x"
  shows "tpath s1 a (xs @ [x])"
  using assms(1-4,8,9)
proof (induction xs arbitrary: a)
  case (Cons y ys)
  then obtain t where t: "get_task y s = Some t" "tpath s (t_next t) ys" "a = y" by auto
  show ?case
  proof (cases "ys = []")
    case True
    with Cons.prems(6) t assms(5,6) show ?thesis by (auto simp: map_option_case split: option.splits)
  next
    case False
    then have "y \<noteq> last ys" using Cons.prems(2) by auto
    with Cons.prems(5) [of y] t False have "map_option t_next (get_task y s1) = Some (t_next t)" by simp
    moreover have "tpath s1 (t_next t) (ys @ [x])"
      using Cons.prems False t(2) by (intro Cons.IH) auto
    ultimately show ?thesis using t(3) by auto
  qed
qed simp

lemma add_to_list_ok:
  assumes "tl_is s l xs" and "get_task x s = Some t" and "x \<notin> set xs"
  shows "\<exists>s'. add_to_list l x s = Some s' \<and> tl_is s' l (xs @ [x]) \<and>
    sc_lists s' = (if xs = [] then (sc_lists s)(l := \<lparr>tl_head = x, tl_next = x\<rparr>) else sc_lists s) \<and>
    (\<forall>y. y \<noteq> x \<and> y \<notin> set xs \<longrightarrow> get_task y s' = get_task y s) \<and>
    (\<forall>y. map_option (t_next_update (\<lambda>_. 0)) (get_task y s') = map_option (t_next_update (\<lambda>_. 0)) (get_task y s)) \<and>
    s' = s\<lparr>sc_tasks := sc_tasks s', sc_lists := sc_lists s'\<rparr>"
proof -
  let ?h = "tl_head (sc_lists s l)"
  have p: "tpath s ?h xs" "distinct xs" using assms(1) by (simp_all add: tl_is_def)
  from upd_task_ok [OF assms(2)] obtain s1 where s1: "upd_task x (\<lambda>t. t\<lparr>t_next := 0\<rparr>) s = Some s1" by blast
  note g1 = get_task_upd [OF s1]
  have x0: "x \<noteq> 0" using assms(2) by (auto simp: get_task_def split: if_splits)
  have l1: "sc_lists s1 = sc_lists s" by (subst g1(2)) simp
  show ?thesis
  proof (cases "xs = []")
    case True
    with p(1) have "add_to_list l x s = Some (set_list l x s1)" using s1 by (simp add: add_to_list_def)
    moreover have "tl_is (set_list l x s1) l [x]" using g1(1) assms(2) by (simp add: tl_is_def set_list_def)
    moreover have "set_list l x s1 = s\<lparr>sc_tasks := sc_tasks s1, sc_lists := sc_lists (set_list l x s1)\<rparr>"
      by (subst g1(2)) (simp add: set_list_def l1)
    ultimately show ?thesis using True g1(1) assms(2) l1
      by (intro exI [of _ "set_list l x s1"]) (auto simp: set_list_def)
  next
    case False
    have h: "?h \<noteq> 0" using p(1) False tpath_hd [OF p(1)] tpath_in [OF p(1), of "hd xs"] by simp
    have p1: "tpath s1 ?h xs" using p(1) by (subst tpath_cong [of _ _ s]) (use g1(1) assms(3) in auto)
    from last_task_ok [OF p1 False] have la: "last_task ?h s1 = Some (last xs)" .
    have lx: "last xs \<in> set xs" "last xs \<noteq> x" using False assms(3) by auto
    from tpath_in [OF p1 lx(1)] obtain tl where "get_task (last xs) s1 = Some tl" by auto
    from upd_task_ok [OF this] obtain s2 where s2: "upd_task (last xs) (\<lambda>t. t\<lparr>t_next := x\<rparr>) s1 = Some s2" by blast
    note g2 = get_task_upd [OF s2]
    have "add_to_list l x s = Some s2" using s1 h la s2 by (simp add: add_to_list_def)
    moreover have "tpath s2 ?h (xs @ [x])"
    proof (rule tpath_snoc [OF p(1,2) assms(3) False])
      show "get_task x s2 = Some (t\<lparr>t_next := 0\<rparr>)" using g1(1) g2(1) lx assms(2) by simp
    qed (use x0 g1(1) g2(1) lx assms(3) \<open>get_task (last xs) s1 = Some tl\<close> in auto)
    moreover have l2: "sc_lists s2 = sc_lists s" by (subst g2(2)) (simp add: l1)
    moreover have "s2 = s\<lparr>sc_tasks := sc_tasks s2, sc_lists := sc_lists s2\<rparr>"
      by (subst g2(2), subst g1(2)) (simp add: l2)
    ultimately show ?thesis using False p(2) assms(3) g1(1) g2(1) lx
      by (intro exI [of _ s2]) (auto simp: tl_is_def option.map_comp comp_def)
  qed
qed

text \<open>Removing a task: the path closes over it, and the cursor moves only when the head is removed.\<close>

lemma tpath_del:
  assumes "tpath s a (ps @ x # qs)" and "distinct (ps @ x # qs)" and "ps \<noteq> []" and "get_task x s = Some t"
    and "\<And>y. y \<in> set (ps @ qs) \<Longrightarrow> y \<noteq> last ps \<Longrightarrow> map_option t_next (get_task y s1) = map_option t_next (get_task y s)"
    and "map_option t_next (get_task (last ps) s1) = Some (t_next t)"
  shows "tpath s1 a (ps @ qs)"
  using assms
proof (induction ps arbitrary: a)
  case (Cons y ps)
  from Cons.prems(1) obtain ty where ty: "get_task y s = Some ty" "tpath s (t_next ty) (ps @ x # qs)" "a = y" by auto
  show ?case
  proof (cases "ps = []")
    case True
    with ty Cons.prems(4) have q: "tpath s (t_next t) qs" by auto
    have "tpath s1 (t_next t) qs" using q
      by (subst tpath_cong [of _ _ s]) (use Cons.prems(2,5) True in auto)
    with Cons.prems(6) True ty show ?thesis by auto
  next
    case False
    then have "y \<noteq> last ps" using Cons.prems(2) by auto
    with Cons.prems(5) [of y] ty False have "map_option t_next (get_task y s1) = Some (t_next ty)" by simp
    moreover have "tpath s1 (t_next ty) (ps @ qs)"
      using Cons.prems False ty(2) by (intro Cons.IH) auto
    ultimately show ?thesis using ty(3) by auto
  qed
qed simp

lemma remove_loop_ok:
  assumes "tpath s a (ps @ x # qs)" and "x \<notin> set ps" and "get_task x s = Some t"
  shows "remove_loop l x prev a s =
    (let p = (if ps = [] then prev else last ps) in
     if p \<noteq> 0 then map_option (\<lambda>s'. (0, s')) (upd_task p (\<lambda>p. p\<lparr>t_next := t_next t\<rparr>) s)
     else Some (0, set_list l (t_next t) s))"
  using assms(1,2)
proof (induction ps arbitrary: a prev)
  case Nil
  then have "a = x" by simp
  moreover have "x \<noteq> 0" using assms(3) by (auto simp: get_task_def split: if_splits)
  ultimately show ?case using assms(3)
    by (cases "upd_task prev (\<lambda>p. p\<lparr>t_next := t_next t\<rparr>) s") (simp_all add: remove_loop.simps [of l x prev x])
next
  case (Cons y ps)
  from Cons.prems(1) obtain ty where ty: "get_task y s = Some ty" "tpath s (t_next ty) (ps @ x # qs)" "a = y" by auto
  then have "y \<noteq> 0" by (auto simp: get_task_def split: if_splits)
  with Cons.IH [OF ty(2), of y] Cons.prems(2) ty show ?case by (auto simp: remove_loop.simps [of l x prev y] Let_def)
qed

lemma remove_from_list_ok:
  assumes "tl_is s l (ps @ x # qs)"
  shows "\<exists>s'. remove_from_list l x s = Some (0, s') \<and> tl_is s' l (ps @ qs) \<and>
    sc_lists s' = (if ps = [] then (sc_lists s)(l := \<lparr>tl_head = (if qs = [] then 0 else hd qs), tl_next = (if qs = [] then 0 else hd qs)\<rparr>)
      else sc_lists s) \<and>
    (\<forall>y. ps = [] \<or> y \<noteq> last ps \<longrightarrow> get_task y s' = get_task y s) \<and>
    (\<forall>y. map_option (t_next_update (\<lambda>_. 0)) (get_task y s') = map_option (t_next_update (\<lambda>_. 0)) (get_task y s)) \<and>
    s' = s\<lparr>sc_tasks := sc_tasks s', sc_lists := sc_lists s'\<rparr>"
proof -
  let ?h = "tl_head (sc_lists s l)"
  have p: "tpath s ?h (ps @ x # qs)" "distinct (ps @ x # qs)" using assms by (simp_all add: tl_is_def)
  from tpath_in [OF p(1), of x] obtain t where t: "get_task x s = Some t" by auto
  have nx: "tpath s (t_next t) qs" using tpath_drop [of s ?h "ps @ [x]" qs] p(1) t by simp
  have h: "?h \<noteq> 0" using p(1) tpath_hd [OF p(1)] tpath_in [OF p(1), of "hd (ps @ x # qs)"] by (cases ps) auto
  have x: "x \<notin> set ps" using p(2) by auto
  have r: "remove_from_list l x s = (let p = (if ps = [] then 0 else last ps) in
     if p \<noteq> 0 then map_option (\<lambda>s'. (0, s')) (upd_task p (\<lambda>p. p\<lparr>t_next := t_next t\<rparr>) s)
     else Some (0, set_list l (t_next t) s))"
    using remove_loop_ok [OF p(1) x t, of l 0] h by (simp add: remove_from_list_def)
  show ?thesis
  proof (cases "ps = []")
    case True
    with r have "remove_from_list l x s = Some (0, set_list l (t_next t) s)" by simp
    moreover have "t_next t = (if qs = [] then 0 else hd qs)" using tpath_hd [OF nx] .
    ultimately show ?thesis using True nx p(2)
      by (intro exI [of _ "set_list l (t_next t) s"]) (simp add: set_list_def tl_is_def)
  next
    case False
    have l0: "last ps \<noteq> 0" "get_task (last ps) s \<noteq> None" using tpath_in [OF p(1), of "last ps"] False by auto
    then obtain tl where "get_task (last ps) s = Some tl" by blast
    from upd_task_ok [OF this] obtain s' where s': "upd_task (last ps) (\<lambda>p. p\<lparr>t_next := t_next t\<rparr>) s = Some s'" by blast
    note g = get_task_upd [OF s']
    have "remove_from_list l x s = Some (0, s')" using r False l0 s' by simp
    moreover have "tpath s' ?h (ps @ qs)"
      by (rule tpath_del [OF p False t]) (use g(1) l0 in auto)
    moreover have ls: "sc_lists s' = sc_lists s" by (subst g(2)) simp
    moreover have "s' = s\<lparr>sc_tasks := sc_tasks s', sc_lists := sc_lists s'\<rparr>" by (subst g(2)) (simp add: ls)
    ultimately show ?thesis using False g(1) p(2)
      by (intro exI [of _ s']) (auto simp: tl_is_def option.map_comp comp_def)
  qed
qed

lemma find_pid_ok:
  "tpath s a xs \<Longrightarrow> find_pid_loop a pid s =
     Some (case find (\<lambda>x. map_option t_pid (get_task x s) = Some pid) xs of None \<Rightarrow> 0 | Some x \<Rightarrow> x)"
proof (induction xs arbitrary: a)
  case Nil
  then show ?case by (simp add: find_pid_loop.simps [of 0])
next
  case (Cons x xs)
  then obtain t where t: "get_task x s = Some t" "tpath s (t_next t) xs" "a = x" by auto
  then have "x \<noteq> 0" by (auto simp: get_task_def split: if_splits)
  with t Cons.IH [OF t(2)] show ?case by (simp add: find_pid_loop.simps [of x])
qed

lemma count_loop_ok: "tpath s a xs \<Longrightarrow> count_loop a s n = Some (n + int (length xs))"
proof (induction xs arbitrary: a n)
  case Nil
  then show ?case by (simp add: count_loop.simps [of 0])
next
  case (Cons x xs)
  then obtain t where t: "get_task x s = Some t" "tpath s (t_next t) xs" "a = x" by auto
  then have "x \<noteq> 0" by (auto simp: get_task_def split: if_splits)
  with t Cons.IH [OF t(2), of "n + 1"] show ?case by (simp add: count_loop.simps [of x])
qed

subsection \<open>Round robin\<close>

text \<open>A server that goes round a fixed list: \<open>ok s xs i\<close> says that the next to be served is element \<open>i\<close>, or the first at the end.\<close>

primrec serve :: "('s \<Rightarrow> ('a \<times> 's) option) \<Rightarrow> nat \<Rightarrow> 's \<Rightarrow> ('a list \<times> 's) option" where
  "serve step 0 s = Some ([], s)"
| "serve step (Suc n) s = do { (x, s) \<leftarrow> step s; (xs, s) \<leftarrow> serve step n s; Some (x # xs, s) }"

locale round_robin =
  fixes ok :: "'s \<Rightarrow> 'a list \<Rightarrow> nat \<Rightarrow> bool" and step :: "'s \<Rightarrow> ('a \<times> 's) option"
  assumes step_ok: "ok s xs i \<Longrightarrow> xs \<noteq> [] \<Longrightarrow> \<exists>s'. step s = Some (xs ! (i mod length xs), s') \<and> ok s' xs (Suc (i mod length xs))"
begin

lemma serve_ok:
  "ok s xs i \<Longrightarrow> xs \<noteq> [] \<Longrightarrow>
    \<exists>s'. serve step n s = Some (map (\<lambda>k. xs ! ((i + k) mod length xs)) [0..<n], s') \<and> (\<exists>j. ok s' xs j)"
proof (induction n arbitrary: s i)
  case (Suc n)
  from step_ok [OF Suc.prems] obtain s1 where s1: "step s = Some (xs ! (i mod length xs), s1)" "ok s1 xs (Suc (i mod length xs))" by blast
  from Suc.IH [OF s1(2) Suc.prems(2)] obtain s2 j where
    s2: "serve step n s1 = Some (map (\<lambda>k. xs ! ((Suc (i mod length xs) + k) mod length xs)) [0..<n], s2)" "ok s2 xs j" by blast
  have "(Suc (i mod length xs) + k) mod length xs = (i + Suc k) mod length xs" for k
    by (metis add_Suc_right add_Suc mod_add_left_eq)
  then have "xs ! (i mod length xs) # map (\<lambda>k. xs ! ((Suc (i mod length xs) + k) mod length xs)) [0..<n] =
      map (\<lambda>k. xs ! ((i + k) mod length xs)) [0..<Suc n]"
    by (simp add: upt_conv_Cons map_Suc_upt [symmetric] del: upt_Suc)
  with s1 s2 show ?case by auto
qed auto

lemma served: "ok s xs i \<Longrightarrow> x \<in> set xs \<Longrightarrow> \<exists>ys s'. serve step (length xs) s = Some (ys, s') \<and> x \<in> set ys"
proof -
  assume a: "ok s xs i" and x: "x \<in> set xs"
  then have ne: "xs \<noteq> []" by auto
  from x obtain j where j: "j < length xs" "x = xs ! j" by (auto simp: in_set_conv_nth)
  define k where "k = (j + (length xs - i mod length xs)) mod length xs"
  have "(i + k) mod length xs = (i mod length xs + (j + (length xs - i mod length xs))) mod length xs"
    by (simp add: k_def mod_add_right_eq mod_add_left_eq)
  also have "i mod length xs + (j + (length xs - i mod length xs)) = j + length xs"
    using mod_less_divisor [of "length xs" i] ne by (metis add.assoc add.commute le_add_diff_inverse length_greater_0_conv less_imp_le)
  finally have "(i + k) mod length xs = j" using j by simp
  moreover have "k < length xs" using ne by (simp add: k_def)
  ultimately have "x \<in> set (map (\<lambda>k. xs ! ((i + k) mod length xs)) [0..<length xs])" using j(2) by force
  with serve_ok [OF a ne, of "length xs"] show ?thesis by blast
qed

end

text \<open>The tasks of a set can be switched to and from.\<close>

definition switchable :: "sched \<Rightarrow> addr \<Rightarrow> bool" where
  "switchable s a \<longleftrightarrow> (\<exists>t v. get_task a s = Some t \<and> t_threads t = Some v \<and>
     get_thread (fst (vec_get 0 v 0)) s \<noteq> None \<and> load_dir (t_directory t) (sc_vm s) \<noteq> None)"

definition rr_ok :: "sched \<Rightarrow> addr list \<Rightarrow> nat \<Rightarrow> bool" where
  "rr_ok s xs i \<longleftrightarrow> tl_is s Ready xs \<and> i \<le> length xs \<and>
     tl_next (sc_lists s Ready) = (if i < length xs then xs ! i else 0) \<and>
     (\<forall>x \<in> set xs. switchable s x) \<and> switchable s (g_runningtask s)"

lemma get_thread_cong: "sc_threads s' = sc_threads s \<Longrightarrow> get_thread a s' = get_thread a s"
  by (simp add: get_thread_def)

lemma get_thread_flags [simp]:
  "get_thread a (s\<lparr>cpu_esp0 := e\<rparr>) = get_thread a s" "get_thread a (s\<lparr>cpu_if := b\<rparr>) = get_thread a s"
  "get_thread a (s\<lparr>scheduler_locks := n\<rparr>) = get_thread a s" "get_thread a (s\<lparr>sc_lists := l\<rparr>) = get_thread a s"
  by (simp_all add: get_thread_def)

lemma get_task_flags [simp]:
  "get_task a (s\<lparr>cpu_if := b\<rparr>) = get_task a s" "get_task a (s\<lparr>scheduler_locks := n\<rparr>) = get_task a s"
  by (simp_all add: get_task_def)

lemma tpath_flags [simp]:
  "tpath (s\<lparr>cpu_if := b\<rparr>) a xs = tpath s a xs" "tpath (s\<lparr>scheduler_locks := n\<rparr>) a xs = tpath s a xs"
  by (rule tpath_cong, simp)+

lemma get_next_task_ok:
  assumes "rr_ok s xs i" and "xs \<noteq> []"
  shows "\<exists>s'. get_next_task s = Some (xs ! (i mod length xs), s') \<and> rr_ok s' xs (Suc (i mod length xs)) \<and>
    s' = s\<lparr>sc_lists := sc_lists s'\<rparr>"
proof -
  let ?h = "tl_head (sc_lists s Ready)" and ?i = "i mod length xs"
  have p: "tpath s ?h xs" "distinct xs" and i: "i \<le> length xs" using assms by (simp_all add: rr_ok_def tl_is_def)
  have il: "?i < length xs" using assms(2) by simp
  have nx: "(if tl_next (sc_lists s Ready) \<noteq> 0 then tl_next (sc_lists s Ready) else ?h) = xs ! ?i"
  proof (cases "i < length xs")
    case True
    then have "xs ! i \<noteq> 0" using tpath_in [OF p(1), of "xs ! i"] by simp
    with True assms(1) show ?thesis by (simp add: rr_ok_def)
  next
    case False
    then have "i = length xs" using i by simp
    with assms show ?thesis using tpath_hd [OF p(1)] by (simp add: rr_ok_def hd_conv_nth)
  qed
  from tpath_next [OF p(1) il] obtain t where
    t: "get_task (xs ! ?i) s = Some t" "t_next t = (if Suc ?i < length xs then xs ! Suc ?i else 0)" by blast
  define s' where "s' = s\<lparr>sc_lists := (sc_lists s)(Ready := (sc_lists s Ready)\<lparr>tl_next := t_next t\<rparr>)\<rparr>"
  have "get_next_task s = Some (xs ! ?i, s')"
    using nx t(1) by (auto simp: get_next_task_def get_next_from_list_def Let_def s'_def split: if_splits)
  moreover have "rr_ok s' xs (Suc ?i)"
    using assms(1) t(2) il by (auto simp: rr_ok_def tl_is_def s'_def switchable_def)
  ultimately show ?thesis by (auto simp: s'_def)
qed

lemma arch_task_switch_eq:
  assumes "get_main_thrd nxt s = Some nt" and "get_main_thrd prev s = Some pt" and "get_thread nt s = Some n"
    and "get_thread pt s = Some p" and "get_task nxt s = Some t" and "load_dir (t_directory t) (sc_vm s) = Some d"
  shows "arch_task_switch nxt prev s = Some (s\<lparr>cpu_esp0 := th_kernel_stack n, sc_vm := (sc_vm s)\<lparr>vm_cr3 := physicalAddress d\<rparr>,
       sc_threads := (sc_threads s)(pt \<mapsto> p\<lparr>th_stack := cpu_esp s\<rparr>), cpu_esp := th_stack n, cpu_if := False\<rparr>)"
proof -
  have "get_thread pt (s\<lparr>cpu_esp0 := e\<rparr>) = Some p" for e using assms(4) by simp
  with assms show ?thesis by (simp add: arch_task_switch_def do_task_switch_def)
qed

lemma switch_task_eq:
  assumes "g_runningtask s \<noteq> x" and "get_task x s = Some t" and "t_threads t = Some v" and "get_thread (fst (vec_get 0 v 0)) s = Some n"
    and "load_dir (t_directory t) (sc_vm s) = Some d" and "get_task (g_runningtask s) s = Some t'" and "t_threads t' = Some v'"
    and "get_thread (fst (vec_get 0 v' 0)) s = Some p"
  shows "switch_task x s = Some (s\<lparr>g_runningtask := x, sc_tasks := (sc_tasks s)(x \<mapsto> t\<lparr>t_sliceused := 0\<rparr>),
    sc_vm := (sc_vm s)\<lparr>g_current_directory := t_directory t, vm_cr3 := physicalAddress d\<rparr>, cpu_esp0 := th_kernel_stack n,
    sc_threads := (sc_threads s)(fst (vec_get 0 v' 0) \<mapsto> p\<lparr>th_stack := cpu_esp s\<rparr>), cpu_esp := th_stack n, cpu_if := False\<rparr>)"
proof -
  have x0: "x \<noteq> 0" using assms(2) by (auto simp: get_task_def split: if_splits)
  define s1 where "s1 = s\<lparr>g_runningtask := x, sc_tasks := (sc_tasks s)(x \<mapsto> t\<lparr>t_sliceused := 0\<rparr>)\<rparr>"
  define s2 where "s2 = s1\<lparr>sc_vm := (sc_vm s)\<lparr>g_current_directory := t_directory t\<rparr>\<rparr>"
  have u: "upd_task x (\<lambda>t. t\<lparr>t_sliceused := 0\<rparr>) (s\<lparr>g_runningtask := x\<rparr>) = Some s1"
    using assms(2) x0 by (simp add: upd_task_def get_task_def set_task_def s1_def)
  have g1: "get_task x s1 = Some (t\<lparr>t_sliceused := 0\<rparr>)" using x0 by (simp add: get_task_def s1_def)
  have sw: "switch_task x s = arch_task_switch x (g_runningtask s) s2"
    using u g1 assms(1) x0 by (simp add: switch_task_def set_current_dir_def s2_def) (simp add: s1_def)
  have gx: "get_task x s2 = Some (t\<lparr>t_sliceused := 0\<rparr>)" using x0 by (simp add: get_task_def s2_def s1_def)
  have gr: "get_task (g_runningtask s) s2 = Some t'" using assms(1,6) by (simp add: get_task_def s2_def s1_def split: if_splits)
  have th: "get_thread a s2 = get_thread a s" for a by (rule get_thread_cong) (simp add: s2_def s1_def)
  have ld: "load_dir (t_directory (t\<lparr>t_sliceused := 0\<rparr>)) (sc_vm s2) = Some d" using assms(5) by (simp add: load_dir_def s2_def split: if_splits)
  have "get_main_thrd x s2 = Some (fst (vec_get 0 v 0))" "get_main_thrd (g_runningtask s) s2 = Some (fst (vec_get 0 v' 0))"
    using gx gr assms(3,7) by (simp_all add: get_main_thrd_def)
  from arch_task_switch_eq [OF this _ _ gx ld, unfolded th, OF assms(4,8)] sw show ?thesis by (simp add: s2_def s1_def)
qed

lemma switch_task_ok:
  assumes "switchable s x" and "switchable s (g_runningtask s)"
  shows "\<exists>s'. switch_task x s = Some s' \<and> g_runningtask s' = x \<and> sc_lists s' = sc_lists s \<and> scheduler_locks s' = scheduler_locks s \<and>
    (\<forall>a xs. tpath s' a xs = tpath s a xs) \<and> (\<forall>y. switchable s y \<longrightarrow> switchable s' y)"
proof (cases "g_runningtask s = x")
  case True
  then show ?thesis by (simp add: switch_task_def)
next
  case False
  from assms(1) obtain t v n d where x: "get_task x s = Some t" "t_threads t = Some v" "get_thread (fst (vec_get 0 v 0)) s = Some n"
    "load_dir (t_directory t) (sc_vm s) = Some d" by (auto simp: switchable_def)
  from assms(2) obtain t' v' p where r: "get_task (g_runningtask s) s = Some t'" "t_threads t' = Some v'"
    "get_thread (fst (vec_get 0 v' 0)) s = Some p" by (auto simp: switchable_def)
  from switch_task_eq [OF False x r] obtain s' where s': "switch_task x s = Some s'" "g_runningtask s' = x" "sc_lists s' = sc_lists s"
    "scheduler_locks s' = scheduler_locks s" "sc_tasks s' = (sc_tasks s)(x \<mapsto> t\<lparr>t_sliceused := 0\<rparr>)"
    "sc_threads s' = (sc_threads s)(fst (vec_get 0 v' 0) \<mapsto> p\<lparr>th_stack := cpu_esp s\<rparr>)" "pg_dirs (sc_vm s') = pg_dirs (sc_vm s)"
    by simp
  have gt: "get_task y s' = (if y = x then Some (t\<lparr>t_sliceused := 0\<rparr>) else get_task y s)" for y
    using x(1) s'(5) by (auto simp: get_task_def split: if_splits)
  have tp: "tpath s' a xs = tpath s a xs" for a xs
    by (rule tpath_cong) (simp add: gt x(1))
  have "get_thread b s' \<noteq> None" if "get_thread b s \<noteq> None" for b using that s'(6) by (auto simp: get_thread_def split: if_splits)
  moreover have "load_dir a (sc_vm s') = load_dir a (sc_vm s)" for a using s'(7) by (simp add: load_dir_def)
  ultimately have "switchable s' y" if "switchable s y" for y
    using that x(1) unfolding switchable_def gt by (cases "y = x") auto
  with s' tp show ?thesis by blast
qed

lemma rr_ok_cong:
  assumes "rr_ok s xs i" and "sc_lists s' = sc_lists s" and "\<And>a xs. tpath s' a xs = tpath s a xs"
    and "\<And>y. switchable s y \<Longrightarrow> switchable s' y" and "switchable s' (g_runningtask s')"
  shows "rr_ok s' xs i"
  using assms by (auto simp: rr_ok_def tl_is_def)

lemma rr_ok_flags [simp]:
  "rr_ok (s\<lparr>cpu_if := b\<rparr>) xs i = rr_ok s xs i" "rr_ok (s\<lparr>scheduler_locks := n\<rparr>) xs i = rr_ok s xs i"
  by (simp_all add: rr_ok_def tl_is_def switchable_def)

lemma schedule_run:
  assumes s1: "get_next_task (lock_scheduler s) = Some (x, s1)" "s1 = (lock_scheduler s)\<lparr>sc_lists := sc_lists s1\<rparr>"
    and ok: "rr_ok s1 xs j" and x: "switchable s1 x"
  shows "\<exists>s'. schedule s = Some s' \<and> g_runningtask s' = x \<and> rr_ok s' xs j \<and> scheduler_locks s' = scheduler_locks s"
proof -
  have sw: "switchable s1 (g_runningtask s1)" using ok by (simp add: rr_ok_def)
  from switch_task_ok [OF x sw] obtain s2 where
    s2: "switch_task x s1 = Some s2" "g_runningtask s2 = x" "sc_lists s2 = sc_lists s1" "scheduler_locks s2 = scheduler_locks s1"
      "\<forall>a xs. tpath s2 a xs = tpath s1 a xs" "\<forall>y. switchable s1 y \<longrightarrow> switchable s2 y" by blast
  have "rr_ok s2 xs j" using s2 sw x by (intro rr_ok_cong [OF ok]) auto
  then have "rr_ok (unlock_scheduler s2) xs j" by (simp add: unlock_scheduler_def Let_def)
  moreover have "x \<noteq> 0" using x by (auto simp: switchable_def get_task_def split: if_splits)
  moreover have "scheduler_locks s1 = scheduler_locks s + 1" by (subst s1(2)) (simp add: lock_scheduler_def)
  ultimately show ?thesis using s1(1) s2
    by (intro exI [of _ "unlock_scheduler s2"]) (simp add: schedule_def unlock_scheduler_def Let_def)
qed

lemma schedule_ok:
  assumes "rr_ok s xs i" and "xs \<noteq> []"
  shows "\<exists>s'. schedule s = Some s' \<and> g_runningtask s' = xs ! (i mod length xs) \<and> rr_ok s' xs (Suc (i mod length xs)) \<and>
    scheduler_locks s' = scheduler_locks s"
proof -
  let ?x = "xs ! (i mod length xs)"
  have "rr_ok (lock_scheduler s) xs i" using assms(1) by (simp add: lock_scheduler_def)
  from get_next_task_ok [OF this assms(2)] obtain s1 where
    s1: "get_next_task (lock_scheduler s) = Some (?x, s1)" "rr_ok s1 xs (Suc (i mod length xs))"
      "s1 = (lock_scheduler s)\<lparr>sc_lists := sc_lists s1\<rparr>" by blast
  have "?x \<in> set xs" using assms(2) by simp
  with s1(2) have "switchable s1 ?x" by (simp add: rr_ok_def)
  with schedule_run [OF s1(1,3,2)] show ?thesis by blast
qed

text \<open>Removing the task under the cursor can leave the cursor on a task \<open>y\<close> that is not ready any more. Its link still leads to
  a ready task or is null, and the next call runs \<open>y\<close> and follows the link.\<close>

definition rr_removed :: "sched \<Rightarrow> addr list \<Rightarrow> addr \<Rightarrow> nat \<Rightarrow> bool" where
  "rr_removed s xs y i \<longleftrightarrow> tl_is s Ready xs \<and> i \<le> length xs \<and> tl_next (sc_lists s Ready) = y \<and> y \<notin> set xs \<and>
     map_option t_next (get_task y s) = Some (if i < length xs then xs ! i else 0) \<and>
     (\<forall>x \<in> set xs. switchable s x) \<and> switchable s y \<and> switchable s (g_runningtask s)"

lemma rr_removed_flags [simp]:
  "rr_removed (s\<lparr>cpu_if := b\<rparr>) xs y i = rr_removed s xs y i" "rr_removed (s\<lparr>scheduler_locks := n\<rparr>) xs y i = rr_removed s xs y i"
  by (simp_all add: rr_removed_def tl_is_def switchable_def)

lemma schedule_removed:
  assumes "rr_removed s xs y i"
  shows "\<exists>s'. schedule s = Some s' \<and> g_runningtask s' = y \<and> rr_ok s' xs i"
proof -
  let ?s = "lock_scheduler s"
  have r: "rr_removed ?s xs y i" using assms by (simp add: lock_scheduler_def)
  then obtain t where t: "get_task y ?s = Some t" "t_next t = (if i < length xs then xs ! i else 0)" "tl_next (sc_lists ?s Ready) = y"
    unfolding rr_removed_def by (auto simp del: if_split)
  define s1 where "s1 = ?s\<lparr>sc_lists := (sc_lists ?s)(Ready := (sc_lists ?s Ready)\<lparr>tl_next := t_next t\<rparr>)\<rparr>"
  have "y \<noteq> 0" using t(1) by (auto simp: get_task_def split: if_splits)
  with t(1,3) have "get_next_task ?s = Some (y, s1)" by (simp add: get_next_task_def get_next_from_list_def Let_def s1_def)
  moreover have "rr_ok s1 xs i" "switchable s1 y"
    using r t(2) by (simp_all add: rr_removed_def rr_ok_def tl_is_def s1_def switchable_def)
  moreover have "s1 = ?s\<lparr>sc_lists := sc_lists s1\<rparr>" by (simp add: s1_def)
  ultimately show ?thesis using schedule_run [of s y s1 xs i] by blast
qed

definition schedule_step :: "sched \<Rightarrow> (addr \<times> sched) option" where
  "schedule_step s = do { s \<leftarrow> schedule s; Some (g_runningtask s, s) }"

interpretation rr: round_robin rr_ok schedule_step
proof
  fix s xs i assume "rr_ok s xs i" "xs \<noteq> []"
  from schedule_ok [OF this] show "\<exists>s'. schedule_step s = Some (xs ! (i mod length xs), s') \<and> rr_ok s' xs (Suc (i mod length xs))"
    by (auto simp: schedule_step_def)
qed

subsection \<open>The three lists\<close>

text \<open>\<open>lists_wf f s\<close>: list \<open>l\<close> holds the tasks \<open>f l\<close>, and no task is on two lists.\<close>

definition lists_wf :: "(tlist \<Rightarrow> addr list) \<Rightarrow> sched \<Rightarrow> bool" where
  "lists_wf f s \<longleftrightarrow> (\<forall>l. tl_is s l (f l)) \<and> (\<forall>l l'. l \<noteq> l' \<longrightarrow> set (f l) \<inter> set (f l') = {})"

lemma lists_wf_cong:
  assumes "lists_wf f s" and "\<And>l. tl_head (sc_lists s' l) = tl_head (sc_lists s l)"
    and "\<And>x. map_option t_next (get_task x s') = map_option t_next (get_task x s)"
  shows "lists_wf f s'"
  using assms tpath_cong [of _ s' s] by (simp add: lists_wf_def tl_is_def)

lemma lists_wf_flags [simp]:
  "lists_wf f (s\<lparr>cpu_if := b\<rparr>) = lists_wf f s" "lists_wf f (s\<lparr>scheduler_locks := n\<rparr>) = lists_wf f s"
  by (simp_all add: lists_wf_def tl_is_def)

lemma lists_wf_lock [simp]:
  "lists_wf f (lock_scheduler s) = lists_wf f s" "lists_wf f (unlock_scheduler s) = lists_wf f s"
  "get_task x (lock_scheduler s) = get_task x s"
  by (simp_all add: lock_scheduler_def unlock_scheduler_def Let_def)

lemma tl_is_other:
  assumes "lists_wf f s" and "l' \<noteq> l" and "sc_lists s' l' = sc_lists s l'"
    and "\<And>y. y \<in> set (f l') \<Longrightarrow> get_task y s' = get_task y s"
  shows "tl_is s' l' (f l')"
  using assms tpath_cong [of "f l'" s' s] by (simp add: lists_wf_def tl_is_def)

lemma remove_wf:
  assumes "lists_wf f s" and "f l = ps @ x # qs"
  shows "\<exists>s'. remove_from_list l x s = Some (0, s') \<and> lists_wf (f(l := ps @ qs)) s' \<and>
    get_task x s' = get_task x s \<and> s' = s\<lparr>sc_tasks := sc_tasks s', sc_lists := sc_lists s'\<rparr>"
proof -
  from assms have l: "tl_is s l (ps @ x # qs)" by (metis lists_wf_def)
  from remove_from_list_ok [OF this] obtain s' where
    s': "remove_from_list l x s = Some (0, s')" "tl_is s' l (ps @ qs)"
      "sc_lists s' = (if ps = [] then (sc_lists s)(l := \<lparr>tl_head = (if qs = [] then 0 else hd qs), tl_next = (if qs = [] then 0 else hd qs)\<rparr>)
        else sc_lists s)" "\<forall>y. ps = [] \<or> y \<noteq> last ps \<longrightarrow> get_task y s' = get_task y s"
      "s' = s\<lparr>sc_tasks := sc_tasks s', sc_lists := sc_lists s'\<rparr>" by blast
  have "tl_is s' l' (f l')" if "l' \<noteq> l" for l'
  proof (rule tl_is_other [OF assms(1) that])
    show "sc_lists s' l' = sc_lists s l'" using s'(3) that by simp
    fix y assume "y \<in> set (f l')"
    then have "y \<notin> set (f l)" using assms(1) that unfolding lists_wf_def by blast
    then have "ps = [] \<or> y \<noteq> last ps" using assms(2) last_in_set [of ps] by auto
    with s'(4) show "get_task y s' = get_task y s" by blast
  qed
  with s'(2) have "tl_is s' l' ((f(l := ps @ qs)) l')" for l' by simp
  moreover have "set ((f(l := ps @ qs)) l') \<subseteq> set (f l')" for l' using assms(2) by auto
  then have "l1 \<noteq> l2 \<Longrightarrow> set ((f(l := ps @ qs)) l1) \<inter> set ((f(l := ps @ qs)) l2) = {}" for l1 l2
    using assms(1) unfolding lists_wf_def by blast
  ultimately have "lists_wf (f(l := ps @ qs)) s'" unfolding lists_wf_def by blast
  moreover have "ps = [] \<or> x \<noteq> last ps" using l by (auto simp: tl_is_def)
  with s'(4) have "get_task x s' = get_task x s" by blast
  ultimately show ?thesis using s'(1,5) by blast
qed

lemma add_wf:
  assumes "lists_wf f s" and "get_task x s = Some t" and "\<And>l. x \<notin> set (f l)"
  shows "\<exists>s'. add_to_list l x s = Some s' \<and> lists_wf (f(l := f l @ [x])) s' \<and>
    s' = s\<lparr>sc_tasks := sc_tasks s', sc_lists := sc_lists s'\<rparr>"
proof -
  from assms(1) have l: "tl_is s l (f l)" by (simp add: lists_wf_def)
  from add_to_list_ok [OF this assms(2,3)] obtain s' where
    s': "add_to_list l x s = Some s'" "tl_is s' l (f l @ [x])"
      "sc_lists s' = (if f l = [] then (sc_lists s)(l := \<lparr>tl_head = x, tl_next = x\<rparr>) else sc_lists s)"
      "\<forall>y. y \<noteq> x \<and> y \<notin> set (f l) \<longrightarrow> get_task y s' = get_task y s"
      "s' = s\<lparr>sc_tasks := sc_tasks s', sc_lists := sc_lists s'\<rparr>" by blast
  have "tl_is s' l' (f l')" if "l' \<noteq> l" for l'
  proof (rule tl_is_other [OF assms(1) that])
    show "sc_lists s' l' = sc_lists s l'" using s'(3) that by simp
    fix y assume y: "y \<in> set (f l')"
    then have "y \<notin> set (f l)" using assms(1) that unfolding lists_wf_def by blast
    moreover have "y \<noteq> x" using y assms(3) by blast
    ultimately show "get_task y s' = get_task y s" using s'(4) by blast
  qed
  with s'(2) have "tl_is s' l' ((f(l := f l @ [x])) l')" for l' by simp
  moreover have "set ((f(l := f l @ [x])) l1) \<inter> set ((f(l := f l @ [x])) l2) = {}" if "l1 \<noteq> l2" for l1 l2
  proof -
    have "set (f l1) \<inter> set (f l2) = {}" using assms(1) that unfolding lists_wf_def by blast
    with assms(3) that show ?thesis by auto
  qed
  ultimately have "lists_wf (f(l := f l @ [x])) s'" unfolding lists_wf_def by blast
  with s'(1,5) show ?thesis by blast
qed

lemma find_wf:
  assumes "lists_wf f s"
  shows "find_task_in_list_by_pid l pid s =
    Some (case find (\<lambda>x. map_option t_pid (get_task x s) = Some pid) (f l) of None \<Rightarrow> 0 | Some x \<Rightarrow> x)"
proof -
  have "tpath s (tl_head (sc_lists s l)) (f l)" using assms by (simp add: lists_wf_def tl_is_def)
  then show ?thesis by (simp add: find_task_in_list_by_pid_def find_pid_ok)
qed

lemma find_zero:
  assumes "lists_wf f s" and "find_task_in_list_by_pid l pid s = Some x" and "x \<noteq> 0"
  shows "\<exists>ps qs. f l = ps @ x # qs"
proof -
  from assms(3) find_wf [OF assms(1), of l pid] assms(2)
  have "find (\<lambda>x. map_option t_pid (get_task x s) = Some pid) (f l) = Some x" by (auto split: option.splits)
  then have "x \<in> set (f l)" by (auto simp: find_Some_iff)
  then show ?thesis by (metis split_list)
qed

text \<open>A task found on one list moves to the end of another.\<close>

lemma move_wf:
  assumes "lists_wf f s" and "f l = ps @ x # qs" and "l' \<noteq> l"
  shows "\<exists>s1 s2. remove_from_list l x s = Some (0, s1) \<and> add_to_list l' x s1 = Some s2 \<and>
    lists_wf (f(l := ps @ qs, l' := f l' @ [x])) s2 \<and> s2 = s\<lparr>sc_tasks := sc_tasks s2, sc_lists := sc_lists s2\<rparr>"
proof -
  from remove_wf [OF assms(1,2)] obtain s1 where
    s1: "remove_from_list l x s = Some (0, s1)" "lists_wf (f(l := ps @ qs)) s1" "get_task x s1 = get_task x s"
      "s1 = s\<lparr>sc_tasks := sc_tasks s1, sc_lists := sc_lists s1\<rparr>" by blast
  have l: "tl_is s l (ps @ x # qs)" using assms(1,2) by (metis lists_wf_def)
  then obtain t where t: "get_task x s1 = Some t" using tpath_in [of s _ "ps @ x # qs" x] s1(3) by (auto simp: tl_is_def)
  have "x \<notin> set (f k)" if "k \<noteq> l" for k
  proof -
    have "x \<in> set (f l)" using assms(2) by simp
    then show ?thesis using assms(1) that unfolding lists_wf_def by blast
  qed
  moreover have "x \<notin> set (ps @ qs)" using l by (auto simp: tl_is_def)
  ultimately have "x \<notin> set ((f(l := ps @ qs)) k)" for k by simp
  from add_wf [OF s1(2) t this, of l'] obtain s2 where
    s2: "add_to_list l' x s1 = Some s2" "lists_wf (f(l := ps @ qs, l' := f l' @ [x])) s2"
      "s2 = s1\<lparr>sc_tasks := sc_tasks s2, sc_lists := sc_lists s2\<rparr>" unfolding fun_upd_other [OF assms(3)] by blast
  from s1(4) s2(3) have "s2 = s\<lparr>sc_tasks := sc_tasks s2, sc_lists := sc_lists s2\<rparr>"
    by (metis sched.surjective sched.update_convs(2) sched.update_convs(4))
  with s1(1) s2(1,2) show ?thesis by blast
qed

lemma remove_loop_absent:
  "tpath s a xs \<Longrightarrow> x \<notin> set xs \<Longrightarrow> remove_loop l x prev a s = Some (-1, s)"
proof (induction xs arbitrary: a prev)
  case Nil
  then show ?case by (simp add: remove_loop.simps [of l x prev 0])
next
  case (Cons y xs)
  from Cons.prems(1) obtain ty where ty: "get_task y s = Some ty" "tpath s (t_next ty) xs" "a = y" by auto
  then have "y \<noteq> 0" by (auto simp: get_task_def split: if_splits)
  with Cons.IH [OF ty(2)] Cons.prems(2) ty show ?case by (auto simp: remove_loop.simps [of l x prev y])
qed

lemma remove_from_list_absent: "tl_is s l xs \<Longrightarrow> x \<notin> set xs \<Longrightarrow> remove_from_list l x s = Some (-1, s)"
  using remove_loop_absent [of s _ xs x l 0] by (auto simp: remove_from_list_def tl_is_def)

lemma get_next_wf:
  assumes "get_next_task s = Some (x, s')" and "lists_wf f s"
  shows "lists_wf f s'"
  by (rule lists_wf_cong [OF assms(2)])
    (use assms(1) in \<open>auto simp: get_next_task_def get_next_from_list_def Let_def split: if_splits elim!: bind_SomeE\<close>)

lemma switch_wf:
  assumes "switch_task x s = Some s'" and "lists_wf f s"
  shows "lists_wf f s'"
proof (cases "g_runningtask s = x \<or> x = 0")
  case True
  with assms show ?thesis by (auto simp: switch_task_def Let_def split: if_splits)
next
  case False
  with assms(1) obtain s1 and t :: task where s1: "upd_task x (\<lambda>t. t\<lparr>t_sliceused := 0\<rparr>) (s\<lparr>g_runningtask := x\<rparr>) = Some s1"
    "arch_task_switch x (g_runningtask s) (s1\<lparr>sc_vm := set_current_dir (t_directory t) (sc_vm s1)\<rparr>) = Some s'"
    by (simp add: switch_task_def Let_def) (elim bind_SomeE, rule that, assumption+)
  from s1(2) have "sc_tasks s' = sc_tasks s1" "sc_lists s' = sc_lists s1"
    by (auto simp: arch_task_switch_def do_task_switch_def elim!: bind_SomeE)
  moreover have "sc_lists s1 = sc_lists s" by (subst get_task_upd(2) [OF s1(1)]) simp
  moreover have "map_option t_next (get_task y s1) = map_option t_next (get_task y s)" for y
    using get_task_upd(1) [OF s1(1), of y] by (simp add: get_task_def option.map_comp comp_def)
  moreover have "get_task y s' = get_task y s1" for y using calculation(1) by (simp add: get_task_def)
  ultimately show ?thesis by (intro lists_wf_cong [OF assms(2)]) simp_all
qed

lemma schedule_wf: "schedule s = Some s' \<Longrightarrow> lists_wf f s \<Longrightarrow> lists_wf f s'"
  by (auto simp: schedule_def split: if_splits elim!: bind_pairE bind_SomeE dest!: get_next_wf [where f = f] switch_wf [where f = f])

lemma task_resume_wf:
  assumes "task_resume pid s = Some (r, s')" and "lists_wf f s"
  shows "\<exists>f. lists_wf f s'"
proof -
  have w: "lists_wf f (lock_scheduler s)" using assms(2) by simp
  from find_wf [OF w] obtain x where x: "find_task_in_list_by_pid Blocked pid (lock_scheduler s) = Some x" by blast
  show ?thesis
  proof (cases "x = 0")
    case True
    with x assms(1) w show ?thesis by (auto simp: task_resume_def Let_def)
  next
    case False
    from find_zero [OF w x False] obtain ps qs where "f Blocked = ps @ x # qs" by blast
    from move_wf [OF w this, of Ready] obtain s1 s2 f' where "remove_from_list Blocked x (lock_scheduler s) = Some (0, s1)"
      "add_to_list Ready x s1 = Some s2" "lists_wf f' s2" by blast
    with x False assms(1) have "s' = unlock_scheduler s2" by (simp add: task_resume_def Let_def)
    with \<open>lists_wf f' s2\<close> show ?thesis by auto
  qed
qed

lemma task_block_wf:
  assumes "task_block pid s = Some (r, s')" and "lists_wf f s"
  shows "\<exists>f. lists_wf f s'"
proof -
  have w: "lists_wf f (lock_scheduler s)" using assms(2) by simp
  from find_wf [OF w] obtain x where x: "find_task_in_list_by_pid Ready pid (lock_scheduler s) = Some x" by blast
  show ?thesis
  proof (cases "x = 0")
    case True
    with x assms(1) w show ?thesis by (auto simp: task_block_def Let_def)
  next
    case False
    from find_zero [OF w x False] obtain ps qs where "f Ready = ps @ x # qs" by blast
    from move_wf [OF w this, of Blocked] obtain s1 s2 f' where "remove_from_list Ready x (lock_scheduler s) = Some (0, s1)"
      "add_to_list Blocked x s1 = Some s2" and f': "lists_wf f' s2" by blast
    with x False assms(1) have "schedule (unlock_scheduler s2) = Some s'"
      by (auto simp: task_block_def Let_def elim!: bind_SomeE)
    from schedule_wf [OF this, of f'] f' show ?thesis by auto
  qed
qed

text \<open>What the rest of the kernel does to the lists. A task that is queued is on no list yet.\<close>

inductive sched_step :: "sched \<Rightarrow> sched \<Rightarrow> bool" where
  "schedule s = Some s' \<Longrightarrow> sched_step s s'"
| "task_block pid s = Some (r, s') \<Longrightarrow> sched_step s s'"
| "task_resume pid s = Some (r, s') \<Longrightarrow> sched_step s s'"
| "remove_from_ready_list x s = Some (r, s') \<Longrightarrow> sched_step s s'"
| "add_task_to_queue x s = Some s' \<Longrightarrow> get_task x s = Some t \<Longrightarrow> (\<And>l ys. tl_is s l ys \<Longrightarrow> x \<notin> set ys) \<Longrightarrow> sched_step s s'"

lemma sched_step_wf: "sched_step s s' \<Longrightarrow> lists_wf f s \<Longrightarrow> \<exists>f. lists_wf f s'"
proof (induction rule: sched_step.induct)
  case (1 s s')
  then show ?case by (blast dest: schedule_wf)
next
  case (2 pid s r s')
  then show ?case by (rule task_block_wf)
next
  case (3 pid s r s')
  then show ?case by (rule task_resume_wf)
next
  case (4 x s r s')
  show ?case
  proof (cases "x \<in> set (f Ready)")
    case True
    then obtain ps qs where "f Ready = ps @ x # qs" by (metis split_list)
    from remove_wf [OF 4(2) this] 4(1) show ?thesis by (auto simp: remove_from_ready_list_def)
  next
    case False
    from 4(2) have "tl_is s Ready (f Ready)" by (simp add: lists_wf_def)
    from remove_from_list_absent [OF this False] 4 show ?thesis by (auto simp: remove_from_ready_list_def)
  qed
next
  case (5 x s s' t)
  have "x \<notin> set (f l)" for l using 5(3) [of l "f l"] 5(4) by (simp add: lists_wf_def)
  from add_wf [OF 5(4,2) this, of Ready] 5(1) show ?case by (auto simp: add_task_to_queue_def)
qed

subsection \<open>Properties\<close>

text \<open>C10. Fairness of the scheduler, while the ready list stays the same and the tasks have a thread and an address space: when the cursor
  is null or stands on a ready task, every ready task runs within as many calls of \<^verbatim>\<open>schedule\<close> as there are ready tasks; when
  the cursor was left on a removed task, whose link is null or leads to a ready task, within one call more.\<close>

theorem scheduler_fair:
  assumes "rr_ok s xs i \<or> rr_removed s xs y i" and "x \<in> set xs"
  shows "\<exists>ran s'. serve schedule_step (length xs + (if rr_ok s xs i then 0 else 1)) s = Some (ran, s') \<and> x \<in> set ran"
proof (cases "rr_ok s xs i")
  case True
  with rr.served [OF True assms(2)] show ?thesis by simp
next
  case False
  with assms(1) schedule_removed obtain s1 where s1: "schedule s = Some s1" "g_runningtask s1 = y" "rr_ok s1 xs i" by blast
  from rr.served [OF s1(3) assms(2)] obtain ran s' where "serve schedule_step (length xs) s1 = Some (ran, s')" "x \<in> set ran" by blast
  with False s1 show ?thesis by (simp add: schedule_step_def)
qed

text \<open>The order is round robin: the tasks that \<open>n\<close> calls of \<^verbatim>\<open>schedule\<close> run are the ready tasks in list order from the cursor,
  starting over at the end of the list.\<close>

theorem scheduler_round_robin:
  assumes "rr_ok s xs i" and "xs \<noteq> []"
  shows "\<exists>s'. serve schedule_step n s = Some (map (\<lambda>k. xs ! ((i + k) mod length xs)) [0..<n], s')"
  using rr.serve_ok [OF assms, of n] by blast

text \<open>C12. \<^verbatim>\<open>task_resume\<close> moves the first blocked task with the given number to the end of the ready list, keeps the other
  tasks of the two lists and their order, and releases the scheduler: its lock count is as before, and interrupts are on when it is
  zero.\<close>

theorem task_resume_moves:
  assumes "lists_wf f s" and "f Blocked = ps @ x # qs" and "map_option t_pid (get_task x s) = Some pid"
    and "\<forall>y \<in> set ps. map_option t_pid (get_task y s) \<noteq> Some pid"
  shows "\<exists>s'. task_resume pid s = Some (0, s') \<and> lists_wf (f(Blocked := ps @ qs, Ready := f Ready @ [x])) s' \<and>
    scheduler_locks s' = scheduler_locks s \<and> cpu_if s' = (scheduler_locks s = 0)"
proof -
  let ?s = "lock_scheduler s"
  have w: "lists_wf f ?s" using assms(1) by simp
  have "find (\<lambda>y. map_option t_pid (get_task y ?s) = Some pid) (ps @ x # qs) = Some x"
    using assms(3,4) by (induction ps) auto
  with find_wf [OF w, of Blocked pid] assms(2) have f: "find_task_in_list_by_pid Blocked pid ?s = Some x" by simp
  have x0: "x \<noteq> 0" using assms(3) by (auto simp: get_task_def split: if_splits)
  from move_wf [OF w assms(2), of Ready] obtain s1 s2 where
    m: "remove_from_list Blocked x ?s = Some (0, s1)" "add_to_list Ready x s1 = Some s2"
      "lists_wf (f(Blocked := ps @ qs, Ready := f Ready @ [x])) s2" "s2 = ?s\<lparr>sc_tasks := sc_tasks s2, sc_lists := sc_lists s2\<rparr>" by blast
  have l: "scheduler_locks s2 = scheduler_locks s + 1" "\<not> cpu_if s2" by (subst m(4), simp add: lock_scheduler_def)+
  have "task_resume pid s = Some (0, unlock_scheduler s2)" using f x0 m(1,2) by (simp add: task_resume_def)
  moreover have "scheduler_locks (unlock_scheduler s2) = scheduler_locks s" "cpu_if (unlock_scheduler s2) = (scheduler_locks s = 0)"
    using l by (simp_all add: unlock_scheduler_def Let_def)
  ultimately show ?thesis using m(3) by auto
qed

text \<open>C11. The task lists stay well formed: whatever sequence of scheduling, blocking, resuming, queueing and removing is run, the
  three lists remain finite chains that end in the null pointer, without repetition, and no task is on two of them.\<close>

theorem lists_stay_wf:
  assumes "sched_step\<^sup>*\<^sup>* s s'" and "lists_wf f s"
  shows "\<exists>f'. lists_wf f' s'"
  using assms
proof (induction arbitrary: f rule: rtranclp_induct)
  case (step y z)
  then show ?case by (blast dest: sched_step_wf)
qed blast

text \<open>A \<^verbatim>\<open>task_resume\<close> that finds no blocked task with the number leaves the scheduler locked and interrupts off: the error
  return skips the unlock.\<close>

theorem failed_resume_keeps_lock:
  assumes "lists_wf f s" and "\<forall>y \<in> set (f Blocked). map_option t_pid (get_task y s) \<noteq> Some pid"
  shows "task_resume pid s = Some (-1, s\<lparr>scheduler_locks := scheduler_locks s + 1, cpu_if := False\<rparr>)"
proof -
  have w: "lists_wf f (lock_scheduler s)" using assms(1) by simp
  have "find (\<lambda>y. map_option t_pid (get_task y (lock_scheduler s)) = Some pid) (f Blocked) = None"
    using assms(2) by (auto simp: find_None_iff)
  with find_wf [OF w, of Blocked pid] have "find_task_in_list_by_pid Blocked pid (lock_scheduler s) = Some 0" by simp
  then show ?thesis by (simp add: task_resume_def) (simp add: lock_scheduler_def)
qed

text \<open>C36. A removed task can run once more: removing a task that is not the head of the ready list does not move the cursor,
  so when the cursor stands on it the next call of \<^verbatim>\<open>get_next_task\<close> returns the removed task. (Removing the head resets the cursor.)\<close>

theorem removed_task_scheduled:
  assumes "tl_is s Ready (ps @ x # qs)" and "ps \<noteq> []" and "tl_next (sc_lists s Ready) = x"
  shows "\<exists>s' s''. remove_from_ready_list x s = Some (0, s') \<and> tl_is s' Ready (ps @ qs) \<and> get_next_task s' = Some (x, s'')"
proof -
  from remove_from_list_ok [OF assms(1)] assms(2) obtain s' where
    s': "remove_from_list Ready x s = Some (0, s')" "tl_is s' Ready (ps @ qs)" "sc_lists s' = sc_lists s"
      "\<forall>y. y \<noteq> last ps \<longrightarrow> get_task y s' = get_task y s" by auto
  have "x \<noteq> last ps" using assms(1,2) by (auto simp: tl_is_def)
  moreover have "x \<noteq> 0 \<and> get_task x s \<noteq> None" using tpath_in [of s _ "ps @ x # qs" x] assms(1) by (auto simp: tl_is_def)
  ultimately show ?thesis using s' assms(3)
    by (auto simp: remove_from_ready_list_def get_next_task_def get_next_from_list_def Let_def)
qed

subsection \<open>A concrete scheduler\<close>

text \<open>Tasks 1 and 2 are ready, task 3 is blocked, and task 1 runs.\<close>

definition vec1 :: "addr \<Rightarrow> addr ecvec" where
  "vec1 a = \<lparr>v_self = 0x600, v_buffer = 0x700, v_items = [a], v_capacity = 8, v_destroyed = False, v_error = 0, v_iter = 0\<rparr>"

definition task1 :: "u32 \<Rightarrow> addr \<Rightarrow> addr \<Rightarrow> task" where
  "task1 pid thrd nxt = \<lparr>t_directory = 0x1000, t_program_start = 0, t_program_break = 0, t_name = 0, t_cwd = 0, t_pid = pid,
     t_parent = 0, t_childamount = 0, t_uid = 0, t_euid = 0, t_umask = 0, t_gid = 0, t_egid = 0, t_ring = 0, t_fds = None,
     t_lastsignal = 0, t_tty = 0, t_sighandlers = None, t_state = 1, t_timeslice = 0, t_timeused = 0, t_sliceused = 0,
     t_priority = 0, t_threads = Some (vec1 thrd), t_next = nxt\<rparr>"

definition thread1 :: thread where
  "thread1 = \<lparr>th_stack = 0x9000, th_stack_top = 0x9800, th_stack_size = 0x800, th_kernel_stack = 0xA000,
     th_kernel_stack_top = 0xA800, th_kernel_stack_size = 0x800, th_entry = 0\<rparr>"

definition sched1 :: sched where
  "sched1 = \<lparr>sc_vm = vm1,
     sc_tasks = [0x100 \<mapsto> task1 1 0x400 0x200, 0x200 \<mapsto> task1 2 0x500 0, 0x300 \<mapsto> task1 3 0x400 0],
     sc_threads = [0x400 \<mapsto> thread1, 0x500 \<mapsto> thread1],
     sc_lists = (\<lambda>_. \<lparr>tl_head = 0, tl_next = 0\<rparr>)(Ready := \<lparr>tl_head = 0x100, tl_next = 0x200\<rparr>, Blocked := \<lparr>tl_head = 0x300, tl_next = 0x300\<rparr>),
     scheduler_locks = 0, g_runningtask = 0x100, PIDS = 4, cpu_esp = 0x9000, cpu_esp0 = 0xA000, cpu_if = True, sc_errno = 0\<rparr>"

abbreviation (input) "lists1 \<equiv> (\<lambda>_. [])(Ready := [0x100, 0x200 :: addr], Blocked := [0x300])"

lemma sched1_simps [simp]:
  "get_task 0x100 sched1 = Some (task1 1 0x400 0x200)" "get_task 0x200 sched1 = Some (task1 2 0x500 0)"
  "get_task 0x300 sched1 = Some (task1 3 0x400 0)" "get_thread 0x400 sched1 = Some thread1" "get_thread 0x500 sched1 = Some thread1"
  "sc_vm sched1 = vm1" "g_runningtask sched1 = 0x100" "scheduler_locks sched1 = 0"
  "sc_lists sched1 = (\<lambda>_. \<lparr>tl_head = 0, tl_next = 0\<rparr>)(Ready := \<lparr>tl_head = 0x100, tl_next = 0x200\<rparr>, Blocked := \<lparr>tl_head = 0x300, tl_next = 0x300\<rparr>)"
  by (simp_all add: sched1_def get_task_def get_thread_def)

lemma task1_simps [simp]: "t_next (task1 p a n) = n" "t_pid (task1 p a n) = p" "t_directory (task1 p a n) = 0x1000"
  "t_threads (task1 p a n) = Some (vec1 a)" "fst (vec_get 0 (vec1 a) 0) = a"
  by (simp_all add: task1_def vec_get_def vec1_def CHECK_INDEX_def)

lemma lists1_wf: "lists_wf lists1 sched1"
proof -
  have "tl_is sched1 l (lists1 l)" for l by (cases l) (simp_all add: tl_is_def)
  moreover have "l \<noteq> l' \<Longrightarrow> set (lists1 l) \<inter> set (lists1 l') = {}" for l l' by (cases l; cases l') simp_all
  ultimately show ?thesis unfolding lists_wf_def by blast
qed

lemma rr_sched1: "rr_ok sched1 [0x100, 0x200] 1"
  by (simp add: rr_ok_def tl_is_def switchable_def)

text \<open>Task 2 taken from the ready list while the cursor stands on it.\<close>

definition sched2 :: sched where
  "sched2 = sched1\<lparr>sc_tasks := (sc_tasks sched1)(0x100 \<mapsto> task1 1 0x400 0)\<rparr>"

lemma sched2_simps [simp]:
  "get_task 0x100 sched2 = Some (task1 1 0x400 0)" "get_task 0x200 sched2 = Some (task1 2 0x500 0)"
  "get_thread a sched2 = get_thread a sched1" "sc_vm sched2 = vm1" "g_runningtask sched2 = 0x100" "sc_lists sched2 = sc_lists sched1"
  by (simp_all add: sched2_def get_task_def get_thread_def) (simp add: sched1_def)

lemma rr_sched2: "rr_removed sched2 [0x100] 0x200 1" "\<not> rr_ok sched2 [0x100] 1"
  by (simp_all add: rr_removed_def rr_ok_def tl_is_def switchable_def)

theorem scheduler_fair_witness:
  "(\<exists>ran s'. serve schedule_step 2 sched1 = Some (ran, s') \<and> 0x200 \<in> set ran) \<and>
   (\<exists>ran s'. serve schedule_step 2 sched2 = Some (ran, s') \<and> 0x100 \<in> set ran)"
  using scheduler_fair [OF disjI1 [OF rr_sched1], of "0x200"] scheduler_fair [OF disjI2 [OF rr_sched2(1)], of "0x100"] rr_sched1 rr_sched2(2)
  by (simp add: numeral_2_eq_2)

theorem scheduler_round_robin_witness:
  "\<exists>s'. serve schedule_step 3 sched1 = Some ([0x200, 0x100, 0x200], s')"
  using scheduler_round_robin [OF rr_sched1, of 3] by (simp add: upt_rec mod_Suc numeral_2_eq_2)

theorem task_resume_moves_witness:
  "\<exists>s'. task_resume 3 sched1 = Some (0, s') \<and> lists_wf (lists1(Blocked := [], Ready := [0x100, 0x200, 0x300])) s'"
  using task_resume_moves [OF lists1_wf, of "[]" "0x300" "[]" 3] by auto

theorem lists_stay_wf_witness:
  "\<exists>s' f'. sched_step sched1 s' \<and> lists_wf f' s'"
proof -
  obtain s' where s': "schedule sched1 = Some s'" using schedule_ok [OF rr_sched1] by auto
  then have "sched_step sched1 s'" by (rule sched_step.intros)
  with lists_stay_wf [OF r_into_rtranclp [of sched_step] lists1_wf, of s'] show ?thesis by blast
qed

theorem failed_resume_keeps_lock_witness:
  "task_resume 2 sched1 = Some (-1, sched1\<lparr>scheduler_locks := 1, cpu_if := False\<rparr>)"
  using failed_resume_keeps_lock [OF lists1_wf, of 2] by simp

theorem removed_task_scheduled_witness:
  "\<exists>s' s''. remove_from_ready_list 0x200 sched1 = Some (0, s') \<and> tl_is s' Ready [0x100] \<and> get_next_task s' = Some (0x200, s'')"
  using removed_task_scheduled [of sched1 "[0x100]" "0x200" "[]"] by (simp add: tl_is_def)

end
