(* ===== verification/Sys_State.thy ===== *)
theory Sys_State
  imports Proc_Sched Ds_Ringbuffer Ds_Queue Libk_Math
begin

text \<open>
  The state that the drivers and the file system share: the scheduler with its memory, the objects of the device and file
  system headers by address, and the machine behind the I/O ports.

  Structures that the code fills field by field are records; what it reads from a disk, copies as bytes or overlays with another
  type stays in byte memory at the offsets of the C layout. A function pointer is the name of the function. String
  literals live in memory at addresses that the linker chooses, \<open>sy_lit\<close>. The devices behind the ports are a parameter: a state of
  type \<open>'d\<close> and the four port operations.
\<close>

subsection \<open>Ports\<close>

record 'd ports =
  port_byte_in :: "u16 \<Rightarrow> 'd \<Rightarrow> u8 \<times> 'd"
  port_byte_out :: "u16 \<Rightarrow> u8 \<Rightarrow> 'd \<Rightarrow> 'd"
  port_word_in :: "u16 \<Rightarrow> 'd \<Rightarrow> u16 \<times> 'd"
  port_word_out :: "u16 \<Rightarrow> u16 \<Rightarrow> 'd \<Rightarrow> 'd"
  port_line_in :: "u16 \<Rightarrow> 'd \<Rightarrow> u32 \<times> 'd"
  port_line_out :: "u16 \<Rightarrow> u32 \<Rightarrow> 'd \<Rightarrow> 'd"

subsection \<open>Disks\<close>

datatype drive_fn = FN_ramdisk_read | FN_ramdisk_write | FN_atapio_read | FN_atapio_write

record disk =
  d_type :: int
  d_name :: addr
  d_drive_info :: addr
  d_block_size :: u32
  d_read :: drive_fn
  d_write :: drive_fn
  d_next :: addr

record ramdisk_info =
  rd_location :: u32
  rd_size :: u32

record ata_drive =
  ata_base :: u32
  ata_ctrl :: u32
  ata_id :: u32
  ata_mode :: u32
  ata_type :: u32
  ata_slave :: u32
  ata_capabilities :: u32
  ata_command_set :: u32
  ata_signature :: u32
  ata_max_lba :: u32

subsection \<open>File systems and nodes\<close>

datatype fs_fn = FS_null | FN_ext2_read_file | FN_ext2_write_file | FN_ext2_create_node | FN_ext2_update_node
  | FN_ext2_open_dir_stream | FN_ext2_close_dir_stream | FN_ext2_read_dir | FN_ext2_vfs_entry

record filesystem =
  fs_name :: addr
  fs_type :: u32
  fs_block_size :: u32
  fs_disk_info :: addr
  fs_superblock :: addr
  fs_blockgroup_list :: addr
  fs_start :: u32
  fs_partstart :: u32
  fs_block_read :: fs_fn
  fs_block_write :: fs_fn
  fs_create_node :: fs_fn
  fs_update_node :: fs_fn
  fs_dir_open :: fs_fn
  fs_dir_close :: fs_fn
  fs_dir_read :: fs_fn
  fs_makenode :: fs_fn

datatype node_fn = NF_null | NF_one | NF_pipe_read | NF_pipe_write | NF_pipe_close | NF_chardev_close | NF_sock_close
  | NF_tty_stdinwrite | NF_tty_stdoutwrite | NF_tty_stderrwrite | NF_tty_readtest | NF_read_null | NF_write_null
  | NF_fb_write | NF_fb_cmd | NF_termios_cmd

record vfs_node =
  n_name :: addr
  n_type :: u8
  n_permissions :: u16
  n_uid :: u32
  n_gid :: u32
  n_id :: u32
  n_filelength :: u32
  n_fs_info :: addr
  n_offset :: u32
  n_nlink :: u8
  n_open :: node_fn
  n_close :: node_fn
  n_read :: node_fn
  n_write :: node_fn
  n_creat :: node_fn
  n_cmd :: node_fn
  n_opendir :: node_fn
  n_closedir :: node_fn
  n_readdir :: node_fn
  n_ptr :: addr
  n_nextnode :: addr
  n_dirlist :: addr
  n_parent :: addr

record vfs_file =
  f_vfs_node :: addr
  f_fd :: int
  f_filesize :: u32

subsection \<open>Users, system information and sockets\<close>

record user =
  us_name :: addr
  us_gcos :: addr
  us_uid :: u32
  us_gid :: u32
  us_home :: addr
  us_shell :: addr
  us_tty :: u32

record kern_sysinfo =
  si_hostname :: addr
  si_sysname :: addr
  si_release :: addr
  si_version :: addr
  si_machine :: addr
  si_totalram :: u32
  si_totalswap :: u32

datatype sock_fn = SF_null | SF_unix_socket_create | SF_unix_socket_bind | SF_unix_socket_listen | SF_unix_socket_connect
  | SF_unix_socket_recv | SF_unix_socket_send | SF_unix_socket_accept

record accept_conn =
  ac_lock :: int
  ac_client_pipe :: addr
  ac_server_pipe :: addr

record socket_conn =
  cn_client :: int
  cn_soc :: addr
  cn_type :: int
  cn_protocol :: int
  cn_create_socket :: sock_fn
  cn_send_pipe :: addr
  cn_recv_pipe :: addr

record socket =
  so_protocol :: int
  so_type :: int
  so_socketfd :: int
  so_server_lock :: int
  so_server_backlog :: int
  so_accept_queue :: addr
  so_addr :: addr
  so_accept :: sock_fn
  so_bind :: sock_fn
  so_send :: sock_fn
  so_listen :: sock_fn
  so_recv :: sock_fn
  so_connect :: sock_fn
  so_fam_specific :: addr

subsection \<open>The state\<close>

record 'd sys =
  sy_s :: sched
  sy_dev :: 'd
  sy_lit :: "string \<Rightarrow> addr"
  sy_disks :: "addr \<rightharpoonup> disk"
  disk_list :: addr
  sy_ramdisks :: "addr \<rightharpoonup> ramdisk_info"
  sy_ata :: "addr \<rightharpoonup> ata_drive"
  selected_mode :: u32
  selected_drive :: addr
  g_ata_lock :: u32
  sy_fs :: "addr \<rightharpoonup> filesystem"
  g_current_fs :: addr
  sy_nodes :: "addr \<rightharpoonup> vfs_node"
  g_vfs_root :: addr
  g_nodecount :: u32
  sy_pipes :: "addr \<rightharpoonup> pipe"
  sy_rings :: "addr \<rightharpoonup> ringbuffer"
  sy_files :: "addr \<rightharpoonup> vfs_file"
  sy_users :: "addr \<rightharpoonup> user"
  g_current_user :: addr
  g_system :: kern_sysinfo
  sy_conns :: "addr \<rightharpoonup> socket_conn"
  sy_socks :: "addr \<rightharpoonup> socket"
  sy_accepts :: "addr \<rightharpoonup> accept_conn"
  sy_queues :: "addr \<rightharpoonup> queue"
  sy_timer :: time_info

definition kst :: "'d sys \<Rightarrow> kmem" where
  "kst s = vm_k (sc_vm (sy_s s))"

definition set_kst :: "kmem \<Rightarrow> 'd sys \<Rightarrow> 'd sys" where
  "set_kst k s = s\<lparr>sy_s := (sy_s s)\<lparr>sc_vm := (sc_vm (sy_s s))\<lparr>vm_k := k\<rparr>\<rparr>\<rparr>"

definition smem :: "'d sys \<Rightarrow> mem" where
  "smem s = km_mem (kst s)"

definition set_mem :: "mem \<Rightarrow> 'd sys \<Rightarrow> 'd sys" where
  "set_mem m s = set_kst ((kst s)\<lparr>km_mem := m\<rparr>) s"

definition set_errno :: "int \<Rightarrow> 'd sys \<Rightarrow> 'd sys" where
  "set_errno e s = set_kst ((kst s)\<lparr>km_errno := e\<rparr>) s"

definition on_k :: "(kmem \<Rightarrow> ('a \<times> kmem) option) \<Rightarrow> 'd sys \<Rightarrow> ('a \<times> 'd sys) option" where
  "on_k f s = do { (r, k) \<leftarrow> f (kst s); Some (r, set_kst k s) }"

definition ld16 :: "mem \<Rightarrow> addr \<Rightarrow> u16" where
  "ld16 m a = ucast (m a) OR push_bit 8 (ucast (m (a + 1)))"

definition st16 :: "mem \<Rightarrow> addr \<Rightarrow> u16 \<Rightarrow> mem" where
  "st16 m a v = m(a := ucast v, a + 1 := ucast (drop_bit 8 v))"

definition get_disk :: "addr \<Rightarrow> 'd sys \<Rightarrow> disk option" where
  "get_disk a s = (if a = 0 then None else sy_disks s a)"

definition get_fs :: "addr \<Rightarrow> 'd sys \<Rightarrow> filesystem option" where
  "get_fs a s = (if a = 0 then None else sy_fs s a)"

definition get_node :: "addr \<Rightarrow> 'd sys \<Rightarrow> vfs_node option" where
  "get_node a s = (if a = 0 then None else sy_nodes s a)"

definition set_node :: "addr \<Rightarrow> vfs_node \<Rightarrow> 'd sys \<Rightarrow> 'd sys" where
  "set_node a n s = s\<lparr>sy_nodes := (sy_nodes s)(a \<mapsto> n)\<rparr>"

definition upd_node :: "addr \<Rightarrow> (vfs_node \<Rightarrow> vfs_node) \<Rightarrow> 'd sys \<Rightarrow> 'd sys option" where
  "upd_node a f s = do { n \<leftarrow> get_node a s; Some (set_node a (f n) s) }"

definition node_zero :: vfs_node where
  "node_zero = \<lparr>n_name = 0, n_type = 0, n_permissions = 0, n_uid = 0, n_gid = 0, n_id = 0, n_filelength = 0, n_fs_info = 0,
     n_offset = 0, n_nlink = 0, n_open = NF_null, n_close = NF_null, n_read = NF_null, n_write = NF_null, n_creat = NF_null,
     n_cmd = NF_null, n_opendir = NF_null, n_closedir = NF_null, n_readdir = NF_null, n_ptr = 0, n_nextnode = 0, n_dirlist = 0,
     n_parent = 0\<rparr>"

definition sysinfo_zero :: kern_sysinfo where
  "sysinfo_zero = \<lparr>si_hostname = 0, si_sysname = 0, si_release = 0, si_version = 0, si_machine = 0, si_totalram = 0, si_totalswap = 0\<rparr>"

subsection \<open>Port access in the state\<close>

definition inb :: "'d ports \<Rightarrow> u32 \<Rightarrow> 'd sys \<Rightarrow> u8 \<times> 'd sys" where
  "inb P p s = (case port_byte_in P (ucast p) (sy_dev s) of (b, d) \<Rightarrow> (b, s\<lparr>sy_dev := d\<rparr>))"

definition outb :: "'d ports \<Rightarrow> u32 \<Rightarrow> u32 \<Rightarrow> 'd sys \<Rightarrow> 'd sys" where
  "outb P p v s = s\<lparr>sy_dev := port_byte_out P (ucast p) (ucast v) (sy_dev s)\<rparr>"

definition inw :: "'d ports \<Rightarrow> u32 \<Rightarrow> 'd sys \<Rightarrow> u16 \<times> 'd sys" where
  "inw P p s = (case port_word_in P (ucast p) (sy_dev s) of (b, d) \<Rightarrow> (b, s\<lparr>sy_dev := d\<rparr>))"

definition outw :: "'d ports \<Rightarrow> u32 \<Rightarrow> u16 \<Rightarrow> 'd sys \<Rightarrow> 'd sys" where
  "outw P p v s = s\<lparr>sy_dev := port_word_out P (ucast p) v (sy_dev s)\<rparr>"

subsection \<open>Accessor lemmas\<close>

lemma kst_set_kst [simp]: "kst (set_kst k s) = k"
  by (simp add: kst_def set_kst_def)

lemma set_kst_set_kst [simp]: "set_kst k (set_kst k' s) = set_kst k s"
  by (simp add: set_kst_def)

lemma set_kst_kst [simp]: "set_kst (kst s) s = s"
  by (simp add: kst_def set_kst_def)

lemma set_kst_sel [simp]:
  "sy_dev (set_kst k s) = sy_dev s" "sy_lit (set_kst k s) = sy_lit s" "sy_disks (set_kst k s) = sy_disks s"
  "disk_list (set_kst k s) = disk_list s" "sy_ramdisks (set_kst k s) = sy_ramdisks s" "sy_ata (set_kst k s) = sy_ata s"
  "selected_mode (set_kst k s) = selected_mode s" "selected_drive (set_kst k s) = selected_drive s" "g_ata_lock (set_kst k s) = g_ata_lock s"
  "sy_fs (set_kst k s) = sy_fs s" "g_current_fs (set_kst k s) = g_current_fs s" "sy_nodes (set_kst k s) = sy_nodes s"
  "g_vfs_root (set_kst k s) = g_vfs_root s" "g_nodecount (set_kst k s) = g_nodecount s" "sy_pipes (set_kst k s) = sy_pipes s"
  "sy_rings (set_kst k s) = sy_rings s" "sy_files (set_kst k s) = sy_files s"
  "g_runningtask (sy_s (set_kst k s)) = g_runningtask (sy_s s)" "sc_tasks (sy_s (set_kst k s)) = sc_tasks (sy_s s)"
  by (simp_all add: set_kst_def)

lemma get_set_kst [simp]:
  "get_disk a (set_kst k s) = get_disk a s" "get_fs a (set_kst k s) = get_fs a s" "get_node a (set_kst k s) = get_node a s"
  by (simp_all add: get_disk_def get_fs_def get_node_def)

lemma smem_set_kst [simp]: "smem (set_kst k s) = km_mem k"
  by (simp add: smem_def)

end
