(* ===== verification/Drv_Disk.thy ===== *)
theory Drv_Disk
  imports Sys_State
begin

text \<open>
  Disks: the disk list and the byte interface (\<^verbatim>\<open>kernel/drivers/disk.c\<close>), the RAM disk
  (\<^verbatim>\<open>kernel/drivers/ramdisk/ramdisk.c\<close>) and the ATA driver in programmed I/O mode (\<^verbatim>\<open>kernel/drivers/ata/ata.c\<close>).

  The drive behind the ports is the parameter \<open>P\<close>. Every wait loop is a \<open>partial_function\<close>: a drive that stays busy gives \<open>None\<close>.
  Results of type \<^verbatim>\<open>ssize_t\<close> are words, so that \<open>-1\<close> is \<open>0xFFFFFFFF\<close> and sums wrap as they do in C.
\<close>

abbreviation (input) "SIZEOF_DISK \<equiv> (28 :: u32)"
abbreviation (input) "SIZEOF_RAMDISK_INFO \<equiv> (8 :: u32)"
abbreviation (input) "SIZEOF_ATA_DRIVE \<equiv> (84 :: u32)"
abbreviation (input) "OFFSETOF_MODEL \<equiv> (40 :: u32)"
abbreviation (input) "EIO \<equiv> (5 :: int)"
abbreviation (input) "EINVAL \<equiv> (22 :: int)"
abbreviation (input) "ATA_CAPABILITIES_LBA \<equiv> (0x200 :: u32)"
abbreviation (input) "ATA_MODE_LBA28 \<equiv> (0x20 :: u32)"
abbreviation (input) "ATA_MODE_LBA48 \<equiv> (0x40 :: u32)"

subsection \<open>The disk list\<close>

partial_function (option) last_disk :: "addr \<Rightarrow> 'd sys \<Rightarrow> addr option" where
  "last_disk tmp s = do { d \<leftarrow> get_disk tmp s; if d_next d \<noteq> 0 then last_disk (d_next d) s else Some tmp }"

definition add_disk :: "addr \<Rightarrow> 'd sys \<Rightarrow> 'd sys option" where
  "add_disk disk s =
     (if disk_list s = 0 then Some (s\<lparr>disk_list := disk\<rparr>)
      else do {
        tmp \<leftarrow> last_disk (disk_list s) s;
        d \<leftarrow> get_disk tmp s;
        Some (s\<lparr>sy_disks := (sy_disks s)(tmp \<mapsto> d\<lparr>d_next := disk\<rparr>)\<rparr>) })"

subsection \<open>RAM disk\<close>

definition ramdisk_read :: "u32 \<Rightarrow> addr \<Rightarrow> u32 \<Rightarrow> addr \<Rightarrow> 'd sys \<Rightarrow> (u32 \<times> 'd sys) option" where
  "ramdisk_read off destination sz disk s = do {
     d \<leftarrow> get_disk disk s;
     rd \<leftarrow> sy_ramdisks s (d_drive_info d);
     Some (destination, set_mem (memcpy (smem s) destination (rd_location rd + off) sz) s) }"

definition ramdisk_write :: "u32 \<Rightarrow> addr \<Rightarrow> u32 \<Rightarrow> addr \<Rightarrow> 'd sys \<Rightarrow> (u32 \<times> 'd sys) option" where
  "ramdisk_write off buffer sz disk s = do {
     d \<leftarrow> get_disk disk s;
     rd \<leftarrow> sy_ramdisks s (d_drive_info d);
     Some (rd_location rd + off, set_mem (memcpy (smem s) (rd_location rd + off) buffer sz) s) }"

definition init_ramdisk :: "u32 \<Rightarrow> u32 \<Rightarrow> 'd sys \<Rightarrow> 'd sys option" where
  "init_ramdisk location sz s = do {
     (rd, s) \<leftarrow> on_k (kmalloc SIZEOF_RAMDISK_INFO) s;
     let s = s\<lparr>sy_ramdisks := (sy_ramdisks s)(rd \<mapsto> \<lparr>rd_location = location, rd_size = sz\<rparr>)\<rparr>;
     (disk, s) \<leftarrow> on_k (kmalloc SIZEOF_DISK) s;
     add_disk disk (s\<lparr>sy_disks := (sy_disks s)(disk \<mapsto> \<lparr>d_type = 0, d_name = sy_lit s ''Initrd'', d_drive_info = rd,
       d_block_size = 0, d_read = FN_ramdisk_read, d_write = FN_ramdisk_write, d_next = 0\<rparr>)\<rparr>) }"

subsection \<open>ATA\<close>

partial_function (option) ata_lock_loop :: "'d sys \<Rightarrow> 'd sys option" where
  "ata_lock_loop s =
     (if g_ata_lock s \<noteq> 0 then ata_lock_loop s
      else (case atomic_test_and_set (g_ata_lock s) 1 of (old, new) \<Rightarrow>
        if old \<noteq> 0 then ata_lock_loop (s\<lparr>g_ata_lock := new\<rparr>) else Some (s\<lparr>g_ata_lock := new\<rparr>)))"

definition ata_lock :: "'d sys \<Rightarrow> 'd sys option" where
  "ata_lock s = ata_lock_loop s"

definition ata_unlock :: "'d sys \<Rightarrow> 'd sys" where
  "ata_unlock s = s\<lparr>g_ata_lock := 0\<rparr>"

primrec ata_waits :: "'d ports \<Rightarrow> u32 \<Rightarrow> nat \<Rightarrow> 'd sys \<Rightarrow> 'd sys" where
  "ata_waits P base 0 s = s"
| "ata_waits P base (Suc n) s = ata_waits P base n (snd (inb P (base + 0xC) s))"

definition ata_wait :: "'d ports \<Rightarrow> u32 \<Rightarrow> 'd sys \<Rightarrow> 'd sys" where
  "ata_wait P base s = ata_waits P base 4 s"

partial_function (option) ata_wait_clear_bsy :: "'d ports \<Rightarrow> u32 \<Rightarrow> 'd sys \<Rightarrow> (u8 \<times> 'd sys) option" where
  "ata_wait_clear_bsy P base s =
     (case inb P (base + 7) s of (ret, s) \<Rightarrow>
        if ret AND 0x80 \<noteq> 0 then ata_wait_clear_bsy P base s else Some (ret, s))"

definition clear_error :: "'d ports \<Rightarrow> ata_drive \<Rightarrow> 'd sys \<Rightarrow> 'd sys" where
  "clear_error P dr s = outb P (ata_base dr + 1) 0 s"

primrec repeat_wait :: "'d ports \<Rightarrow> u32 \<Rightarrow> nat \<Rightarrow> 'd sys \<Rightarrow> 'd sys" where
  "repeat_wait P base 0 s = s"
| "repeat_wait P base (Suc n) s = repeat_wait P base n (ata_wait P base s)"

definition ata_select_drive :: "'d ports \<Rightarrow> addr \<Rightarrow> ata_drive \<Rightarrow> u32 \<Rightarrow> 'd sys \<Rightarrow> 'd sys" where
  "ata_select_drive P drive dr mode s =
     (if drive \<noteq> selected_drive s \<and> mode \<noteq> selected_mode s then
        (let v = (if ata_capabilities dr AND ATA_CAPABILITIES_LBA \<noteq> 0 then 0xE0 else 0xA0);
             s = outb P (ata_base dr + 6) (v OR push_bit 4 (ata_slave dr) OR (mode AND 0xF)) s;
             s = repeat_wait P (ata_base dr) 5 s in
         s\<lparr>selected_drive := drive, selected_mode := mode\<rparr>)
      else s)"

definition ata_software_reset :: "'d ports \<Rightarrow> u32 \<Rightarrow> u32 \<Rightarrow> 'd sys \<Rightarrow> 'd sys" where
  "ata_software_reset P base ctrl s = outb P ctrl 0 (ata_wait P base (outb P ctrl 4 s))"

definition ata_polling :: "'d ports \<Rightarrow> u32 \<Rightarrow> bool \<Rightarrow> 'd sys \<Rightarrow> (int \<times> 'd sys) option" where
  "ata_polling P base advanced_check s = do {
     (status, s) \<leftarrow> ata_wait_clear_bsy P base (ata_wait P base s);
     if advanced_check then
       (if status AND 0x01 \<noteq> 0 \<or> status AND 0x20 \<noteq> 0 then
          (case inb P (base + 1) (ata_wait P base s) of (err, s) \<Rightarrow> Some (- uint err, s))
        else if status AND 0x08 = 0 then Some (-1, s) else Some (0, s))
     else Some (0, s) }"

definition ata_send_sec_and_lba :: "'d ports \<Rightarrow> ata_drive \<Rightarrow> u32 \<Rightarrow> u32 \<Rightarrow> 'd sys \<Rightarrow> 'd sys" where
  "ata_send_sec_and_lba P dr lba cnt s =
     (let b = ata_base dr;
          s = (if ata_mode dr = ATA_MODE_LBA48
               then outb P (b + 0xB) 0 (outb P (b + 0xA) 0 (outb P (b + 9) 0 (outb P (b + 8) (cnt AND 0xFF00) s)))
               else s);
          s = outb P (b + 2) (cnt AND 0xFF) s;
          s = outb P (b + 3) lba s;
          s = outb P (b + 4) (drop_bit 8 lba) s in
      outb P (b + 5) (drop_bit 16 lba) s)"

primrec read_sector :: "'d ports \<Rightarrow> u32 \<Rightarrow> addr \<Rightarrow> nat \<Rightarrow> 'd sys \<Rightarrow> 'd sys" where
  "read_sector P base buf 0 s = s"
| "read_sector P base buf (Suc n) s =
     (case inw P base s of (data, s) \<Rightarrow> read_sector P base (buf + 2) n (set_mem (st16 (smem s) buf data) s))"

text \<open>The sectors of one attempt: whether to start over, and how far the buffer pointer has come.\<close>

primrec read_sectors :: "'d ports \<Rightarrow> u32 \<Rightarrow> nat \<Rightarrow> addr \<Rightarrow> 'd sys \<Rightarrow> (bool \<times> addr \<times> 'd sys) option" where
  "read_sectors P base 0 buf s = Some (False, buf, s)"
| "read_sectors P base (Suc cnt) buf s = do {
     (poll_ret, s) \<leftarrow> ata_polling P base True s;
     if poll_ret = -4 then Some (True, buf, repeat_wait P base 5 s)
     else do {
       let s = read_sector P base buf 256 s;
       (_, s) \<leftarrow> ata_polling P base False (ata_wait P base s);
       (_, s) \<leftarrow> ata_polling P base False (outb P base 0xE7 s);
       read_sectors P base cnt (buf + 512) s } }"

text \<open>\<open>n\<close> attempts remain. A further attempt continues with the buffer pointer of the failed one.\<close>

primrec atapio_read_attempts :: "'d ports \<Rightarrow> nat \<Rightarrow> addr \<Rightarrow> u32 \<Rightarrow> addr \<Rightarrow> u32 \<Rightarrow> 'd sys \<Rightarrow> (u32 \<times> 'd sys) option" where
  "atapio_read_attempts P 0 drive lba buf cnt s = Some (-1, set_errno EIO s)"
| "atapio_read_attempts P (Suc n) drive lba buf cnt s = do {
     dr \<leftarrow> sy_ata s drive;
     if ata_capabilities dr AND ATA_CAPABILITIES_LBA \<noteq> 0 then do {
       let b = ata_base dr;
       let s = ata_select_drive P drive dr (ata_mode dr OR (drop_bit 24 lba AND 0xF)) s;
       let s = clear_error P dr s;
       let s = ata_wait P b (ata_send_sec_and_lba P dr lba cnt s);
       let s = outb P (b + 7) (if ata_mode dr = ATA_MODE_LBA48 then 0x24 else 0x20) s;
       (again, buf, s) \<leftarrow> read_sectors P b (unat cnt) buf (ata_wait P b s);
       if again then atapio_read_attempts P n drive lba buf cnt s
       else do {
         (r, s) \<leftarrow> ata_polling P b False s;
         if r \<noteq> 0 then Some (-1, set_errno EINVAL s) else Some (0, s) } }
     else Some (0, s) }"

definition atapio_read_drive :: "'d ports \<Rightarrow> addr \<Rightarrow> u32 \<Rightarrow> addr \<Rightarrow> u32 \<Rightarrow> 'd sys \<Rightarrow> (u32 \<times> 'd sys) option" where
  "atapio_read_drive P drive lba buffer cnt s = atapio_read_attempts P 4 drive lba buffer cnt s"

primrec write_sector :: "'d ports \<Rightarrow> u32 \<Rightarrow> addr \<Rightarrow> nat \<Rightarrow> 'd sys \<Rightarrow> 'd sys" where
  "write_sector P base buf 0 s = s"
| "write_sector P base buf (Suc n) s =
     write_sector P base (buf + 2) n (outw P (base + 7) 0xE7 (outw P base (ld16 (smem s) buf) s))"

primrec write_sectors :: "'d ports \<Rightarrow> u32 \<Rightarrow> nat \<Rightarrow> addr \<Rightarrow> 'd sys \<Rightarrow> (bool \<times> 'd sys) option" where
  "write_sectors P base 0 buf s = Some (False, s)"
| "write_sectors P base (Suc cnt) buf s = do {
     (r, s) \<leftarrow> ata_polling P base True s;
     if r \<noteq> 0 then Some (True, s)
     else write_sectors P base cnt (buf + 512) (write_sector P base buf 256 s) }"

definition atapio_write_drive :: "'d ports \<Rightarrow> addr \<Rightarrow> u32 \<Rightarrow> addr \<Rightarrow> u32 \<Rightarrow> 'd sys \<Rightarrow> (u32 \<times> 'd sys) option" where
  "atapio_write_drive P drive lba buffer cnt s = do {
     dr \<leftarrow> sy_ata s drive;
     let b = ata_base dr;
     let s = clear_error P dr (ata_select_drive P drive dr (ata_mode dr) s);
     let s = ata_wait P b (ata_send_sec_and_lba P dr lba cnt s);
     let s = outb P (b + 7) (if ata_mode dr = ATA_MODE_LBA48 then 0x34 else 0x30) s;
     (failed, s) \<leftarrow> write_sectors P b (unat cnt) buffer s;
     if failed then Some (-1, set_errno EINVAL s)
     else do {
       (_, s) \<leftarrow> ata_polling P b False s;
       (_, s) \<leftarrow> ata_polling P b False (outb P b 0xE7 s);
       Some (0, s) } }"

definition atapio_read :: "'d ports \<Rightarrow> u32 \<Rightarrow> addr \<Rightarrow> u32 \<Rightarrow> addr \<Rightarrow> 'd sys \<Rightarrow> (u32 \<times> 'd sys) option" where
  "atapio_read P off buffer cnt disk s = do {
     s \<leftarrow> ata_lock s;
     d \<leftarrow> get_disk disk s;
     (ret, s) \<leftarrow> atapio_read_drive P (d_drive_info d) off buffer cnt s;
     Some (if ret = 0 then cnt else -1, ata_unlock s) }"

definition atapio_write :: "'d ports \<Rightarrow> u32 \<Rightarrow> addr \<Rightarrow> u32 \<Rightarrow> addr \<Rightarrow> 'd sys \<Rightarrow> (u32 \<times> 'd sys) option" where
  "atapio_write P off buffer cnt disk s = do {
     s \<leftarrow> ata_lock s;
     d \<leftarrow> get_disk disk s;
     (ret, s) \<leftarrow> atapio_write_drive P (d_drive_info d) off buffer cnt s;
     Some (if ret = 0 then cnt else -1, ata_unlock s) }"

primrec read_ident :: "'d ports \<Rightarrow> u32 \<Rightarrow> addr \<Rightarrow> nat \<Rightarrow> 'd sys \<Rightarrow> 'd sys" where
  "read_ident P base a 0 s = s"
| "read_ident P base a (Suc n) s =
     (case inw P base s of (data, s) \<Rightarrow>
        read_ident P base (a + 2) n (set_mem ((smem s)(a := ucast (data AND 0xFF), a + 1 := ucast (drop_bit 8 data AND 0xFF))) s))"

primrec copy_model :: "mem \<Rightarrow> addr \<Rightarrow> addr \<Rightarrow> nat \<Rightarrow> mem" where
  "copy_model m d b 0 = m"
| "copy_model m d b (Suc n) = copy_model (m(d := m (b + 1), d + 1 := m b)) (d + 2) (b + 2) n"

text \<open>One drive of a channel; the first result says whether the loop over master and slave goes on. \<^verbatim>\<open>max_lba\<close> of a drive with the
  48 bit command set is what \<^verbatim>\<open>kmalloc\<close> left there, \<open>ml\<close>.\<close>

definition init_ata_drive :: "'d ports \<Rightarrow> u32 \<Rightarrow> u32 \<Rightarrow> u32 \<Rightarrow> u32 \<Rightarrow> u32 \<Rightarrow> 'd sys \<Rightarrow> (bool \<times> 'd sys) option" where
  "init_ata_drive P ml channel ms base ctrl s = do {
     let s = ata_software_reset P base ctrl s;
     let s = ata_wait P base (outb P (base + 6) (0xA0 OR push_bit 4 ms) s);
     let (type_low, s) = inb P (base + 4) s;
     let (type_hi, s) = inb P (base + 5) s;
     let type = push_bit 8 (ucast type_hi :: u32) OR ucast type_low;
     if type \<noteq> 0 then Some (False, s)
     else do {
       (ident, s) \<leftarrow> on_k (kmalloc 512) s;
       let s = set_mem (memset (smem s) ident 0 512) s;
       let s = outb P (base + 7) 0xEC s;
       let (st, s) = inb P (base + 7) s;
       if st = 0 then do { (_, s) \<leftarrow> on_k (kfree ident) s; Some (False, s) }
       else do {
         (_, s) \<leftarrow> ata_polling P base True s;
         let s = read_ident P base ident 256 s;
         (info, s) \<leftarrow> on_k (kmalloc SIZEOF_ATA_DRIVE) s;
         let m = smem s;
         let cs = ld32 m (ident + 164);
         let dr = \<lparr>ata_base = base, ata_ctrl = ctrl, ata_id = channel * 2 + ms, ata_mode = ATA_MODE_LBA28, ata_type = type,
           ata_slave = ms, ata_capabilities = ucast (ld16 m (ident + 98)), ata_command_set = cs,
           ata_signature = ucast (ld16 m ident), ata_max_lba = (if bit cs 26 then ml else ld32 m (ident + 120))\<rparr>;
         let s = set_mem (copy_model m (info + OFFSETOF_MODEL) (ident + 54) 20) (s\<lparr>sy_ata := (sy_ata s)(info \<mapsto> dr)\<rparr>);
         (_, s) \<leftarrow> on_k (kfree ident) s;
         (disk, s) \<leftarrow> on_k (kmalloc SIZEOF_DISK) s;
         s \<leftarrow> add_disk disk (s\<lparr>sy_disks := (sy_disks s)(disk \<mapsto> \<lparr>d_type = 1, d_name = info + OFFSETOF_MODEL, d_drive_info = info,
           d_block_size = 512, d_read = FN_atapio_read, d_write = FN_atapio_write, d_next = 0\<rparr>)\<rparr>);
         Some (True, s) } } }"

text \<open>\<open>BAR\<close> are the base address registers of the PCI header.\<close>

definition init_ata_channel :: "'d ports \<Rightarrow> (u32 \<Rightarrow> u32) \<Rightarrow> (nat \<Rightarrow> u32) \<Rightarrow> nat \<Rightarrow> 'd sys \<Rightarrow> 'd sys option" where
  "init_ata_channel P ml BAR channel s = do {
     let base = (if BAR channel = 0 \<or> BAR channel = 1 then (if channel \<noteq> 0 then 0x170 else 0x1F0) else BAR channel);
     let ctrl = (if BAR (channel + 1) = 0 \<or> BAR (channel + 1) = 1 then (if channel \<noteq> 0 then 0x376 else 0x3F6) else BAR (channel + 1));
     let s = outb P (ctrl + 0xC) 2 s;
     (go, s) \<leftarrow> init_ata_drive P (ml (2 * of_nat channel)) (of_nat channel) 0 base ctrl s;
     if go then do { (_, s) \<leftarrow> init_ata_drive P (ml (2 * of_nat channel + 1)) (of_nat channel) 1 base ctrl s; Some s }
     else Some s }"

definition init_ata :: "'d ports \<Rightarrow> (u32 \<Rightarrow> u32) \<Rightarrow> (nat \<Rightarrow> u32) \<Rightarrow> 'd sys \<Rightarrow> (int \<times> 'd sys) option" where
  "init_ata P ml BAR s = do {
     s \<leftarrow> init_ata_channel P ml BAR 0 s;
     s \<leftarrow> init_ata_channel P ml BAR 1 s;
     Some (0, s) }"

subsection \<open>The byte interface\<close>

definition drive_call :: "'d ports \<Rightarrow> drive_fn \<Rightarrow> u32 \<Rightarrow> addr \<Rightarrow> u32 \<Rightarrow> addr \<Rightarrow> 'd sys \<Rightarrow> (u32 \<times> 'd sys) option" where
  "drive_call P f off buf n disk s =
     (case f of FN_ramdisk_read \<Rightarrow> ramdisk_read off buf n disk s | FN_ramdisk_write \<Rightarrow> ramdisk_write off buf n disk s
      | FN_atapio_read \<Rightarrow> atapio_read P off buf n disk s | FN_atapio_write \<Rightarrow> atapio_write P off buf n disk s)"

text \<open>The bytes before the first block boundary, and those after the last.\<close>

definition disk_read_head :: "'d ports \<Rightarrow> disk \<Rightarrow> u32 \<Rightarrow> u32 \<Rightarrow> u32 \<Rightarrow> addr \<Rightarrow> addr \<Rightarrow> 'd sys \<Rightarrow> 'd sys option" where
  "disk_read_head P d lba l_rest l_size buf disk s = do {
     (tmp, s) \<leftarrow> on_k (kmalloc (d_block_size d)) s;
     (_, s) \<leftarrow> drive_call P (d_read d) lba tmp 1 disk s;
     let s = set_mem (memcpy (smem s) buf (tmp + l_rest) l_size) s;
     (_, s) \<leftarrow> on_k (kfree tmp) s;
     Some s }"

definition disk_read_tail :: "'d ports \<Rightarrow> disk \<Rightarrow> u32 \<Rightarrow> u32 \<Rightarrow> addr \<Rightarrow> addr \<Rightarrow> 'd sys \<Rightarrow> 'd sys option" where
  "disk_read_tail P d lba c_rest buf disk s = do {
     (tmp, s) \<leftarrow> on_k (kmalloc (d_block_size d)) s;
     (_, s) \<leftarrow> drive_call P (d_read d) lba tmp 1 disk s;
     let s = set_mem (memcpy (smem s) buf tmp c_rest) s;
     (_, s) \<leftarrow> on_k (kfree tmp) s;
     Some s }"

definition disk_read :: "'d ports \<Rightarrow> u32 \<Rightarrow> addr \<Rightarrow> u32 \<Rightarrow> addr \<Rightarrow> 'd sys \<Rightarrow> (u32 \<times> 'd sys) option" where
  "disk_read P off buf sz disk s = do {
     d \<leftarrow> get_disk disk s;
     let bs = d_block_size d;
     if bs = 0 then drive_call P (d_read d) off buf sz disk s
     else do {
       let cnt = sz div bs; let c_rest = sz mod bs;
       let lba = off div bs; let l_rest = off mod bs;
       let (l_size, cnt, c_rest) =
         (if cnt = 0 \<and> l_rest \<noteq> 0 then (c_rest, 1, 0)
          else if l_rest \<noteq> 0 then (bs - l_rest, cnt, c_rest - l_rest) else (l_rest, cnt, c_rest));
       (lba, cnt, buf, ret, s) \<leftarrow>
         (if l_rest \<noteq> 0 then do {
            s \<leftarrow> disk_read_head P d lba l_rest l_size buf disk s;
            Some (lba + 1, cnt - 1, buf + l_size, l_size, s) }
          else Some (lba, cnt, buf, 0, s));
       (ret, s) \<leftarrow> (if cnt \<noteq> 0 then do { (r, s) \<leftarrow> drive_call P (d_read d) lba buf cnt disk s; Some (ret + r, s) } else Some (ret, s));
       if c_rest \<noteq> 0 then do {
         s \<leftarrow> disk_read_tail P d (lba + cnt) c_rest (buf + cnt * bs) disk s;
         Some (ret + c_rest, s) }
       else Some (ret, s) } }"

text \<open>Part of a block is written by reading the block, changing it and writing it back.\<close>

definition disk_write_part :: "'d ports \<Rightarrow> disk \<Rightarrow> u32 \<Rightarrow> u32 \<Rightarrow> u32 \<Rightarrow> addr \<Rightarrow> addr \<Rightarrow> 'd sys \<Rightarrow> 'd sys option" where
  "disk_write_part P d blk at n buf disk s = do {
     (tmp, s) \<leftarrow> on_k (kmalloc (d_block_size d)) s;
     (_, s) \<leftarrow> drive_call P (d_read d) blk tmp 1 disk s;
     let s = set_mem (memcpy (smem s) (tmp + at) buf n) s;
     (_, s) \<leftarrow> drive_call P (d_write d) blk tmp 1 disk s;
     (_, s) \<leftarrow> on_k (kfree tmp) s;
     Some s }"

definition disk_write :: "'d ports \<Rightarrow> u32 \<Rightarrow> addr \<Rightarrow> u32 \<Rightarrow> addr \<Rightarrow> 'd sys \<Rightarrow> (u32 \<times> 'd sys) option" where
  "disk_write P off buf sz disk s = do {
     d \<leftarrow> get_disk disk s;
     let bs = d_block_size d;
     if bs = 0 then drive_call P (d_write d) off buf sz disk s
     else do {
       let blk = off div bs; let s_rest = off mod bs;
       let e_rest = (if s_rest \<noteq> 0 \<and> bs - s_rest > sz then 0 else (sz + s_rest) mod bs);
       let blkcnt = (sz - e_rest) div bs;
       (blk, buf, ret, s) \<leftarrow>
         (if s_rest \<noteq> 0 then do {
            s \<leftarrow> disk_write_part P d blk s_rest (if sz < bs - s_rest then sz else bs - s_rest) buf disk s;
            Some (blk + 1, buf + bs, bs, s) }
          else Some (blk, buf, 0, s));
       (short, blk, buf, ret, s) \<leftarrow>
         (if blkcnt \<noteq> 0 then do {
            (blks, s) \<leftarrow> drive_call P (d_write d) blk buf blkcnt disk s;
            Some (blks \<noteq> blkcnt, blk + blks, buf + blks * bs, ret + blks * bs, s) }
          else Some (False, blk, buf, ret, s));
       if short then Some (ret, s)
       else if e_rest \<noteq> 0 then do {
         s \<leftarrow> disk_write_part P d blk 0 e_rest buf disk s;
         Some (ret + e_rest, s) }
       else Some (ret, s) } }"

end
