(* ===== verification/Fs_Ext2.thy ===== *)
theory Fs_Ext2
  imports Drv_Disk
begin

text \<open>
  The ext2 file system (\<^verbatim>\<open>kernel/fs/ext2/ext2.c\<close>): superblock and group descriptors, inodes, the block pointers with their
  indirections, files as sequences of blocks, directory streams, allocation of blocks and inodes, and the nodes that the virtual file
  system sees.

  What comes from the disk stays in byte memory at the offsets of the packed structures of \<^verbatim>\<open>kernel/include/fs/ext2/ext2.h\<close>. A directory
  stream is in byte memory too, because its entry is copied out as bytes. \<open>None\<close> is a null or unknown pointer, a division by
  zero or a drive that never answers.
\<close>

abbreviation (input) "SB_total_blocks \<equiv> (4 :: u32)"
abbreviation (input) "SB_block_size_frag \<equiv> (24 :: u32)"
abbreviation (input) "SB_blocks_in_blockgroup \<equiv> (32 :: u32)"
abbreviation (input) "SB_inodes_in_blockgroup \<equiv> (40 :: u32)"
abbreviation (input) "SB_ext2_signature \<equiv> (56 :: u32)"
abbreviation (input) "SB_major_version \<equiv> (76 :: u32)"
abbreviation (input) "SB_inode_size \<equiv> (88 :: u32)"
abbreviation (input) "SIZEOF_SUPERBLOCK \<equiv> (236 :: u32)"
abbreviation (input) "BGD_block_bitmap \<equiv> (0 :: u32)"
abbreviation (input) "BGD_inode_bitmap \<equiv> (4 :: u32)"
abbreviation (input) "BGD_start_inode_table \<equiv> (8 :: u32)"
abbreviation (input) "SIZEOF_BGD \<equiv> (32 :: u32)"
abbreviation (input) "INO_type_permissions \<equiv> (0 :: u32)"
abbreviation (input) "INO_uid \<equiv> (2 :: u32)"
abbreviation (input) "INO_size \<equiv> (4 :: u32)"
abbreviation (input) "INO_gid \<equiv> (24 :: u32)"
abbreviation (input) "INO_disk_sectors \<equiv> (28 :: u32)"
abbreviation (input) "INO_flags \<equiv> (32 :: u32)"
abbreviation (input) "INO_direct \<equiv> (40 :: u32)"
abbreviation (input) "INO_single_indirect \<equiv> (88 :: u32)"
abbreviation (input) "INO_double_indirect \<equiv> (92 :: u32)"
abbreviation (input) "SIZEOF_INODE \<equiv> (128 :: u32)"
abbreviation (input) "DIR_fs_info \<equiv> (0 :: u32)"
abbreviation (input) "DIR_next_direntry_offset \<equiv> (4 :: u32)"
abbreviation (input) "DIR_inode \<equiv> (8 :: u32)"
abbreviation (input) "DIR_blockpointerindex \<equiv> (12 :: u32)"
abbreviation (input) "DIR_lastentrysize \<equiv> (16 :: u32)"
abbreviation (input) "DIR_filebuffer \<equiv> (20 :: u32)"
abbreviation (input) "DIR_dirent \<equiv> (24 :: u32)"
abbreviation (input) "D_off \<equiv> (4 :: u32)"
abbreviation (input) "D_reclen \<equiv> (8 :: u32)"
abbreviation (input) "D_type \<equiv> (10 :: u32)"
abbreviation (input) "D_name \<equiv> (11 :: u32)"
abbreviation (input) "SIZEOF_DIR \<equiv> (36 :: u32)"
abbreviation (input) "SIZEOF_DIRENT \<equiv> (12 :: u32)"
abbreviation (input) "NAME_MAX \<equiv> (255 :: u32)"
abbreviation (input) "SIZEOF_VFS_NODE \<equiv> (88 :: u32)"
abbreviation (input) "SIZEOF_FILESYSTEM \<equiv> (64 :: u32)"
abbreviation (input) "EFBIG \<equiv> (27 :: int)"
abbreviation (input) "EXT2_SIGNATURE \<equiv> (0xEF53 :: u16)"
abbreviation (input) "EXT2_INODE_TYPE_DIR \<equiv> (0x4000 :: u16)"
abbreviation (input) "VFS_FILE \<equiv> (1 :: u8)"
abbreviation (input) "VFS_DIRECTORY \<equiv> (2 :: u8)"
abbreviation (input) "VFS_CHARDEVICE \<equiv> (3 :: u8)"
abbreviation (input) "VFS_BLOCKDEVICE \<equiv> (4 :: u8)"
abbreviation (input) "VFS_PIPE \<equiv> (5 :: u8)"
abbreviation (input) "VFS_SYMLINK \<equiv> (6 :: u8)"
abbreviation (input) "VFS_SOCKET \<equiv> (9 :: u8)"

subsection \<open>Superblock and group descriptors\<close>

definition ext2_block_size :: "addr \<Rightarrow> 'd sys \<Rightarrow> u32" where
  "ext2_block_size sb s = push_bit (unat (ld32 (smem s) (sb + SB_block_size_frag))) 1024"

definition ext2_disk_read :: "'d ports \<Rightarrow> u32 \<Rightarrow> addr \<Rightarrow> u32 \<Rightarrow> addr \<Rightarrow> 'd sys \<Rightarrow> (u32 \<times> 'd sys) option" where
  "ext2_disk_read P off buf sz fsi s = do {
     fs \<leftarrow> get_fs fsi s;
     disk_read P (off + fs_partstart fs) buf sz (fs_disk_info fs) s }"

definition ext2_disk_write :: "'d ports \<Rightarrow> u32 \<Rightarrow> addr \<Rightarrow> u32 \<Rightarrow> addr \<Rightarrow> 'd sys \<Rightarrow> (u32 \<times> 'd sys) option" where
  "ext2_disk_write P off buf sz fsi s = do {
     fs \<leftarrow> get_fs fsi s;
     disk_write P (off + fs_partstart fs) buf sz (fs_disk_info fs) s }"

definition ext2_copy_superblock_into_memory :: "'d ports \<Rightarrow> u32 \<Rightarrow> addr \<Rightarrow> 'd sys \<Rightarrow> (addr \<times> 'd sys) option" where
  "ext2_copy_superblock_into_memory P start disk s = do {
     (ret, s) \<leftarrow> on_k (kmalloc SIZEOF_SUPERBLOCK) s;
     (_, s) \<leftarrow> disk_read P (1024 + start) ret SIZEOF_SUPERBLOCK disk s;
     Some (ret, s) }"

definition blockgroup_count :: "addr \<Rightarrow> 'd sys \<Rightarrow> u32 option" where
  "blockgroup_count sb s =
     map_option of_int (roundup (sint (ld32 (smem s) (sb + SB_total_blocks))) (sint (ld32 (smem s) (sb + SB_blocks_in_blockgroup))))"

definition ext2_get_all_block_group_descriptors :: "'d ports \<Rightarrow> addr \<Rightarrow> u32 \<Rightarrow> addr \<Rightarrow> 'd sys \<Rightarrow> (addr \<times> 'd sys) option" where
  "ext2_get_all_block_group_descriptors P sb start disk s = do {
     n \<leftarrow> blockgroup_count sb s;
     (bgd, s) \<leftarrow> on_k (kmalloc (SIZEOF_BGD * n)) s;
     (_, s) \<leftarrow> disk_read P (1024 + ext2_block_size sb s + start) bgd (SIZEOF_BGD * n) disk s;
     Some (bgd, s) }"

subsection \<open>Inodes\<close>

definition ext2_get_inode_size :: "filesystem \<Rightarrow> 'd sys \<Rightarrow> u32" where
  "ext2_get_inode_size fs s =
     (if ld32 (smem s) (fs_superblock fs + SB_major_version) \<ge> 1 then ucast (ld16 (smem s) (fs_superblock fs + SB_inode_size)) else 128)"

definition ext2_get_inode_offset :: "u32 \<Rightarrow> addr \<Rightarrow> 'd sys \<Rightarrow> u32 option" where
  "ext2_get_inode_offset inode fsi s = do {
     fs \<leftarrow> get_fs fsi s;
     let ipg = ld32 (smem s) (fs_superblock fs + SB_inodes_in_blockgroup);
     let isz = ext2_get_inode_size fs s;
     let bs = fs_block_size fs;
     if ipg = 0 \<or> bs = 0 \<or> isz = 0 \<or> bs div isz = 0 then None
     else do {
       let blockgroup = (inode - 1) div ipg;
       let index = (inode - 1) mod ipg;
       let containing_block = index * isz div bs;
       let table = ld32 (smem s) (fs_blockgroup_list fs + SIZEOF_BGD * blockgroup + BGD_start_inode_table);
       Some ((table + containing_block) * bs + (index mod (bs div isz)) * isz) } }"

definition ext2_get_inode_ref :: "'d ports \<Rightarrow> u32 \<Rightarrow> addr \<Rightarrow> 'd sys \<Rightarrow> (addr \<times> 'd sys) option" where
  "ext2_get_inode_ref P inode fsi s = do {
     fs \<leftarrow> get_fs fsi s;
     let isz = ext2_get_inode_size fs s;
     (ref, s) \<leftarrow> on_k (kmalloc isz) s;
     off \<leftarrow> ext2_get_inode_offset inode fsi s;
     (_, s) \<leftarrow> ext2_disk_read P off ref isz fsi s;
     Some (ref, s) }"

subsection \<open>Block pointers\<close>

text \<open>The entry of an indirect block, with the guess for a missing entry between its neighbours.\<close>

definition indirect_entry :: "mem \<Rightarrow> addr \<Rightarrow> u32 \<Rightarrow> u32 \<Rightarrow> u32" where
  "indirect_entry m bp k bs =
     (let e = (\<lambda>i. ld32 m (bp + 4 * i)); ret = e k * bs in
      if ret = 0 \<and> (e (k + 1) \<noteq> 0 \<or> e (k + 2) \<noteq> 0) then
        (if e (k + 1) = e (k - 1) + 2 \<or> e (k + 2) = e (k - 1) + 3 then (e (k - 1) + 1) * bs
         else if e (k + 1) = e (k - 2) + 3 then (e (k - 2) + 2) * bs
         else ret)
      else ret)"

definition handle_indirect_bp :: "'d ports \<Rightarrow> u32 \<Rightarrow> u32 \<Rightarrow> addr \<Rightarrow> 'd sys \<Rightarrow> (u32 \<times> 'd sys) option" where
  "handle_indirect_bp P indirect_bp_index blk_to_rd fsi s = do {
     fs \<leftarrow> get_fs fsi s;
     let bs = fs_block_size fs;
     (bp, s) \<leftarrow> on_k (kmalloc bs) s;
     if bp = 0 then Some (0, s)
     else do {
       (_, s) \<leftarrow> ext2_disk_read P (indirect_bp_index * bs) bp bs fsi s;
       let ret = indirect_entry (smem s) bp blk_to_rd bs;
       (_, s) \<leftarrow> on_k (kfree bp) s;
       Some (ret, s) } }"

definition double_indirect :: "'d ports \<Rightarrow> addr \<Rightarrow> u32 \<Rightarrow> addr \<Rightarrow> 'd sys \<Rightarrow> (u32 \<times> 'd sys) option" where
  "double_indirect P inode block_to_read fsi s = do {
     fs \<leftarrow> get_fs fsi s;
     let bs = fs_block_size fs;
     (dbp, s) \<leftarrow> on_k (kmalloc bs) s;
     if dbp = 0 then Some (0, s)
     else if ld32 (smem s) (inode + INO_double_indirect) = 0 then Some (0, s)
     else do {
       (_, s) \<leftarrow> ext2_disk_read P (ld32 (smem s) (inode + INO_double_indirect) * bs) dbp bs fsi s;
       let rest = block_to_read - bs div 4 - 12;
       let indirect_to_read = ld32 (smem s) (dbp + 4 * (rest div (bs div 4)));
       if indirect_to_read = 0 then do { (_, s) \<leftarrow> on_k (kfree dbp) s; Some (0, s) }
       else do {
         (ret, s) \<leftarrow> handle_indirect_bp P indirect_to_read (rest mod (bs div 4)) fsi s;
         (_, s) \<leftarrow> on_k (kfree dbp) s;
         Some (ret, s) } } }"

definition ext2_get_inode_data_offset :: "'d ports \<Rightarrow> addr \<Rightarrow> u32 \<Rightarrow> addr \<Rightarrow> 'd sys \<Rightarrow> (u32 \<times> 'd sys) option" where
  "ext2_get_inode_data_offset P inode block_to_read fsi s = do {
     fs \<leftarrow> get_fs fsi s;
     let bs = fs_block_size fs;
     if block_to_read < 12 then Some (ld32 (smem s) (inode + INO_direct + 4 * block_to_read) * bs, s)
     else if block_to_read < bs div 4 + 12 then
       handle_indirect_bp P (ld32 (smem s) (inode + INO_single_indirect)) (block_to_read - 12) fsi s
     else if block_to_read < pow_int (bs div 4) 2 + 12 then double_indirect P inode block_to_read fsi s
     else Some (0, s) }"

definition ext2_read_inode_block :: "'d ports \<Rightarrow> addr \<Rightarrow> u32 \<Rightarrow> addr \<Rightarrow> addr \<Rightarrow> 'd sys \<Rightarrow> (u32 \<times> 'd sys) option" where
  "ext2_read_inode_block P inode block_to_read buf fsi s = do {
     fs \<leftarrow> get_fs fsi s;
     (data_offset, s) \<leftarrow> ext2_get_inode_data_offset P inode block_to_read fsi s;
     if data_offset = 0 then Some (0, set_errno EFBIG s)
     else ext2_disk_read P data_offset buf (fs_block_size fs) fsi s }"

definition ext2_write_inode_block :: "'d ports \<Rightarrow> addr \<Rightarrow> u32 \<Rightarrow> addr \<Rightarrow> addr \<Rightarrow> 'd sys \<Rightarrow> (u32 \<times> 'd sys) option" where
  "ext2_write_inode_block P inode block_to_read buf fsi s = do {
     fs \<leftarrow> get_fs fsi s;
     (data_offset, s) \<leftarrow> ext2_get_inode_data_offset P inode block_to_read fsi s;
     if data_offset = 0 then Some (0, set_errno EFBIG s)
     else ext2_disk_write P data_offset buf (fs_block_size fs) fsi s }"

definition ext2_write_block :: "'d ports \<Rightarrow> u32 \<Rightarrow> addr \<Rightarrow> addr \<Rightarrow> 'd sys \<Rightarrow> (u32 \<times> 'd sys) option" where
  "ext2_write_block P block buf fsi s = do {
     fs \<leftarrow> get_fs fsi s;
     ext2_disk_write P (block * fs_block_size fs) buf (fs_block_size fs) fsi s }"

definition ext2_write_inode :: "'d ports \<Rightarrow> addr \<Rightarrow> u32 \<Rightarrow> addr \<Rightarrow> 'd sys \<Rightarrow> (u32 \<times> 'd sys) option" where
  "ext2_write_inode P ref inode fsi s = do {
     fs \<leftarrow> get_fs fsi s;
     off \<leftarrow> ext2_get_inode_offset inode fsi s;
     ext2_disk_write P off ref (ext2_get_inode_size fs s) fsi s }"

subsection \<open>Files\<close>

text \<open>The loops run from the first block up to, but not including, the sum of the first block and the count, which may wrap.\<close>

definition block_iterations :: "u32 \<Rightarrow> u32 \<Rightarrow> nat" where
  "block_iterations off n = unat (n + off) - unat off"

primrec read_blocks :: "'d ports \<Rightarrow> addr \<Rightarrow> addr \<Rightarrow> u32 \<Rightarrow> nat \<Rightarrow> u32 \<Rightarrow> addr \<Rightarrow> u32 \<Rightarrow> 'd sys \<Rightarrow> (u32 \<times> 'd sys) option" where
  "read_blocks P ref fsi bs 0 i buffer ret s = Some (ret, s)"
| "read_blocks P ref fsi bs (Suc n) i buffer ret s = do {
     (r, s) \<leftarrow> ext2_read_inode_block P ref i buffer fsi s;
     if r = 0 then Some (ret, s) else read_blocks P ref fsi bs n (i + 1) (buffer + bs) (ret + 1) s }"

definition ext2_read_file :: "'d ports \<Rightarrow> u32 \<Rightarrow> u32 \<Rightarrow> addr \<Rightarrow> u32 \<Rightarrow> addr \<Rightarrow> 'd sys \<Rightarrow> (u32 \<times> 'd sys) option" where
  "ext2_read_file P inode off buf block_count fsi s = do {
     fs \<leftarrow> get_fs fsi s;
     (ref, s) \<leftarrow> ext2_get_inode_ref P inode fsi s;
     if ref = 0 then Some (-1, s)
     else do {
       (ret, s) \<leftarrow> read_blocks P ref fsi (fs_block_size fs) (block_iterations off block_count) off buf 0 s;
       (_, s) \<leftarrow> on_k (kfree ref) s;
       Some (ret, s) } }"

primrec write_blocks :: "'d ports \<Rightarrow> addr \<Rightarrow> addr \<Rightarrow> u32 \<Rightarrow> nat \<Rightarrow> u32 \<Rightarrow> addr \<Rightarrow> u32 \<Rightarrow> 'd sys \<Rightarrow> (u32 \<times> 'd sys) option" where
  "write_blocks P ref fsi bs 0 i buffer ret s = Some (ret, s)"
| "write_blocks P ref fsi bs (Suc n) i buffer ret s = do {
     (r, s) \<leftarrow> ext2_write_inode_block P ref i buffer fsi s;
     if r = 0 then Some (ret, s) else write_blocks P ref fsi bs n (i + 1) (buffer + bs) (ret + 1) s }"

definition ext2_write_file :: "'d ports \<Rightarrow> u32 \<Rightarrow> u32 \<Rightarrow> addr \<Rightarrow> u32 \<Rightarrow> addr \<Rightarrow> 'd sys \<Rightarrow> (u32 \<times> 'd sys) option" where
  "ext2_write_file P inode off buf block_count fsi s = do {
     fs \<leftarrow> get_fs fsi s;
     (ref, s) \<leftarrow> ext2_get_inode_ref P inode fsi s;
     if ref = 0 then Some (-1, s)
     else do {
       (ret, s) \<leftarrow> write_blocks P ref fsi (fs_block_size fs) (block_iterations off block_count) off buf 0 s;
       (_, s) \<leftarrow> on_k (kfree ref) s;
       Some (ret, s) } }"

definition ext2_update_blkcnt :: "'d ports \<Rightarrow> addr \<Rightarrow> u32 \<Rightarrow> u32 \<Rightarrow> addr \<Rightarrow> 'd sys \<Rightarrow> (u32 \<times> 'd sys) option" where
  "ext2_update_blkcnt P ref inode newcount fsi s =
     ext2_write_inode P ref inode fsi (set_mem (st32 (smem s) (ref + INO_disk_sectors) newcount) s)"

definition ext2_update_node :: "'d ports \<Rightarrow> addr \<Rightarrow> 'd sys \<Rightarrow> (u32 \<times> 'd sys) option" where
  "ext2_update_node P new s = do {
     n \<leftarrow> get_node new s;
     (ref, s) \<leftarrow> ext2_get_inode_ref P (n_offset n) (n_fs_info n) s;
     if ref = 0 then Some (-1, s)
     else ext2_write_inode P ref (n_offset n) (n_fs_info n) (set_mem (st32 (smem s) (ref + INO_size) (n_filelength n)) s) }"

subsection \<open>Types\<close>

definition ext2_inode_type_to_vfs_type :: "u16 \<Rightarrow> u8" where
  "ext2_inode_type_to_vfs_type type =
     (if type = 0x4000 then VFS_DIRECTORY else if type = 0x8000 then VFS_FILE else if type = 0x2000 then VFS_CHARDEVICE
      else if type = 0x6000 then VFS_BLOCKDEVICE else if type = 0x1000 then VFS_PIPE else if type = 0xA000 then VFS_SYMLINK
      else if type = 0xC000 then VFS_SOCKET else 0)"

definition ext2_vfs_type_to_inode_type :: "u8 \<Rightarrow> u16" where
  "ext2_vfs_type_to_inode_type type =
     (if type = VFS_DIRECTORY then 0x4000 else if type = VFS_CHARDEVICE then 0x2000 else if type = VFS_BLOCKDEVICE then 0x6000
      else if type = VFS_PIPE then 0x1000 else if type = VFS_SOCKET then 0xC000 else if type = VFS_SYMLINK then 0xA000 else 0x8000)"

subsection \<open>Directories\<close>

text \<open>The entry at the current position goes into the \<^verbatim>\<open>dirent\<close> of the stream.\<close>

definition take_dirent :: "mem \<Rightarrow> addr \<Rightarrow> addr \<Rightarrow> mem" where
  "take_dirent m dirp tmp =
     (let de = dirp + DIR_dirent;
          m = memcpy m (de + D_name) (tmp + 8) (ucast (m (tmp + 6)));
          m = m(de + D_name + ucast (m (tmp + 6)) := 0);
          m = st32 m (dirp + DIR_next_direntry_offset) (ld32 m (dirp + DIR_next_direntry_offset) + ucast (ld16 m (tmp + 4)));
          m = st32 m (dirp + DIR_lastentrysize) (ucast (ld16 m (tmp + 4)));
          m = st32 m de (ld32 m tmp);
          m = st32 m (de + D_off) (ld32 m (dirp + DIR_next_direntry_offset));
          m = st16 m (de + D_reclen) (ucast (m (tmp + 6)) + ucast SIZEOF_DIRENT + 1) in
      m(de + D_type := ext2_inode_type_to_vfs_type (ucast (m (tmp + 7)))))"

definition ext2_read_dir :: "'d ports \<Rightarrow> addr \<Rightarrow> 'd sys \<Rightarrow> (addr \<times> 'd sys) option" where
  "ext2_read_dir P dirp s = do {
     let fsi = ld32 (smem s) (dirp + DIR_fs_info);
     fs \<leftarrow> get_fs fsi s;
     (eof, s) \<leftarrow>
       (if ld32 (smem s) (dirp + DIR_next_direntry_offset) \<ge> fs_block_size fs then do {
          let bpi = ld32 (smem s) (dirp + DIR_blockpointerindex) + 1;
          let s = set_mem (st32 (smem s) (dirp + DIR_blockpointerindex) bpi) s;
          (ref, s) \<leftarrow> ext2_get_inode_ref P (ld32 (smem s) (dirp + DIR_inode)) fsi s;
          (r, s) \<leftarrow> ext2_read_inode_block P ref bpi (ld32 (smem s) (dirp + DIR_filebuffer)) fsi s;
          if r = 0 then Some (True, set_errno 0 s)
          else Some (False, set_mem (st32 (smem s) (dirp + DIR_next_direntry_offset) 0) s) }
        else Some (False, s));
     if eof then Some (0, s)
     else do {
       let tmp = ld32 (smem s) (dirp + DIR_filebuffer) + ld32 (smem s) (dirp + DIR_next_direntry_offset);
       if ld32 (smem s) tmp = 0 then Some (0, s)
       else Some (dirp + DIR_dirent, set_mem (take_dirent (smem s) dirp tmp) s) } }"

definition ext2_open_dir_stream :: "'d ports \<Rightarrow> u32 \<Rightarrow> addr \<Rightarrow> 'd sys \<Rightarrow> (addr \<times> 'd sys) option" where
  "ext2_open_dir_stream P inode fsi s = do {
     fs \<leftarrow> get_fs fsi s;
     (ref, s) \<leftarrow> ext2_get_inode_ref P inode fsi s;
     if ld16 (smem s) (ref + INO_type_permissions) AND EXT2_INODE_TYPE_DIR = 0 then Some (0, s)
     else do {
       (ret, s) \<leftarrow> on_k (kmalloc (SIZEOF_DIR + NAME_MAX)) s;
       let m = memset (smem s) ret 0 SIZEOF_DIR;
       let s = set_mem (st32 (st32 m (ret + DIR_fs_info) fsi) (ret + DIR_inode) inode) s;
       (fb, s) \<leftarrow> on_k (kmalloc (fs_block_size fs)) s;
       let s = set_mem (st32 (smem s) (ret + DIR_filebuffer) fb) s;
       (_, s) \<leftarrow> ext2_read_inode_block P ref 0 fb fsi s;
       (_, s) \<leftarrow> on_k (kfree ref) s;
       Some (ret, s) } }"

definition ext2_vfs_open_dir_stream :: "'d ports \<Rightarrow> addr \<Rightarrow> 'd sys \<Rightarrow> (addr \<times> 'd sys) option" where
  "ext2_vfs_open_dir_stream P node s = do { n \<leftarrow> get_node node s; ext2_open_dir_stream P (n_offset n) (n_fs_info n) s }"

definition ext2_close_dir_stream :: "addr \<Rightarrow> 'd sys \<Rightarrow> (int \<times> 'd sys) option" where
  "ext2_close_dir_stream dirp s = on_k (kfree dirp) s"

subsection \<open>Allocation\<close>

primrec zero_bit :: "u32 \<Rightarrow> nat \<Rightarrow> nat \<Rightarrow> nat option" where
  "zero_bit w 0 j = None"
| "zero_bit w (Suc n) j = (if getbit w j = 0 then Some j else zero_bit w n (j + 1))"

primrec bitmap_scan :: "mem \<Rightarrow> addr \<Rightarrow> nat \<Rightarrow> nat \<Rightarrow> (nat \<times> nat) option" where
  "bitmap_scan m bm 0 i = None"
| "bitmap_scan m bm (Suc n) i =
     (let w = ld32 m (bm + 4 * of_nat i) in
      if w \<noteq> 0xFFFFFFFF then (case zero_bit w 32 0 of Some j \<Rightarrow> Some (i, j) | None \<Rightarrow> bitmap_scan m bm n (i + 1))
      else bitmap_scan m bm n (i + 1))"

definition mark_bit :: "mem \<Rightarrow> addr \<Rightarrow> nat \<Rightarrow> nat \<Rightarrow> mem" where
  "mark_bit m bm i j = st32 m (bm + 4 * of_nat i) (ld32 m (bm + 4 * of_nat i) OR push_bit j 1)"

text \<open>The groups from \<open>g\<close> on: read the bitmap, take the first clear bit, write the bitmap back. The block bitmap is read and written
  at its offset on the disk, the inode bitmap is read at its offset in the partition.\<close>

primrec alloc_block_groups :: "'d ports \<Rightarrow> filesystem \<Rightarrow> addr \<Rightarrow> nat \<Rightarrow> nat \<Rightarrow> 'd sys \<Rightarrow> (u32 \<times> 'd sys) option" where
  "alloc_block_groups P fs bm 0 g s = Some (0, s)"
| "alloc_block_groups P fs bm (Suc n) g s = do {
     let loc = ld32 (smem s) (fs_blockgroup_list fs + SIZEOF_BGD * of_nat g + BGD_block_bitmap) * fs_block_size fs;
     (_, s) \<leftarrow> disk_read P loc bm (fs_block_size fs) (fs_disk_info fs) s;
     (case bitmap_scan (smem s) bm (unat (fs_block_size fs div 4)) 0 of
        None \<Rightarrow> alloc_block_groups P fs bm n (g + 1) s
      | Some (i, j) \<Rightarrow> do {
          (_, s) \<leftarrow> disk_write P loc bm (fs_block_size fs) (fs_disk_info fs) (set_mem (mark_bit (smem s) bm i j) s);
          Some (of_nat (i * 32 + j), s) }) }"

definition ext2_alloc_block :: "'d ports \<Rightarrow> addr \<Rightarrow> 'd sys \<Rightarrow> (u32 \<times> 'd sys) option" where
  "ext2_alloc_block P fsi s = do {
     fs \<leftarrow> get_fs fsi s;
     n \<leftarrow> blockgroup_count (fs_superblock fs) s;
     (bm, s) \<leftarrow> on_k (kmalloc (fs_block_size fs)) s;
     (r, s) \<leftarrow> alloc_block_groups P fs bm (unat n) 0 s;
     (_, s) \<leftarrow> on_k (kfree bm) s;
     Some (r, s) }"

primrec alloc_inode_groups :: "'d ports \<Rightarrow> filesystem \<Rightarrow> addr \<Rightarrow> addr \<Rightarrow> nat \<Rightarrow> nat \<Rightarrow> 'd sys \<Rightarrow> (u32 \<times> 'd sys) option" where
  "alloc_inode_groups P fs fsi bm 0 g s = Some (0, s)"
| "alloc_inode_groups P fs fsi bm (Suc n) g s = do {
     let loc = ld32 (smem s) (fs_blockgroup_list fs + SIZEOF_BGD * of_nat g + BGD_inode_bitmap) * fs_block_size fs;
     (_, s) \<leftarrow> ext2_disk_read P loc bm (fs_block_size fs) fsi s;
     (case bitmap_scan (smem s) bm (unat (fs_block_size fs div 4)) 0 of
        None \<Rightarrow> alloc_inode_groups P fs fsi bm n (g + 1) s
      | Some (i, j) \<Rightarrow> do {
          (_, s) \<leftarrow> disk_write P loc bm (fs_block_size fs) (fs_disk_info fs) (set_mem (mark_bit (smem s) bm i j) s);
          Some (of_nat (i * 32 + j), s) }) }"

definition ext2_alloc_inode :: "'d ports \<Rightarrow> addr \<Rightarrow> 'd sys \<Rightarrow> (u32 \<times> 'd sys) option" where
  "ext2_alloc_inode P fsi s = do {
     fs \<leftarrow> get_fs fsi s;
     n \<leftarrow> blockgroup_count (fs_superblock fs) s;
     (bm, s) \<leftarrow> on_k (kmalloc (fs_block_size fs)) s;
     (r, s) \<leftarrow> alloc_inode_groups P fs fsi bm (unat n) 0 s;
     (_, s) \<leftarrow> on_k (kfree bm) s;
     Some (r, s) }"

definition ext2_dealloc_inode :: "u32 \<Rightarrow> addr \<Rightarrow> 'd sys \<Rightarrow> 'd sys" where
  "ext2_dealloc_inode inode fsi s = s"

definition ext2_add_dir :: "u32 \<Rightarrow> u32 \<Rightarrow> addr \<Rightarrow> u16 \<Rightarrow> addr \<Rightarrow> 'd sys \<Rightarrow> int" where
  "ext2_add_dir parent_inode inode name type_indicator fsi s = 0"

primrec create_sectors :: "'d ports \<Rightarrow> addr \<Rightarrow> u32 \<Rightarrow> nat \<Rightarrow> addr \<Rightarrow> 'd sys \<Rightarrow> 'd sys option" where
  "create_sectors P fsi bs 0 buf s = Some s"
| "create_sectors P fsi bs (Suc n) buf s = do {
     (block, s) \<leftarrow> ext2_alloc_block P fsi s;
     if block = 0 then Some s
     else do { (_, s) \<leftarrow> ext2_write_block P block buf fsi s; create_sectors P fsi bs n (buf + bs) s } }"

definition new_inode :: "mem \<Rightarrow> addr \<Rightarrow> u16 \<Rightarrow> u16 \<Rightarrow> u16 \<Rightarrow> u16 \<Rightarrow> u16 \<Rightarrow> u16 \<Rightarrow> u32 \<Rightarrow> mem" where
  "new_inode m ref type permissions uid gid sz flags sectors =
     (let m = memset m ref 0 SIZEOF_INODE;
          m = st16 m (ref + INO_type_permissions) (type OR permissions);
          m = st16 m (ref + INO_uid) uid;
          m = st16 m (ref + INO_gid) gid;
          m = st32 m (ref + INO_size) (ucast sz);
          m = st32 m (ref + INO_flags) (ucast flags) in
      st32 m (ref + INO_disk_sectors) sectors)"

definition ext2_create_inode :: "'d ports \<Rightarrow> u32 \<Rightarrow> addr \<Rightarrow> u16 \<Rightarrow> u16 \<Rightarrow> u16 \<Rightarrow> u16 \<Rightarrow> u16 \<Rightarrow> u16 \<Rightarrow> addr \<Rightarrow> addr \<Rightarrow> 'd sys \<Rightarrow> (u32 \<times> 'd sys) option" where
  "ext2_create_inode P parent_inode name type permissions uid gid sz flags buf fsi s = do {
     fs \<leftarrow> get_fs fsi s;
     (ino, s) \<leftarrow> ext2_alloc_inode P fsi s;
     if ext2_add_dir parent_inode ino name type fsi s = -1 then Some (0, ext2_dealloc_inode ino fsi s)
     else do {
       (ref, s) \<leftarrow> on_k (kmalloc SIZEOF_INODE) s;
       let bs = fs_block_size fs;
       let sectors = (if sz = 0 then 0 else if ucast sz mod bs = 0 then ucast sz div bs else ucast sz div bs + 1);
       let s = set_mem (new_inode (smem s) ref type permissions uid gid sz flags sectors) s;
       s \<leftarrow> create_sectors P fsi bs (unat sectors) buf s;
       (_, s) \<leftarrow> ext2_write_inode P ref ino fsi s;
       Some (ino, s) } }"

definition ext2_create_node :: "'d ports \<Rightarrow> addr \<Rightarrow> addr \<Rightarrow> u32 \<Rightarrow> 'd sys \<Rightarrow> (u32 \<times> 'd sys) option" where
  "ext2_create_node P node name flags s = do {
     n \<leftarrow> get_node node s;
     p \<leftarrow> get_node (n_parent n) s;
     ext2_create_inode P (n_offset p) name (ext2_vfs_type_to_inode_type (n_type n)) (n_permissions n) (ucast (n_uid n))
       (ucast (n_gid n)) 0 (ucast flags) 0 (n_fs_info n) s }"

subsection \<open>Nodes and mounting\<close>

definition ext2_vfs_entry :: "'d ports \<Rightarrow> u32 \<Rightarrow> addr \<Rightarrow> u32 \<Rightarrow> addr \<Rightarrow> 'd sys \<Rightarrow> (addr \<times> 'd sys) option" where
  "ext2_vfs_entry P inode name ident fsi s =
     (if inode = 0 then Some (0, s)
      else do {
        (ref, s) \<leftarrow> ext2_get_inode_ref P inode fsi s;
        if ref = 0 then Some (0, s)
        else do {
          (node, s) \<leftarrow> on_k (kmalloc SIZEOF_VFS_NODE) s;
          let tp = ld16 (smem s) (ref + INO_type_permissions);
          let s = set_node node (node_zero\<lparr>n_name := name, n_type := ext2_inode_type_to_vfs_type (tp AND 0xF000),
            n_permissions := tp AND 0xFFF, n_uid := ucast (ld16 (smem s) (ref + INO_uid)), n_gid := ucast (ld16 (smem s) (ref + INO_gid)),
            n_id := ident, n_offset := inode, n_filelength := ld32 (smem s) (ref + INO_size), n_fs_info := fsi\<rparr>) s;
          (_, s) \<leftarrow> on_k (kfree ref) s;
          Some (node, s) } })"

definition init_ext2_filesystem :: "'d ports \<Rightarrow> addr \<Rightarrow> u32 \<Rightarrow> addr \<Rightarrow> 'd sys \<Rightarrow> (addr \<times> 'd sys) option" where
  "init_ext2_filesystem P name ext2_start disk s = do {
     (ret, s) \<leftarrow> on_k (kmalloc SIZEOF_FILESYSTEM) s;
     (sb, s) \<leftarrow> ext2_copy_superblock_into_memory P ext2_start disk s;
     if ld16 (smem s) (sb + SB_ext2_signature) \<noteq> EXT2_SIGNATURE then Some (0, s)
     else do {
       (bgl, s) \<leftarrow> ext2_get_all_block_group_descriptors P sb ext2_start disk s;
       Some (ret, s\<lparr>sy_fs := (sy_fs s)(ret \<mapsto> \<lparr>fs_name = name, fs_type = 0, fs_block_size = ext2_block_size sb s,
         fs_disk_info = disk, fs_superblock = sb, fs_blockgroup_list = bgl, fs_start = 2, fs_partstart = ext2_start,
         fs_block_read = FN_ext2_read_file, fs_block_write = FN_ext2_write_file, fs_create_node = FN_ext2_create_node,
         fs_update_node = FN_ext2_update_node, fs_dir_open = FN_ext2_open_dir_stream, fs_dir_close = FN_ext2_close_dir_stream,
         fs_dir_read = FN_ext2_read_dir, fs_makenode = FN_ext2_vfs_entry\<rparr>)\<rparr>) } }"

subsection \<open>Memory and the kernel heap\<close>

lemma on_list_mem: "on_list f hp k = Some (r, k') \<Longrightarrow> km_mem k' = km_mem k \<and> kernel_heap k' = kernel_heap k"
  by (auto simp: on_list_def elim!: bind_SomeE bind_pairE)

lemma kmalloc_mem: "kmalloc n k = Some (p, k') \<Longrightarrow> km_mem k' = km_mem k"
  by (auto simp: kmalloc_def kmalloc_base_def alloc_def simple_alloc_def Let_def split: if_splits elim!: bind_SomeE bind_pairE dest!: on_list_mem)

lemma kfree_mem: "kfree p k = Some (r, k') \<Longrightarrow> km_mem k' = km_mem k"
  by (auto simp: kfree_def free_def dest: on_list_mem)

lemma heap_mem [simp]:
  "get_heap (k\<lparr>km_mem := m\<rparr>) a = get_heap k a" "get_list (k\<lparr>km_mem := m\<rparr>) a = get_list k a"
  "list_state (k\<lparr>km_mem := m\<rparr>) l = list_state k l" "heap_ok hp h (k\<lparr>km_mem := m\<rparr>) = heap_ok hp h k"
  by (simp_all add: heap_ok_def get_heap_def get_list_def list_state_def)

lemma kheap_mem [simp]: "kheap_ok (k\<lparr>km_mem := m\<rparr>) = kheap_ok k" "kheap_live (k\<lparr>km_mem := m\<rparr>) = kheap_live k"
  by (simp_all add: kheap_ok_def kheap_live_def split: option.split)

lemma smem_set_mem [simp]: "smem (set_mem m s) = m" "kst (set_mem m s) = (kst s)\<lparr>km_mem := m\<rparr>" "set_mem m (set_mem m' s) = set_mem m s"
  by (simp_all add: set_mem_def smem_def)

lemma set_mem_sel [simp]:
  "get_disk a (set_mem m s) = get_disk a s" "get_fs a (set_mem m s) = get_fs a s" "get_node a (set_mem m s) = get_node a s"
  "sy_ramdisks (set_mem m s) = sy_ramdisks s"
  by (simp_all add: set_mem_def)

lemma on_k_some: "f (kst s) = Some (r, k') \<Longrightarrow> on_k f s = Some (r, set_kst k' s)"
  by (simp add: on_k_def)

text \<open>A block is allocated, used and freed: the heap is as before.\<close>

lemma kfree_kmalloc:
  assumes "kheap_ok k" and "unat n < 2 ^ 31" and "kmalloc n k = Some (p, k1)"
  shows "\<exists>k2. kfree p (k1\<lparr>km_mem := m\<rparr>) = Some (0, k2) \<and> kheap_ok k2 \<and> kheap_live k2 = kheap_live k \<and> km_mem k2 = m"
proof -
  from kheap.malloc_law [OF assms] obtain sz where sz: "kheap_ok k1" "(p, sz) \<notin> kheap_live k" "kheap_live k1 = insert (p, sz) (kheap_live k)"
    by blast
  have "kheap_ok (k1\<lparr>km_mem := m\<rparr>)" "(p, sz) \<in> kheap_live (k1\<lparr>km_mem := m\<rparr>)" using sz by simp_all
  from kheap.free_law [OF this] obtain k2 where k2: "kfree p (k1\<lparr>km_mem := m\<rparr>) = Some (0, k2)" "kheap_ok k2" "kheap_live k2 = kheap_live k"
    using sz by auto
  with kfree_mem [OF k2(1)] show ?thesis by simp
qed

subsection \<open>A file system on a RAM disk\<close>

definition ram_mount :: "addr \<Rightarrow> filesystem \<Rightarrow> u32 \<Rightarrow> 'd sys \<Rightarrow> bool" where
  "ram_mount fsi fs loc s \<longleftrightarrow> get_fs fsi s = Some fs \<and>
     (\<exists>d rd. get_disk (fs_disk_info fs) s = Some d \<and> d_block_size d = 0 \<and> d_read d = FN_ramdisk_read \<and> d_write d = FN_ramdisk_write \<and>
       sy_ramdisks s (d_drive_info d) = Some rd \<and> rd_location rd = loc)"

lemma ram_mount_set [simp]:
  "ram_mount fsi fs loc (set_mem m s) = ram_mount fsi fs loc s" "ram_mount fsi fs loc (set_kst k s) = ram_mount fsi fs loc s"
  by (simp_all add: ram_mount_def)

lemma disk_read_ram:
  assumes "ram_mount fsi fs loc s"
  shows "disk_read P off buf n (fs_disk_info fs) s = Some (buf, set_mem (memcpy (smem s) buf (loc + off) n) s)"
  using assms by (auto simp: ram_mount_def disk_read_def drive_call_def ramdisk_read_def)

lemma disk_write_ram:
  assumes "ram_mount fsi fs loc s"
  shows "disk_write P off buf n (fs_disk_info fs) s = Some (loc + off, set_mem (memcpy (smem s) (loc + off) buf n) s)"
  using assms by (auto simp: ram_mount_def disk_write_def drive_call_def ramdisk_write_def)

lemma ext2_disk_ram:
  assumes "ram_mount fsi fs loc s"
  shows "ext2_disk_read P off buf n fsi s = Some (buf, set_mem (memcpy (smem s) buf (loc + (off + fs_partstart fs)) n) s)"
    "ext2_disk_write P off buf n fsi s = Some (loc + (off + fs_partstart fs), set_mem (memcpy (smem s) (loc + (off + fs_partstart fs)) buf n) s)"
  using disk_read_ram [OF assms] disk_write_ram [OF assms] assms
  by (simp_all add: ext2_disk_read_def ext2_disk_write_def ram_mount_def)

lemma memcpy_spec:
  assumes "apart d a (unat n)"
  shows "memcpy m d a n x = (if inblk d (unat n) x then m (a + (x - d)) else m x)"
  unfolding memcpy_copy_up [OF assms] using apartD [OF assms] unat_u32_less [of n] by (intro copy_up_spec) auto

lemma memcpy_at:
  assumes "apart d a (unat n)" and "k < unat n"
  shows "memcpy m d a n (d + of_nat k) = m (a + of_nat k)" "memcpy m d a n (a + of_nat k) = m (a + of_nat k)"
proof -
  have k: "unat (of_nat k :: u32) = k" using assms(2) unat_u32_less [of n] by (simp add: unat_of_nat_nowrap)
  show "memcpy m d a n (d + of_nat k) = m (a + of_nat k)" using assms by (simp add: memcpy_spec inblk_def k)
  have "\<not> inblk d (unat n) (a + of_nat k)"
  proof
    assume "inblk d (unat n) (a + of_nat k)"
    then obtain j where "j < unat n" "a + of_nat k = d + of_nat j" by (rule inblkE)
    with apartD [OF assms(1), of j k] assms(2) show False by auto
  qed
  then show "memcpy m d a n (a + of_nat k) = m (a + of_nat k)" using assms by (simp add: memcpy_spec)
qed

text \<open>Bytes outside the destination stay.\<close>

definition clear_of :: "addr \<Rightarrow> nat \<Rightarrow> addr \<Rightarrow> nat \<Rightarrow> bool" where
  "clear_of d n a k \<longleftrightarrow> unat d + n \<le> 2 ^ 32 \<and> unat a + k \<le> 2 ^ 32 \<and> (unat d + n \<le> unat a \<or> unat a + k \<le> unat d)"

lemma clear_ofD: "clear_of d n a k \<Longrightarrow> j < k \<Longrightarrow> \<not> inblk d n (a + of_nat j)"
proof
  assume c: "clear_of d n a k" and j: "j < k" and "inblk d n (a + of_nat j)"
  then obtain i where i: "i < n" "a + of_nat j = d + of_nat i" by (metis inblkE)
  then have "unat (a + of_nat j) = unat (d + of_nat i)" by simp
  with c i(1) j show False by (auto simp: clear_of_def unat_offset)
qed

lemma memcpy_clear:
  assumes "apart d a (unat n)" and "clear_of d (unat n) b l" and "k < l"
  shows "memcpy m d a n (b + of_nat k) = m (b + of_nat k)"
  using memcpy_spec [OF assms(1)] clear_ofD [OF assms(2,3)] by simp

lemma ld32_same_bytes:
  assumes "\<And>k. k < 4 \<Longrightarrow> m (a + of_nat k) = m' (b + of_nat k)"
  shows "ld32 m a = ld32 m' b"
  using assms [of 0] assms [of 1] assms [of 2] assms [of 3] by (simp add: ld32_def)

lemma ld32_memcpy_clear:
  assumes "apart d a (unat n)" and "clear_of d (unat n) b 4"
  shows "ld32 (memcpy m d a n) b = ld32 m b"
  using memcpy_clear [OF assms] by (intro ld32_same_bytes) simp

subsection \<open>Where an inode is\<close>

lemma inode_layout:
  fixes i z b :: u32
  assumes "unat z dvd unat b" and "b \<noteq> 0" and "unat i * unat z < 2 ^ 32"
  shows "(i * z div b) * b + (i mod (b div z)) * z = i * z" "b div z \<noteq> 0" "z \<noteq> 0"
proof -
  from assms(1) obtain q where q: "unat b = unat z * q" by (rule dvdE)
  have q0: "0 < q" "0 < unat z" using q assms(2) by (auto intro!: gr0I simp: unat_eq_0)
  then show "z \<noteq> 0" by auto
  have bz: "unat (b div z) = q" using q q0 by (simp add: unat_div)
  then show "b div z \<noteq> 0" using q0 by auto
  have iz: "unat (i * z) = unat i * unat z" using assms(3) unat_mult_lem [of i z] by simp
  have n1: "unat (i * z div b) = unat i div q"
    unfolding unat_div iz q using q0 by (simp add: div_mult2_eq)
  have "i * z div b * b = of_nat (unat (i * z div b)) * of_nat (unat b)" by simp
  then have w1: "i * z div b * b = of_nat (unat i div q * unat b)" unfolding n1 by simp
  have "i mod (b div z) * z = of_nat (unat (i mod (b div z))) * of_nat (unat z)" by simp
  then have w2: "i mod (b div z) * z = of_nat (unat i mod q * unat z)" unfolding unat_mod bz by simp
  have alg: "x * (y * w) + r * y = (x * w + r) * y" for x y w r :: nat by (simp add: algebra_simps)
  have "unat i div q * unat b + unat i mod q * unat z = (unat i div q * q + unat i mod q) * unat z"
    unfolding q by (rule alg)
  then have w3: "unat i div q * unat b + unat i mod q * unat z = unat i * unat z" by (simp only: div_mult_mod_eq)
  have "(i * z div b) * b + (i mod (b div z)) * z = of_nat (unat i * unat z)"
    unfolding w1 w2 of_nat_add [symmetric] w3 ..
  then show "(i * z div b) * b + (i mod (b div z)) * z = i * z" by simp
qed

subsection \<open>Bitmaps\<close>

lemma bitmap_scan_cong:
  assumes "\<And>k. k < 4 * (i + n) \<Longrightarrow> m (a + of_nat k) = m' (b + of_nat k)"
  shows "bitmap_scan m a n i = bitmap_scan m' b n i"
  using assms
proof (induction n arbitrary: i)
  case (Suc n)
  have "m (a + 4 * of_nat i + of_nat k) = m' (b + 4 * of_nat i + of_nat k)" if "k < 4" for k
    using Suc.prems [of "4 * i + k"] that by (simp add: add.assoc)
  then have "ld32 m (a + 4 * of_nat i) = ld32 m' (b + 4 * of_nat i)" by (rule ld32_same_bytes)
  moreover have "bitmap_scan m a n (i + 1) = bitmap_scan m' b n (i + 1)" using Suc.prems by (intro Suc.IH) simp
  ultimately show ?case by (simp add: Let_def split: option.split)
qed simp

lemma bitmap_scan_bound: "bitmap_scan m a n i = Some (x, j) \<Longrightarrow> i \<le> x \<and> x < i + n"
  by (induction n arbitrary: i) (auto simp: Let_def split: if_splits option.splits, force+)

lemma mark_bit_clear:
  assumes "clear_of a (4 * n) b l" and "i < n" and "k < l"
  shows "mark_bit m a i j (b + of_nat k) = m (b + of_nat k)"
proof -
  have "b + of_nat k \<noteq> a + 4 * of_nat i + of_nat c" if "c < 4" for c
  proof
    assume "b + of_nat k = a + 4 * of_nat i + of_nat c"
    then have "b + of_nat k = a + of_nat (4 * i + c)" by (simp add: add.assoc)
    moreover have "4 * i + c < 4 * n" using assms(2) that by simp
    moreover have "4 * n \<le> 2 ^ 32" using assms(1) by (simp add: clear_of_def)
    ultimately have "inblk a (4 * n) (b + of_nat k)" using inblkI [of "4 * i + c" "4 * n" a] by simp
    with clear_ofD [OF assms(1,3)] show False by simp
  qed
  from this [of 0] this [of 1] this [of 2] this [of 3] show ?thesis by (simp add: mark_bit_def st32_def)
qed

subsection \<open>Properties\<close>

text \<open>C17. Inodes are laid out one after the other: when the inode size divides the block size, \<^verbatim>\<open>_ext2_get_inode_offset\<close> gives the start of
  the inode table of the inode's group plus the index of the inode in the group times the inode size. The computation by
  block and position in the block adds up to the linear one.\<close>

theorem inode_offset_linear:
  assumes "get_fs fsi s = Some fs" and "fs_block_size fs \<noteq> 0" and "unat (ext2_get_inode_size fs s) dvd unat (fs_block_size fs)"
    and "ipg = ld32 (smem s) (fs_superblock fs + SB_inodes_in_blockgroup)" and "ipg \<noteq> 0"
    and "unat ((inode - 1) mod ipg) * unat (ext2_get_inode_size fs s) < 2 ^ 32"
  shows "ext2_get_inode_offset inode fsi s =
    Some (ld32 (smem s) (fs_blockgroup_list fs + SIZEOF_BGD * ((inode - 1) div ipg) + BGD_start_inode_table) * fs_block_size fs +
      ((inode - 1) mod ipg) * ext2_get_inode_size fs s)"
  using inode_layout [OF assms(3,2,6)] assms(1,2,4,5)
  by (simp add: ext2_get_inode_offset_def Let_def algebra_simps)

text \<open>C35. Files end early: the blocks from \<open>12 + n\<^sup>2\<close> on, where \<open>n\<close> is the number of pointers in a block, are refused although the double
  indirect block reaches \<open>n\<close> blocks further. Reading one of them returns 0 with \<^verbatim>\<open>EFBIG\<close>, whatever the inode holds.\<close>

theorem double_indirect_cut_off:
  assumes "get_fs fsi s = Some fs" and "n = fs_block_size fs div 4" and "unat n * unat n + 12 < 2 ^ 32" and "1 < n"
    and "n * n + 12 \<le> blk" and "blk < n * n + n + 12" and "unat n * unat n + unat n + 12 < 2 ^ 32"
  shows "ext2_read_inode_block P inode blk buf fsi s = Some (0, set_errno EFBIG s)"
proof -
  have p: "pow_int n 2 = n * n" by (simp add: pow_int_def pow_loop_power power2_eq_square)
  have nn: "unat (n * n + 12) = unat n * unat n + 12"
  proof -
    have "unat (n * n) = unat n * unat n" using assms(3) unat_mult_lem [of n n] by simp
    with assms(3) show ?thesis by (simp add: unat_word_ariths)
  qed
  have n12: "unat (n + 12) = unat n + 12"
  proof -
    have "unat n \<le> unat n * unat n" by simp
    with assms(3) have "unat n + 12 < 2 ^ 32" by linarith
    then show ?thesis by (subst unat_plus_nowrap) simp_all
  qed
  have "unat n \<le> unat n * unat n" by simp
  then have "n + 12 \<le> n * n + 12" using nn n12 by (simp add: word_le_nat_alt)
  then have "n + 12 \<le> blk" using assms(5) by (rule order_trans)
  moreover have "(12 :: u32) \<le> n + 12" using n12 by (simp add: word_le_nat_alt)
  ultimately have "\<not> blk < 12" "\<not> blk < n + 12" "\<not> blk < pow_int n 2 + 12" using assms(5) by (auto simp: p)
  with assms(1,2) show ?thesis by (simp add: ext2_read_inode_block_def ext2_get_inode_data_offset_def Let_def)
qed

lemma getbit_0: "j < 32 \<Longrightarrow> getbit w j = 0 \<longleftrightarrow> \<not> bit w j"
proof -
  assume j: "j < 32"
  have "bit (getbit w j) i \<longleftrightarrow> bit (w AND push_bit j 1) (if 32 - j \<le> i \<and> i < 32 then 31 else j + i)" for i
    by (simp add: getbit_def bit_signed_drop_bit_iff)
  note b = this
  show ?thesis
  proof (cases "bit w j")
    case True
    then have "bit (getbit w j) 0" using j b [of 0] by (simp add: bit_and_iff bit_exp_iff)
    with True show ?thesis by auto
  next
    case False
    then have "w AND push_bit j 1 = 0" by (intro bit_word_eqI) (auto simp: bit_and_iff bit_exp_iff)
    with False show ?thesis by (simp add: getbit_def)
  qed
qed

lemma zero_bit_least:
  "\<lbrakk>k < n; j + n \<le> 32; \<not> bit w (j + k); \<forall>i < k. bit w (j + i)\<rbrakk> \<Longrightarrow> zero_bit w n j = Some (j + k)"
proof (induction n arbitrary: j k)
  case (Suc n)
  show ?case
  proof (cases k)
    case 0
    with Suc.prems getbit_0 [of j w] show ?thesis by simp
  next
    case (Suc l)
    with Suc.prems(4) have "bit w j" "\<forall>i < l. bit w (Suc j + i)" by (force dest: spec [of _ 0] spec [of _ "Suc _"])+
    with Suc Suc.prems Suc.IH [of l "Suc j"] getbit_0 [of j w] show ?thesis by simp
  qed
qed simp

text \<open>Bit \<open>n\<close> of the bitmap at \<open>a\<close>.\<close>

definition bitmap_bit :: "mem \<Rightarrow> addr \<Rightarrow> nat \<Rightarrow> bool" where
  "bitmap_bit m a n \<longleftrightarrow> bit (ld32 m (a + 4 * of_nat (n div 32))) (n mod 32)"

lemma bitmap_scan_words:
  "\<lbrakk>x < n; \<forall>y < x. ld32 m (bm + 4 * of_nat (i + y)) = 0xFFFFFFFF; ld32 m (bm + 4 * of_nat (i + x)) \<noteq> 0xFFFFFFFF;
    zero_bit (ld32 m (bm + 4 * of_nat (i + x))) 32 0 = Some k\<rbrakk> \<Longrightarrow> bitmap_scan m bm n i = Some (i + x, k)"
proof (induction n arbitrary: i x)
  case (Suc n)
  show ?case
  proof (cases x)
    case 0
    with Suc.prems show ?thesis by (simp add: Let_def)
  next
    case (Suc l)
    have f: "ld32 m (bm + 4 * of_nat i) = 0xFFFFFFFF" using Suc Suc.prems(2) by (auto dest: spec [of _ 0])
    have g: "\<forall>y < l. ld32 m (bm + 4 * of_nat (Suc i + y)) = 0xFFFFFFFF"
    proof (intro allI impI)
      fix y
      assume "y < l"
      then show "ld32 m (bm + 4 * of_nat (Suc i + y)) = 0xFFFFFFFF" using Suc Suc.prems(2) [rule_format, of "Suc y"] by simp
    qed
    have "bitmap_scan m bm n (Suc i) = Some (Suc i + l, k)"
      by (rule Suc.IH [OF _ g]) (use Suc Suc.prems in simp_all)
    with Suc f show ?thesis by (simp add: Let_def)
  qed
qed simp

lemma bitmap_scan_least:
  assumes "n < 32 * w" and "\<not> bitmap_bit m a n" and "\<forall>i < n. bitmap_bit m a i"
  shows "bitmap_scan m a w 0 = Some (n div 32, n mod 32)"
proof -
  have b: "bit (ld32 m (a + 4 * of_nat (x :: nat))) y" if "32 * x + y < n" "y < 32" for x y
    using assms(3) [rule_format, OF that(1)] that(2) by (simp add: bitmap_bit_def)
  have "ld32 m (a + 4 * of_nat y) = 0xFFFFFFFF" if y: "y < n div 32" for y
  proof -
    have "bit (ld32 m (a + 4 * of_nat y)) j" if "j < 32" for j
      using b [of y j] y that div_mult_mod_eq [of n 32] by linarith
    then have "ld32 m (a + 4 * of_nat y) = - 1" by (intro bit_word_eqI) simp
    then show ?thesis by simp
  qed
  moreover have c: "\<not> bit (ld32 m (a + 4 * of_nat (n div 32))) (n mod 32)" using assms(2) by (simp add: bitmap_bit_def)
  moreover have "ld32 m (a + 4 * of_nat (n div 32)) \<noteq> 0xFFFFFFFF"
  proof
    assume "ld32 m (a + 4 * of_nat (n div 32)) = 0xFFFFFFFF"
    then have "ld32 m (a + 4 * of_nat (n div 32)) = - 1" by simp
    then have "bit (ld32 m (a + 4 * of_nat (n div 32))) (n mod 32)" by (simp only: bit_minus_1_iff) simp
    with c show False by simp
  qed
  moreover have "zero_bit (ld32 m (a + 4 * of_nat (n div 32))) 32 0 = Some (n mod 32)"
    using zero_bit_least [of "n mod 32" 32 0 "ld32 m (a + 4 * of_nat (n div 32))"] c b [of "n div 32"] div_mult_mod_eq [of n 32]
    by (simp add: mult.commute)
  moreover have "n div 32 < w" using assms(1) by (simp add: less_mult_imp_div_less mult.commute)
  ultimately show ?thesis using bitmap_scan_words [of "n div 32" w m a 0 "n mod 32"] by simp
qed

text \<open>C34. Allocating an inode does not record it. On a RAM disk with at least one block group, when the first clear bit of the inode
  bitmap of group 0 is bit \<open>n\<close>, \<^verbatim>\<open>_ext2_alloc_inode\<close> returns \<open>n\<close>, which is one below the number of the inode that
  the bit stands for, and the bitmap is the same afterwards: it is read relative to the start of the partition and written back relative to
  the start of the disk. The block size is a multiple of 4 below \<open>2\<^sup>3\<^sup>1\<close>, the buffer is allocated from a well-formed kernel heap, and
  the bitmap, the place where it is written and the buffer do not overlap; in particular the partition does not start with the disk.\<close>

theorem alloc_inode_not_recorded:
  assumes mount: "ram_mount fsi fs loc s" and ok: "kheap_ok (kst s)" and bs: "unat bs < 2 ^ 31" "4 dvd unat bs" "bs = fs_block_size fs"
    and groups: "blockgroup_count (fs_superblock fs) s = Some ng" "ng \<noteq> 0"
    and alloc: "kmalloc bs (kst s) = Some (bm, k1)"
    and bitmap: "off = ld32 (smem s) (fs_blockgroup_list fs + BGD_inode_bitmap) * bs" "at = loc + (off + fs_partstart fs)"
    and free: "n < 8 * unat bs" "\<not> bitmap_bit (smem s) at n" "\<forall>i < n. bitmap_bit (smem s) at i"
    and apart: "apart bm at (unat bs)" "apart (loc + off) bm (unat bs)" "apart (loc + off) at (unat bs)"
  shows "\<exists>s'. ext2_alloc_inode P fsi s = Some (of_nat n, s') \<and>
    (\<forall>k < unat bs. smem s' (at + of_nat k) = smem s (at + of_nat k))"
proof -
  let ?s = "set_kst k1 s"
  obtain g where ng: "unat ng = Suc g" using groups(2) by (metis not0_implies_Suc unat_eq_zero)
  have m1: "km_mem k1 = smem s" using kmalloc_mem [OF alloc] by (simp add: smem_def)
  have mt: "ram_mount fsi fs loc ?s" "ram_mount fsi fs loc (set_mem m ?s)" for m using mount by simp_all
  define m2 where "m2 = memcpy (smem s) bm at bs"
  have w: "4 * (unat bs div 4) = unat bs" using bs(2) by simp
  then have fr: "bitmap_scan (smem s) at (unat bs div 4) 0 = Some (n div 32, n mod 32)"
    using free by (intro bitmap_scan_least) simp_all
  have "bitmap_scan m2 bm (unat bs div 4) 0 = bitmap_scan (smem s) at (unat bs div 4) 0"
    by (rule bitmap_scan_cong) (use w memcpy_at(1) [OF apart(1)] in \<open>simp add: m2_def\<close>)
  with fr have sc: "bitmap_scan m2 bm (unat bs div 4) 0 = Some (n div 32, n mod 32)" by simp
  define m3 where "m3 = mark_bit m2 bm (n div 32) (n mod 32)"
  define m4 where "m4 = memcpy m3 (loc + off) bm bs"
  have rd: "ext2_disk_read P off bm bs fsi ?s = Some (bm, set_mem m2 ?s)"
    using ext2_disk_ram(1) [OF mt(1), of P off bm bs] m1 bitmap(2) by (simp add: m2_def)
  have wr: "disk_write P off bm bs (fs_disk_info fs) (set_mem m3 ?s) = Some (loc + off, set_mem m4 ?s)"
    using disk_write_ram [OF mt(2), of P off bm bs] by (simp add: m4_def)
  have e: "of_nat (n div 32) * 32 + of_nat (n mod 32) = (of_nat n :: u32)"
    by (metis div_mult_mod_eq of_nat_add of_nat_mult of_nat_numeral)
  have g: "alloc_inode_groups P fs fsi bm (Suc g) 0 ?s = Some (of_nat n, set_mem m4 ?s)"
    using rd wr sc bitmap(1) by (simp add: m1 bs(3) [symmetric] m3_def unat_div Let_def e)
  from kfree_kmalloc [OF ok bs(1) alloc] obtain k2 where k2: "kfree bm (k1\<lparr>km_mem := m4\<rparr>) = Some (0, k2)" "km_mem k2 = m4" by blast
  have "get_fs fsi s = Some fs" using mount by (simp add: ram_mount_def)
  then have r: "ext2_alloc_inode P fsi s = Some (of_nat n, set_kst k2 (set_mem m4 ?s))"
    using groups alloc g k2(1) bs(3) by (simp add: ext2_alloc_inode_def on_k_def ng del: alloc_inode_groups.simps)
  have "m4 (at + of_nat k) = smem s (at + of_nat k)" if k: "k < unat bs" for k
  proof -
    have "clear_of (loc + off) (unat bs) at (unat bs)" "clear_of bm (4 * (unat bs div 4)) at (unat bs)"
      using apart w by (auto simp: apart_def clear_of_def)
    then have "m4 (at + of_nat k) = m3 (at + of_nat k)" "m3 (at + of_nat k) = m2 (at + of_nat k)"
      using memcpy_clear [OF apart(2) _ k] mark_bit_clear [OF _ _ k] bitmap_scan_bound [OF sc] by (auto simp: m4_def m3_def)
    with memcpy_at(2) [OF apart(1) k] show ?thesis by (simp add: m2_def)
  qed
  with r k2(2) show ?thesis by (intro exI [of _ "set_kst k2 (set_mem m4 ?s)"]) simp
qed

text \<open>C16. What is written to a block of a file is read back. On a RAM disk, writing one of the twelve direct blocks of an inode and then
  reading any of them gives the bytes written, when the two have the same block pointer, and otherwise what the other
  block held before.\<close>

theorem direct_block_roundtrip:
  assumes mount: "ram_mount fsi fs loc s" and ij: "i < 12" "j < 12" and bs: "bs = fs_block_size fs"
    and ptr: "p = ld32 (smem s) (ino + INO_direct + 4 * i)" "q = ld32 (smem s) (ino + INO_direct + 4 * j)" "p * bs \<noteq> 0" "q * bs \<noteq> 0"
    and at: "a = loc + (p * bs + fs_partstart fs)" "b = loc + (q * bs + fs_partstart fs)"
    and apart: "apart a buf (unat bs)" "apart dst b (unat bs)" "p \<noteq> q \<Longrightarrow> apart a b (unat bs)"
      "clear_of a (unat bs) (ino + INO_direct + 4 * i) 4" "clear_of a (unat bs) (ino + INO_direct + 4 * j) 4"
    and k: "k < unat bs"
  shows "\<exists>s1 s2. ext2_write_inode_block P ino i buf fsi s = Some (a, s1) \<and> ext2_read_inode_block P ino j dst fsi s1 = Some (dst, s2) \<and>
    smem s2 (dst + of_nat k) = (if p = q then smem s (buf + of_nat k) else smem s (b + of_nat k))"
proof -
  have fs: "get_fs fsi s = Some fs" using mount by (simp add: ram_mount_def)
  define m1 where "m1 = memcpy (smem s) a buf bs"
  have w: "ext2_write_inode_block P ino i buf fsi s = Some (a, set_mem m1 s)"
    using ij(1) ptr fs ext2_disk_ram(2) [OF mount, of P "p * bs"] bs at
    by (simp add: ext2_write_inode_block_def ext2_get_inode_data_offset_def Let_def m1_def)
  have q: "ld32 m1 (ino + INO_direct + 4 * j) = q" unfolding m1_def using ld32_memcpy_clear [OF apart(1,5)] ptr(2) by simp
  have mt: "ram_mount fsi fs loc (set_mem m1 s)" using mount by simp
  have r: "ext2_read_inode_block P ino j dst fsi (set_mem m1 s) = Some (dst, set_mem (memcpy m1 dst b bs) s)"
    using ij(2) q ptr fs ext2_disk_ram(1) [OF mt, of P "q * bs"] bs at
    by (simp add: ext2_read_inode_block_def ext2_get_inode_data_offset_def Let_def)
  have "m1 (b + of_nat k) = (if p = q then smem s (buf + of_nat k) else smem s (b + of_nat k))"
  proof (cases "p = q")
    case True
    with at memcpy_at(1) [OF apart(1) k] show ?thesis by (simp add: m1_def)
  next
    case False
    then have "clear_of a (unat bs) b (unat bs)" using apart(3) by (auto simp: apart_def clear_of_def)
    from memcpy_clear [OF apart(1) this k] False show ?thesis by (simp add: m1_def)
  qed
  with memcpy_at(1) [OF apart(2) k, of m1] w r show ?thesis by simp
qed

subsection \<open>A concrete file system\<close>

text \<open>A RAM disk at 4 MB with a partition 64 KB into it, 1024-byte blocks and one group; an inode in memory with two blocks.\<close>

definition mem1 :: mem where
  "mem1 = (\<lambda>_. 0)(0x8004 := 1, 0x8020 := 1, 0x8028 := 16, 0x9004 := 3, 0x9008 := 4, 0x410C00 := 7, 0x7028 := 5, 0x702C := 6, 0x5000 := 42)"

definition fs1 :: filesystem where
  "fs1 = \<lparr>fs_name = 0, fs_type = 0, fs_block_size = 1024, fs_disk_info = 0xA00, fs_superblock = 0x8000, fs_blockgroup_list = 0x9000,
     fs_start = 2, fs_partstart = 0x10000, fs_block_read = FN_ext2_read_file, fs_block_write = FN_ext2_write_file,
     fs_create_node = FN_ext2_create_node, fs_update_node = FN_ext2_update_node, fs_dir_open = FN_ext2_open_dir_stream,
     fs_dir_close = FN_ext2_close_dir_stream, fs_dir_read = FN_ext2_read_dir, fs_makenode = FN_ext2_vfs_entry\<rparr>"

definition sys0 :: "unit sys" where
  "sys0 = \<lparr>sy_s = sched1, sy_dev = (), sy_lit = (\<lambda>_. 0),
     sy_disks = [0xA00 \<mapsto> \<lparr>d_type = 0, d_name = 0, d_drive_info = 0xB00, d_block_size = 0, d_read = FN_ramdisk_read,
       d_write = FN_ramdisk_write, d_next = 0\<rparr>],
     disk_list = 0xA00, sy_ramdisks = [0xB00 \<mapsto> \<lparr>rd_location = 0x400000, rd_size = 0x100000\<rparr>], sy_ata = Map.empty,
     selected_mode = 0, selected_drive = 0, g_ata_lock = 0, sy_fs = [0xF00 \<mapsto> fs1], g_current_fs = 0xF00, sy_nodes = Map.empty,
     g_vfs_root = 0, g_nodecount = 0, sy_pipes = Map.empty, sy_rings = Map.empty, sy_files = Map.empty,
     sy_users = Map.empty, g_current_user = 0, g_system = sysinfo_zero, sy_conns = Map.empty, sy_socks = Map.empty,
     sy_accepts = Map.empty, sy_queues = Map.empty, sy_timer = \<lparr>ticks_since_boot = 0, ti_period = 4, ti_frequency = 250\<rparr>\<rparr>"

definition sys1 :: "unit sys" where
  "sys1 = set_mem mem1 sys0"

lemma sys0_simps: "kst sys0 = kmem1" "get_fs 0xF00 sys0 = Some fs1" "ram_mount 0xF00 fs1 0x400000 sys0"
  by (simp_all add: sys0_def kst_def vm1_def ram_mount_def get_fs_def get_disk_def fs1_def)

lemma sys1_simps [simp]: "smem sys1 = mem1" "kst sys1 = kmem1\<lparr>km_mem := mem1\<rparr>" "get_fs 0xF00 sys1 = Some fs1" "ram_mount 0xF00 fs1 0x400000 sys1"
  by (simp_all add: sys1_def sys0_simps)

lemma fs1_simps [simp]: "fs_block_size fs1 = 1024" "fs_superblock fs1 = 0x8000" "fs_blockgroup_list fs1 = 0x9000" "fs_partstart fs1 = 0x10000"
  by (simp_all add: fs1_def)

lemma mem1_words [simp]: "ld32 mem1 0x8004 = 1" "ld32 mem1 0x8020 = 1" "ld32 mem1 0x8028 = 16" "ld32 mem1 0x804C = 0" "ld32 mem1 0x9004 = 3"
  "ld32 mem1 0x9008 = 4" "ld32 mem1 0x410C00 = 7" "ld32 mem1 0x7028 = 5" "ld32 mem1 0x702C = 6"
  by (simp_all add: mem1_def ld32_def)

lemma kmalloc_1024: "\<exists>k'. kmalloc 1024 (kmem1\<lparr>km_mem := m\<rparr>) = Some (0xC000000C, k')"
proof -
  have h: "heap_ok (kernel_heap kmem1) akheap0 (kmem1\<lparr>km_mem := m\<rparr>)" using heap_ok_kmem1 by simp
  have "a_get_free 1024 False akheap0 = Some (0xC0000000, akheap0\<lparr>a_cur := 1036, a_used := [(0xC0000000, 1024)]\<rparr>)"
    by (simp add: a_get_free_def a_expand_def akheap0_def req_def Let_def)
  with alloc_ok [OF h, of 1024 False] h show ?thesis
    by (auto simp: kmalloc_def kmalloc_base_def heap_ok_def get_heap_def split: if_splits)
qed

definition ports0 :: "unit ports" where
  "ports0 = \<lparr>port_byte_in = (\<lambda>_ d. (0, d)), port_byte_out = (\<lambda>_ _ d. d), port_word_in = (\<lambda>_ d. (0, d)),
     port_word_out = (\<lambda>_ _ d. d), port_line_in = (\<lambda>_ d. (0, d)), port_line_out = (\<lambda>_ _ d. d)\<rparr>"

theorem inode_offset_linear_witness: "ext2_get_inode_offset 12 0xF00 sys1 = Some (4 * 1024 + 11 * 128)"
  using inode_offset_linear [of "0xF00" sys1 fs1 16 12] by (simp add: ext2_get_inode_size_def)

theorem double_indirect_cut_off_witness: "ext2_read_inode_block ports0 0x7000 65600 0x6000 0xF00 sys1 = Some (0, set_errno EFBIG sys1)"
  using double_indirect_cut_off [of "0xF00" sys1 fs1 256 65600 ports0 "0x7000" "0x6000"] by simp

theorem alloc_inode_not_recorded_witness:
  "\<exists>s'. ext2_alloc_inode ports0 0xF00 sys1 = Some (of_nat 3, s') \<and>
    (\<forall>k < unat (1024 :: u32). smem s' (0x410C00 + of_nat k) = smem sys1 (0x410C00 + of_nat k))"
proof -
  obtain k' where k: "kmalloc 1024 (kst sys1) = Some (0xC000000C, k')" using kmalloc_1024 [of mem1] by auto
  have "bitmap_bit (smem sys1) 0x410C00 0" "bitmap_bit (smem sys1) 0x410C00 1" "bitmap_bit (smem sys1) 0x410C00 2"
    by (simp_all add: bitmap_bit_def)
  moreover have "i = 0 \<or> i = 1 \<or> i = 2" if "i < 3" for i :: nat using that by auto
  ultimately have b: "\<not> bitmap_bit (smem sys1) 0x410C00 3" "\<forall>i < 3. bitmap_bit (smem sys1) 0x410C00 i"
    by (simp add: bitmap_bit_def, metis)
  have g: "blockgroup_count (fs_superblock fs1) sys1 = Some 1"
    by (simp add: blockgroup_count_def roundup_def signed_modulo_int_def signed_divide_int_def)
  show ?thesis
    by (rule alloc_inode_not_recorded [OF _ _ _ _ _ g _ k _ _ _ b, where off = "0xC00" and loc = "0x400000"])
      (simp_all add: kheap_kmem1 apart_def)
qed

theorem direct_block_roundtrip_witness:
  "\<exists>s1 s2. ext2_write_inode_block ports0 0x7000 0 0x5000 0xF00 sys1 = Some (0x411400, s1) \<and>
    ext2_read_inode_block ports0 0x7000 1 0x6000 0xF00 s1 = Some (0x6000, s2) \<and>
    smem s2 (0x6000 + of_nat 0) = (if (5 :: u32) = 6 then smem sys1 (0x5000 + of_nat 0) else smem sys1 (0x411800 + of_nat 0))"
  by (rule direct_block_roundtrip [where fs = fs1 and loc = "0x400000" and bs = 1024]) (simp_all add: apart_def clear_of_def)

end
