(* ===== verification/Drv_Serial.thy ===== *)
theory Drv_Serial
  imports Sys_State
begin

text \<open>The serial port (\<^verbatim>\<open>kernel/drivers/serial/serial.c\<close>). Waiting for the device is a \<open>partial_function\<close>: a port that never
  becomes ready gives \<open>None\<close>.\<close>

abbreviation (input) "SERIAL_PORT \<equiv> (0x3F8 :: u32)"

definition check_data_received :: "'d ports \<Rightarrow> 'd sys \<Rightarrow> u8 \<times> 'd sys" where
  "check_data_received P s = (case inb P (SERIAL_PORT + 5) s of (b, s) \<Rightarrow> (b AND 1, s))"

partial_function (option) serial_read :: "'d ports \<Rightarrow> 'd sys \<Rightarrow> (u8 \<times> 'd sys) option" where
  "serial_read P s =
     (case check_data_received P s of (b, s) \<Rightarrow> if b = 0 then serial_read P s else Some (inb P SERIAL_PORT s))"

definition check_can_transmit :: "'d ports \<Rightarrow> 'd sys \<Rightarrow> u8 \<times> 'd sys" where
  "check_can_transmit P s = (case inb P (SERIAL_PORT + 5) s of (b, s) \<Rightarrow> (b AND 0x20, s))"

partial_function (option) serial_put :: "'d ports \<Rightarrow> u8 \<Rightarrow> 'd sys \<Rightarrow> 'd sys option" where
  "serial_put P data s =
     (case check_can_transmit P s of (b, s) \<Rightarrow>
        if b = 0 then serial_put P data s else Some (outb P SERIAL_PORT (ucast data) s))"

primrec serial_write_noc :: "'d ports \<Rightarrow> addr \<Rightarrow> nat \<Rightarrow> 'd sys \<Rightarrow> 'd sys option" where
  "serial_write_noc P data 0 s = Some s"
| "serial_write_noc P data (Suc n) s = do { s \<leftarrow> serial_put P (smem s data) s; serial_write_noc P (data + 1) n s }"

partial_function (option) serial_write :: "'d ports \<Rightarrow> addr \<Rightarrow> 'd sys \<Rightarrow> 'd sys option" where
  "serial_write P data s =
     (if smem s data = 0 then Some s else do { s \<leftarrow> serial_put P (smem s data) s; serial_write P (data + 1) s })"

definition init_serial :: "'d ports \<Rightarrow> 'd sys \<Rightarrow> 'd sys option" where
  "init_serial P s = do {
     let s = outb P (SERIAL_PORT + 1) 0x00 s;
     let s = outb P SERIAL_PORT 3 s;
     let s = outb P (SERIAL_PORT + 1) 0x00 s;
     let s = outb P (SERIAL_PORT + 3) 0x03 s;
     let s = outb P (SERIAL_PORT + 2) 0xC7 s;
     let s = outb P (SERIAL_PORT + 4) 0x0B s;
     s \<leftarrow> serial_write P (sy_lit s ''\<newline>'') s;
     serial_write P (sy_lit s ''Serial initialised\<newline>'') s }"

end
