(* ===== verification/Fs_File.thy ===== *)
theory Fs_File
  imports Fs_Ext2 Drv_Serial
begin

text \<open>
  Files as byte sequences over a block file system, and the special files (\<^verbatim>\<open>kernel/fs/fs.c\<close>), and the file side of pipes
  (\<^verbatim>\<open>kernel/fs/vfs/pipe.c\<close>).

  \<open>env\<close> collects what the files call outside the modelled code: the ports, the terminal and the frame buffer.
\<close>

record 'd env =
  en_ports :: "'d ports"
  en_tty_write :: "u32 \<Rightarrow> addr \<Rightarrow> u32 \<Rightarrow> 'd sys \<Rightarrow> (u32 \<times> 'd sys) option"
  en_fb_write :: "u32 \<Rightarrow> addr \<Rightarrow> u32 \<Rightarrow> 'd sys \<Rightarrow> (u32 \<times> 'd sys) option"

abbreviation (input) "EUNATCH \<equiv> (49 :: int)"

subsection \<open>Calls through the file system structure\<close>

definition call_block_read :: "'d ports \<Rightarrow> fs_fn \<Rightarrow> u32 \<Rightarrow> u32 \<Rightarrow> addr \<Rightarrow> u32 \<Rightarrow> addr \<Rightarrow> 'd sys \<Rightarrow> (u32 \<times> 'd sys) option" where
  "call_block_read P f inode off buf n fsi s = (if f = FN_ext2_read_file then ext2_read_file P inode off buf n fsi s else None)"

definition call_block_write :: "'d ports \<Rightarrow> fs_fn \<Rightarrow> u32 \<Rightarrow> u32 \<Rightarrow> addr \<Rightarrow> u32 \<Rightarrow> addr \<Rightarrow> 'd sys \<Rightarrow> (u32 \<times> 'd sys) option" where
  "call_block_write P f inode off buf n fsi s = (if f = FN_ext2_write_file then ext2_write_file P inode off buf n fsi s else None)"

definition call_update_node :: "'d ports \<Rightarrow> fs_fn \<Rightarrow> addr \<Rightarrow> 'd sys \<Rightarrow> (u32 \<times> 'd sys) option" where
  "call_update_node P f node s = (if f = FN_ext2_update_node then ext2_update_node P node s else None)"

definition register_filesystem ::
  "addr \<Rightarrow> u32 \<Rightarrow> fs_fn \<Rightarrow> fs_fn \<Rightarrow> fs_fn \<Rightarrow> fs_fn \<Rightarrow> fs_fn \<Rightarrow> fs_fn \<Rightarrow> fs_fn \<Rightarrow> 'd sys \<Rightarrow> 'd sys option" where
  "register_filesystem name type readfile writefile opendir readdir makenode creat update s = do {
     fs \<leftarrow> get_fs (g_current_fs s) s;
     Some (s\<lparr>sy_fs := (sy_fs s)(g_current_fs s \<mapsto> fs\<lparr>fs_name := name, fs_type := type, fs_block_read := readfile,
       fs_block_write := writefile, fs_dir_open := opendir, fs_dir_read := readdir, fs_create_node := creat,
       fs_update_node := update, fs_makenode := makenode\<rparr>)\<rparr>) }"

subsection \<open>Reading and writing bytes\<close>

text \<open>How a read is cut: the first block, the offset in it, the number of whole blocks and the number of bytes at the end.\<close>

definition fs_read_cut :: "u32 \<Rightarrow> u32 \<Rightarrow> u32 \<Rightarrow> u32 \<times> u32 \<times> u32 \<times> u32" where
  "fs_read_cut seek amount bs =
     (let s_rest = seek mod bs;
          e_rest = (amount + (bs - s_rest)) mod bs;
          e_rest = (if s_rest \<noteq> 0 \<and> bs - s_rest > amount then 0 else e_rest) in
      (seek div bs, s_rest, amount div bs, e_rest))"

definition fs_read_head :: "'d ports \<Rightarrow> vfs_node \<Rightarrow> filesystem \<Rightarrow> u32 \<Rightarrow> u32 \<Rightarrow> u32 \<Rightarrow> addr \<Rightarrow> 'd sys \<Rightarrow> (u32 \<times> 'd sys) option" where
  "fs_read_head P n fs blockiter s_rest amount buf s = do {
     let bs = fs_block_size fs;
     (tmp, s) \<leftarrow> on_k (kmalloc bs) s;
     (ret, s) \<leftarrow> call_block_read P (fs_block_read fs) (n_offset n) blockiter tmp 1 (n_fs_info n) s;
     if ret = 0 then Some (0, s)
     else do {
       let sz = (if amount < bs - s_rest then amount else bs - s_rest);
       let s = set_mem (memcpy (smem s) buf (tmp + s_rest) sz) s;
       (_, s) \<leftarrow> on_k (kfree tmp) s;
       Some (sz, s) } }"

definition fs_read_tail :: "'d ports \<Rightarrow> vfs_node \<Rightarrow> filesystem \<Rightarrow> u32 \<Rightarrow> u32 \<Rightarrow> addr \<Rightarrow> 'd sys \<Rightarrow> (u32 \<times> 'd sys) option" where
  "fs_read_tail P n fs blockiter e_rest buf s = do {
     (tmp, s) \<leftarrow> on_k (kmalloc (fs_block_size fs)) s;
     (r, s) \<leftarrow> call_block_read P (fs_block_read fs) (n_offset n) blockiter tmp 1 (n_fs_info n) s;
     if r = 0 then Some (0, s)
     else do {
       let s = set_mem (memcpy (smem s) buf tmp e_rest) s;
       (_, s) \<leftarrow> on_k (kfree tmp) s;
       Some (e_rest, s) } }"

text \<open>A failed read of the first, partial block returns 0 at once; its size is never 0.\<close>

definition fs_read :: "'d ports \<Rightarrow> addr \<Rightarrow> u32 \<Rightarrow> addr \<Rightarrow> u32 \<Rightarrow> 'd sys \<Rightarrow> (u32 \<times> 'd sys) option" where
  "fs_read P node seek buf amount s = do {
     n \<leftarrow> get_node node s;
     fs \<leftarrow> get_fs (n_fs_info n) s;
     let bs = fs_block_size fs;
     if bs = 0 then None
     else do {
       let (blockiter, s_rest, blkcnt, e_rest) = fs_read_cut seek amount bs;
       (failed, blockiter, ret, s) \<leftarrow>
         (if s_rest \<noteq> 0 then do {
            (r, s) \<leftarrow> fs_read_head P n fs blockiter s_rest amount buf s;
            Some (r = 0 \<and> amount \<noteq> 0, blockiter + 1, r, s) }
          else Some (False, blockiter, 0, s));
       if failed then Some (0, s)
       else do {
         (short, blockiter, ret, s) \<leftarrow>
           (if blkcnt \<noteq> 0 then do {
              (blks, s) \<leftarrow> call_block_read P (fs_block_read fs) (n_offset n) blockiter (buf + ret) blkcnt (n_fs_info n) s;
              Some (blks \<noteq> blkcnt, blockiter + blkcnt, ret + blks * bs, s) }
            else Some (False, blockiter, ret, s));
         if short then Some (ret, s)
         else if e_rest \<noteq> 0 then do {
           (r, s) \<leftarrow> fs_read_tail P n fs blockiter e_rest (buf + ret) s;
           Some (ret + r, s) }
         else Some (ret, s) } } }"

definition fs_write_cut :: "u32 \<Rightarrow> u32 \<Rightarrow> u32 \<Rightarrow> u32 \<times> u32 \<times> u32 \<times> u32" where
  "fs_write_cut seek amount bs =
     (let s_rest = seek mod bs;
          e_rest = (amount + (bs - s_rest)) mod bs;
          e_rest = (if s_rest \<noteq> 0 \<and> bs - s_rest > amount then 0 else e_rest) in
      (seek div bs, s_rest, (amount - e_rest) div bs, e_rest))"

definition fs_write_part :: "'d ports \<Rightarrow> vfs_node \<Rightarrow> filesystem \<Rightarrow> u32 \<Rightarrow> u32 \<Rightarrow> u32 \<Rightarrow> addr \<Rightarrow> 'd sys \<Rightarrow> 'd sys option" where
  "fs_write_part P n fs blk at sz buf s = do {
     (tmp, s) \<leftarrow> on_k (kmalloc (fs_block_size fs)) s;
     (_, s) \<leftarrow> call_block_read P (fs_block_read fs) (n_offset n) blk tmp 1 (n_fs_info n) s;
     let s = set_mem (memcpy (smem s) (tmp + at) buf sz) s;
     (_, s) \<leftarrow> call_block_write P (fs_block_write fs) (n_offset n) blk tmp 1 (n_fs_info n) s;
     (_, s) \<leftarrow> on_k (kfree tmp) s;
     Some s }"

definition fs_write :: "'d ports \<Rightarrow> addr \<Rightarrow> u32 \<Rightarrow> addr \<Rightarrow> u32 \<Rightarrow> 'd sys \<Rightarrow> (u32 \<times> 'd sys) option" where
  "fs_write P node seek buf amount s = do {
     n \<leftarrow> get_node node s;
     fs \<leftarrow> get_fs (n_fs_info n) s;
     let bs = fs_block_size fs;
     if bs = 0 then None
     else do {
       let (blk, s_rest, blkcnt, e_rest) = fs_write_cut seek amount bs;
       let sz = (if amount < bs - s_rest then amount else bs - s_rest);
       let e_rest = (if s_rest \<noteq> 0 \<and> amount < bs - s_rest then 0 else e_rest);
       (blk, ret, s) \<leftarrow>
         (if s_rest \<noteq> 0 then do { s \<leftarrow> fs_write_part P n fs blk s_rest sz buf s; Some (blk + 1, sz, s) } else Some (blk, 0, s));
       (short, blk, ret, s) \<leftarrow>
         (if blkcnt \<noteq> 0 then do {
            (blks, s) \<leftarrow> call_block_write P (fs_block_write fs) (n_offset n) blk (buf + ret) blkcnt (n_fs_info n) s;
            Some (blks \<noteq> blkcnt, blk + blks, ret + blks * bs, s) }
          else Some (False, blk, ret, s));
       if short then Some (ret, s)
       else do {
         (ret, s) \<leftarrow>
           (if e_rest \<noteq> 0 then do { s \<leftarrow> fs_write_part P n fs blk 0 e_rest (buf + ret) s; Some (ret + e_rest, s) } else Some (ret, s));
         s \<leftarrow> upd_node node (\<lambda>n. n\<lparr>n_filelength := ret + seek\<rparr>) s;
         (_, s) \<leftarrow> call_update_node P (fs_update_node fs) node s;
         Some (ret, s) } } }"

definition fs_creat :: "'d ports \<Rightarrow> addr \<Rightarrow> addr \<Rightarrow> u32 \<Rightarrow> 'd sys \<Rightarrow> (u32 \<times> 'd sys) option" where
  "fs_creat P node path flags s = do {
     n \<leftarrow> get_node node s;
     fs \<leftarrow> get_fs (n_fs_info n) s;
     if fs_create_node fs = FN_ext2_create_node then ext2_create_node P node path flags s else None }"

subsection \<open>Pipes as files\<close>

definition on_ring ::
  "addr \<Rightarrow> (ringbuffer option \<Rightarrow> int \<Rightarrow> mem \<Rightarrow> (int \<times> int \<times> ringbuffer option \<times> mem) option) \<Rightarrow> 'd sys \<Rightarrow> (u32 \<times> 'd sys) option" where
  "on_ring p f s =
     (if p = 0 then do {
        (ret, e, _, m) \<leftarrow> f None (km_errno (kst s)) (smem s);
        Some (of_int ret, set_errno e (set_mem m s)) }
      else do {
        q \<leftarrow> sy_pipes s p;
        rb \<leftarrow> sy_rings s (pipe_circbuf q);
        (ret, e, rb, m) \<leftarrow> f (Some rb) (km_errno (kst s)) (smem s);
        Some (of_int ret, (set_errno e (set_mem m s))\<lparr>sy_rings := (sy_rings s)(pipe_circbuf q := rb)\<rparr>) })"

definition pipe_read :: "addr \<Rightarrow> addr \<Rightarrow> u32 \<Rightarrow> u32 \<Rightarrow> 'd sys \<Rightarrow> (u32 \<times> 'd sys) option" where
  "pipe_read node buffer sz flags s = do {
     n \<leftarrow> get_node node s;
     on_ring (n_offset n) (\<lambda>rb e m. pipe_read_raw rb buffer sz flags e m) s }"

definition pipe_write :: "addr \<Rightarrow> addr \<Rightarrow> u32 \<Rightarrow> u32 \<Rightarrow> 'd sys \<Rightarrow> (u32 \<times> 'd sys) option" where
  "pipe_write node buffer sz flags s = do {
     n \<leftarrow> get_node node s;
     on_ring (n_offset n) (\<lambda>rb e m. pipe_write_raw rb buffer sz flags e m) s }"

definition pipe_remove_node :: "addr \<Rightarrow> u32 \<Rightarrow> 'd sys \<Rightarrow> (u32 \<times> 'd sys) option" where
  "pipe_remove_node node location s = do {
     n \<leftarrow> get_node node s;
     on_ring (n_offset n) (\<lambda>rb e m. Some (pipe_remove rb location e m)) s }"

definition pipe_close :: "addr \<Rightarrow> 'd sys \<Rightarrow> (int \<times> 'd sys) option" where
  "pipe_close node s = Some (0, s)"

definition sys_pipe_create :: "'d sys \<Rightarrow> (addr \<times> 'd sys) option" where
  "sys_pipe_create s = do {
     ((p, q), s) \<leftarrow> on_k (\<lambda>k. map_option (\<lambda>(p, q, k). ((p, q), k)) (pipe_create k)) s;
     (case q of None \<Rightarrow> Some (p, s)
      | Some (pp, rb) \<Rightarrow> Some (p, s\<lparr>sy_pipes := (sy_pipes s)(p \<mapsto> pp), sy_rings := (sy_rings s)(pipe_circbuf pp \<mapsto> rb)\<rparr>)) }"

subsection \<open>Special files\<close>

definition tty_stdoutwrite :: "'d env \<Rightarrow> addr \<Rightarrow> u32 \<Rightarrow> 'd sys \<Rightarrow> (u32 \<times> 'd sys) option" where
  "tty_stdoutwrite E buffer sz s = do {
     s \<leftarrow> serial_write_noc (en_ports E) buffer (unat sz) s;
     t \<leftarrow> get_task (get_current_task (sy_s s)) (sy_s s);
     en_tty_write E (t_tty t) buffer sz s }"

definition tty_stderrwrite :: "'d env \<Rightarrow> addr \<Rightarrow> u32 \<Rightarrow> 'd sys \<Rightarrow> (u32 \<times> 'd sys) option" where
  "tty_stderrwrite E buffer sz s = do {
     s \<leftarrow> serial_write_noc (en_ports E) buffer (unat sz) s;
     t \<leftarrow> get_task (get_current_task (sy_s s)) (sy_s s);
     en_tty_write E (t_tty t) buffer sz s }"

definition tty_stdinwrite :: "'d env \<Rightarrow> addr \<Rightarrow> addr \<Rightarrow> u32 \<Rightarrow> 'd sys \<Rightarrow> (u32 \<times> 'd sys) option" where
  "tty_stdinwrite E node buffer sz s =
     (if smem s buffer = 8 then do {
        (r, s) \<leftarrow> pipe_remove_node node 1 s;
        (_, s) \<leftarrow> (if r = 0 then tty_stdoutwrite E buffer sz s else Some (0, s));
        Some (0, s) }
      else do {
        (_, s) \<leftarrow> pipe_write node buffer sz 0 s;
        (_, s) \<leftarrow> tty_stdoutwrite E buffer sz s;
        Some (sz, s) })"

definition tty_readtest :: "'d sys \<Rightarrow> (u32 \<times> 'd sys) option" where
  "tty_readtest s = Some (0, s)"

primrec zero_bytes :: "mem \<Rightarrow> addr \<Rightarrow> nat \<Rightarrow> mem" where
  "zero_bytes m buf 0 = m"
| "zero_bytes m buf (Suc n) = zero_bytes (m(buf := 0)) (buf + 1) n"

definition read_null :: "addr \<Rightarrow> u32 \<Rightarrow> 'd sys \<Rightarrow> (u32 \<times> 'd sys) option" where
  "read_null buffer sz s = Some (sz, set_mem (zero_bytes (smem s) buffer (unat sz)) s)"

definition write_null :: "addr \<Rightarrow> u32 \<Rightarrow> 'd sys \<Rightarrow> (u32 \<times> 'd sys) option" where
  "write_null buffer sz s = Some (sz, s)"

end
