(* ===== verification/Fs_Vfs.thy ===== *)
theory Fs_Vfs
  imports Fs_File
begin

text \<open>
  The virtual file system (\<^verbatim>\<open>kernel/fs/vfs/vfs.c\<close>): the tree of nodes, path lookup, opening and closing, reading and writing through
  descriptors, \<^verbatim>\<open>stat\<close> and seeking, directories, mounting; character devices (\<^verbatim>\<open>kernel/fs/vfs/chardev.c\<close>), the
  creation of pipes (\<^verbatim>\<open>kernel/fs/vfs/pipe.c\<close>), \<^verbatim>\<open>getdents\<close> and the special files (\<^verbatim>\<open>kernel/fs/fs.c\<close>), and \<^verbatim>\<open>ioctl\<close>
  (\<^verbatim>\<open>kernel/yanix/ioctl.c\<close>).

  Paths and names are byte strings in memory. \<open>li\<close> is the uninitialised \<^verbatim>\<open>lock_index\<close> of a new descriptor.
\<close>

abbreviation (input) "SLASH \<equiv> (0x2F :: u8)"
abbreviation (input) "O_CREAT \<equiv> (0x200 :: u32)"
abbreviation (input) "O_DIRECTORY \<equiv> (0x200000 :: u32)"

subsection \<open>Descriptors of the current task\<close>

definition fdst :: "'d sys \<Rightarrow> fd_state" where
  "fdst s = \<lparr>task_fds = map_option t_fds (get_task (get_current_task (sy_s s)) (sy_s s)), fd_kmem = kst s, fd_errno = km_errno (kst s)\<rparr>"

definition put_fdst :: "fd_state \<Rightarrow> 'd sys \<Rightarrow> 'd sys" where
  "put_fdst f s =
     (let s = set_kst ((fd_kmem f)\<lparr>km_errno := fd_errno f\<rparr>) s; c = get_current_task (sy_s s) in
      case task_fds f of None \<Rightarrow> s
      | Some v \<Rightarrow> (case get_task c (sy_s s) of None \<Rightarrow> s | Some t \<Rightarrow> s\<lparr>sy_s := set_task c (t\<lparr>t_fds := v\<rparr>) (sy_s s)\<rparr>))"

definition on_fd :: "(fd_state \<Rightarrow> ('a \<times> fd_state) option) \<Rightarrow> 'd sys \<Rightarrow> ('a \<times> 'd sys) option" where
  "on_fd f s = do { (r, x) \<leftarrow> f (fdst s); Some (r, put_fdst x s) }"

definition load_fd :: "int \<Rightarrow> 'd sys \<Rightarrow> file_descriptor option" where
  "load_fd p s = fd_deref p (fdst s)"

definition set_seek :: "int \<Rightarrow> int \<Rightarrow> 'd sys \<Rightarrow> 'd sys option" where
  "set_seek p v s = do {
     x \<leftarrow> load_fd p s;
     (_, s) \<leftarrow> on_fd (on_fds (\<lambda>vec k. do { vec \<leftarrow> vec_store p (x\<lparr>fd_seek := v\<rparr>) vec; Some (0, vec, k) })) s;
     Some s }"

definition sys_get_filedescriptor :: "int \<Rightarrow> 'd sys \<Rightarrow> int option \<times> 'd sys" where
  "sys_get_filedescriptor fd s = (case get_filedescriptor fd (fdst s) of (r, x) \<Rightarrow> (r, put_fdst x s))"

subsection \<open>Calls through a node\<close>

definition node_read :: "'d env \<Rightarrow> node_fn \<Rightarrow> addr \<Rightarrow> u32 \<Rightarrow> addr \<Rightarrow> u32 \<Rightarrow> u32 \<Rightarrow> 'd sys \<Rightarrow> (u32 \<times> 'd sys) option" where
  "node_read E f node off buf amount flags s =
     (case f of NF_pipe_read \<Rightarrow> pipe_read node buf amount flags s | NF_tty_readtest \<Rightarrow> tty_readtest s
      | NF_read_null \<Rightarrow> read_null buf amount s | _ \<Rightarrow> None)"

definition node_write :: "'d env \<Rightarrow> node_fn \<Rightarrow> addr \<Rightarrow> u32 \<Rightarrow> addr \<Rightarrow> u32 \<Rightarrow> u32 \<Rightarrow> 'd sys \<Rightarrow> (u32 \<times> 'd sys) option" where
  "node_write E f node off buf amount flags s =
     (case f of NF_pipe_write \<Rightarrow> pipe_write node buf amount flags s | NF_tty_stdinwrite \<Rightarrow> tty_stdinwrite E node buf amount s
      | NF_tty_stdoutwrite \<Rightarrow> tty_stdoutwrite E buf amount s | NF_tty_stderrwrite \<Rightarrow> tty_stderrwrite E buf amount s
      | NF_write_null \<Rightarrow> write_null buf amount s | NF_fb_write \<Rightarrow> en_fb_write E off buf amount s | _ \<Rightarrow> None)"

definition chardev_close :: "addr \<Rightarrow> 'd sys \<Rightarrow> (int \<times> 'd sys) option" where
  "chardev_close node s = Some (0, s)"

definition sock_close :: "addr \<Rightarrow> 'd sys \<Rightarrow> (int \<times> 'd sys) option" where
  "sock_close socket s = Some (0, s)"

definition node_close :: "node_fn \<Rightarrow> addr \<Rightarrow> 'd sys \<Rightarrow> (int \<times> 'd sys) option" where
  "node_close f node s =
     (case f of NF_pipe_close \<Rightarrow> pipe_close node s | NF_chardev_close \<Rightarrow> chardev_close node s
      | NF_sock_close \<Rightarrow> sock_close node s | _ \<Rightarrow> None)"

subsection \<open>Reading and writing\<close>

definition vfs_read_desc :: "'d env \<Rightarrow> int \<Rightarrow> addr \<Rightarrow> u32 \<Rightarrow> 'd sys \<Rightarrow> (u32 \<times> 'd sys) option" where
  "vfs_read_desc E p buf amount s = do {
     x \<leftarrow> load_fd p s;
     n \<leftarrow> get_node (fd_node x) s;
     if n_read n \<noteq> NF_null then do {
       (ret, s) \<leftarrow> node_read E (n_read n) (fd_node x) (of_int (fd_seek x)) buf amount (fd_flags x) s;
       y \<leftarrow> load_fd p s;
       s \<leftarrow> set_seek p (fd_seek y + sint ret) s;
       Some (ret, s) }
     else do {
       fs \<leftarrow> get_fs (n_fs_info n) s;
       if fs_block_read fs \<noteq> FS_null then do {
         (ret, s) \<leftarrow> fs_read (en_ports E) (fd_node x) (of_int (fd_seek x)) buf amount s;
         y \<leftarrow> load_fd p s;
         s \<leftarrow> set_seek p (fd_seek y + sint ret) s;
         Some (ret, s) }
       else Some (-1, set_errno EUNATCH s) } }"

definition vfs_check_if_initialised :: "'d sys \<Rightarrow> int" where
  "vfs_check_if_initialised s = (if g_vfs_root s = 0 then 0 else 1)"

definition vfs_read_fd :: "'d env \<Rightarrow> int \<Rightarrow> addr \<Rightarrow> u32 \<Rightarrow> 'd sys \<Rightarrow> (u32 \<times> 'd sys) option" where
  "vfs_read_fd E fd buf amount s =
     (case sys_get_filedescriptor fd s of (None, s) \<Rightarrow> Some (-1, s) | (Some p, s) \<Rightarrow> vfs_read_desc E p buf amount s)"

definition vfs_read :: "'d env \<Rightarrow> addr \<Rightarrow> addr \<Rightarrow> u32 \<Rightarrow> 'd sys \<Rightarrow> (u32 \<times> 'd sys) option" where
  "vfs_read E file buf amount s = do {
     f \<leftarrow> sy_files s file;
     (case sys_get_filedescriptor (f_fd f) s of (None, s) \<Rightarrow> None | (Some p, s) \<Rightarrow> vfs_read_desc E p buf amount s) }"

definition vfs_write_desc :: "'d env \<Rightarrow> int \<Rightarrow> addr \<Rightarrow> u32 \<Rightarrow> 'd sys \<Rightarrow> (u32 \<times> 'd sys) option" where
  "vfs_write_desc E p buf amount s = do {
     x \<leftarrow> load_fd p s;
     n \<leftarrow> get_node (fd_node x) s;
     if n_write n \<noteq> NF_null then do {
       (ret, s) \<leftarrow> node_write E (n_write n) (fd_node x) (of_int (fd_seek x)) buf amount (fd_flags x) s;
       y \<leftarrow> load_fd p s;
       s \<leftarrow> set_seek p (fd_seek y + sint ret) s;
       Some (ret, s) }
     else do {
       fs \<leftarrow> get_fs (n_fs_info n) s;
       if fs_block_write fs \<noteq> FS_null then do {
         (ret, s) \<leftarrow> fs_write (en_ports E) (fd_node x) (of_int (fd_seek x)) buf amount s;
         y \<leftarrow> load_fd p s;
         s \<leftarrow> set_seek p (fd_seek y + sint ret) s;
         Some (ret, s) }
       else Some (-1, set_errno EUNATCH s) } }"

definition vfs_write_fd :: "'d env \<Rightarrow> int \<Rightarrow> addr \<Rightarrow> u32 \<Rightarrow> 'd sys \<Rightarrow> (u32 \<times> 'd sys) option" where
  "vfs_write_fd E fd buf amount s =
     (case sys_get_filedescriptor fd s of (None, s) \<Rightarrow> Some (-1, s) | (Some p, s) \<Rightarrow> vfs_write_desc E p buf amount s)"

definition vfs_write :: "'d env \<Rightarrow> addr \<Rightarrow> addr \<Rightarrow> u32 \<Rightarrow> 'd sys \<Rightarrow> (u32 \<times> 'd sys) option" where
  "vfs_write E file buf amount s = do {
     f \<leftarrow> sy_files s file;
     (case sys_get_filedescriptor (f_fd f) s of (None, s) \<Rightarrow> None | (Some p, s) \<Rightarrow> vfs_write_desc E p buf amount s) }"

subsection \<open>Paths\<close>

partial_function (option) path_find_loop :: "addr \<Rightarrow> addr \<Rightarrow> 'd sys \<Rightarrow> addr option" where
  "path_find_loop tmp name s =
     (if tmp = 0 then Some 0
      else do {
        n \<leftarrow> get_node tmp s;
        c \<leftarrow> strcmp (smem s) name (n_name n);
        if c = 0 then Some tmp else path_find_loop (n_nextnode n) name s })"

definition vfs_path_find :: "addr \<Rightarrow> addr \<Rightarrow> 'd sys \<Rightarrow> (addr \<times> 'd sys) option" where
  "vfs_path_find node name s = do {
     n \<leftarrow> get_node node s;
     r \<leftarrow> path_find_loop (n_dirlist n) name s;
     if r \<noteq> 0 then Some (r, s) else Some (0, set_errno ENOENT s) }"

text \<open>The loop of \<^verbatim>\<open>vfs_find_path\<close> over the characters of the path from \<open>i\<close> on; \<open>n\<close> of them remain. The component read so far is in the
  first \<open>bi\<close> bytes of \<open>buffer\<close>.\<close>

primrec find_path_loop :: "nat \<Rightarrow> u32 \<Rightarrow> u32 \<Rightarrow> addr \<Rightarrow> addr \<Rightarrow> addr \<Rightarrow> 'd sys \<Rightarrow> (addr \<times> 'd sys) option" where
  "find_path_loop 0 i bi path buffer node s = do {
     (_, s) \<leftarrow> on_k (kfree buffer) s;
     Some (0, set_errno ENOENT s) }"
| "find_path_loop (Suc n) i bi path buffer node s =
     (let c = smem s (path + i) in
      if c = SLASH \<or> c = 0 then do {
        let s = set_mem ((smem s)(buffer + bi := 0)) s;
        let bi = bi + 1;
        (node, s) \<leftarrow> vfs_path_find node buffer s;
        if node = 0 then do { (_, s) \<leftarrow> on_k (kfree buffer) s; Some (0, s) }
        else if smem s (path + i) = 0 then do { (_, s) \<leftarrow> on_k (kfree buffer) s; Some (node, s) }
        else find_path_loop n (i + 1) 0 path buffer node (set_mem (memset (smem s) buffer 0 (bi + 1)) s) }
      else find_path_loop n (i + 1) (bi + 1) path buffer node (set_mem ((smem s)(buffer + bi := c)) s))"

definition find_path_abs :: "addr \<Rightarrow> 'd sys \<Rightarrow> (addr \<times> 'd sys) option" where
  "find_path_abs path s = do {
     l \<leftarrow> strlen (smem s) path;
     (buffer, s) \<leftarrow> on_k (kmalloc (l + 1)) s;
     if g_vfs_root s = 0 then Some (0, s)
     else find_path_loop (unat (l + 1) - 1) 1 0 path buffer (g_vfs_root s) (set_mem (memset (smem s) buffer 0 (l + 1)) s) }"

partial_function (option) vfs_find_path :: "addr \<Rightarrow> 'd sys \<Rightarrow> (addr \<times> 'd sys) option" where
  "vfs_find_path path s =
     (if smem s path \<noteq> SLASH then do {
        t \<leftarrow> get_task (get_current_task (sy_s s)) (sy_s s);
        lc \<leftarrow> strlen (smem s) (t_cwd t);
        lp \<leftarrow> strlen (smem s) path;
        bs \<leftarrow> on_k (kmalloc (lc + lp + 2)) s;
        m \<leftarrow> strcpy ((smem (snd bs))(fst bs := 0)) (fst bs) (t_cwd t);
        m \<leftarrow> strcat (snd m) (fst bs) (sy_lit s ''/'');
        m \<leftarrow> strcat (snd m) (fst bs) path;
        r \<leftarrow> vfs_find_path (fst bs) (set_mem (snd m) (snd bs));
        k \<leftarrow> on_k (kfree (fst bs)) (snd r);
        if fst r \<noteq> 0 then Some (fst r, snd k) else find_path_abs path (snd k) }
      else if smem s (path + 1) = 0 then Some (g_vfs_root s, s)
      else find_path_abs path s)"

text \<open>\<^verbatim>\<open>shiftpath\<close> measures the string again after every step, so the loop is bounded by the changing length.\<close>

partial_function (option) shiftpath :: "mem \<Rightarrow> addr \<Rightarrow> u32 \<Rightarrow> int \<Rightarrow> mem option" where
  "shiftpath m path amount i = do {
     l \<leftarrow> strlen m path;
     if i < sint l then shiftpath (m(path + of_int i := m (path + of_int i + amount))) path amount (i + 1) else Some m }"

primrec snippath_loop :: "mem \<Rightarrow> addr \<Rightarrow> u32 \<Rightarrow> u32 \<Rightarrow> nat \<Rightarrow> mem" where
  "snippath_loop m path len i 0 = m"
| "snippath_loop m path len i (Suc n) = snippath_loop (m(path + i := m (path + i + len))) path len (i + 1) n"

definition snippath :: "mem \<Rightarrow> addr \<Rightarrow> u32 \<Rightarrow> mem" where
  "snippath m path len = snippath_loop m path len 0 (nat (sint len))"

definition interpret_step :: "mem \<Rightarrow> addr \<Rightarrow> u32 \<Rightarrow> u32 \<Rightarrow> (u32 \<times> mem) option" where
  "interpret_step m buf i entryloc = do {
     let m = (if m (buf + i) = SLASH \<and> m (buf + i + 1) = 0 then m(buf + i := 0) else m);
     m \<leftarrow> (if m (buf + i) = SLASH \<and> m (buf + i + 1) = SLASH then shiftpath m (buf + i) 1 0 else Some m);
     m \<leftarrow> (if m (buf + i) = SLASH \<and> m (buf + i + 1) = 0x2E \<and> (m (buf + i + 2) = 0 \<or> m (buf + i + 2) = SLASH)
           then shiftpath m (buf + i) 2 0 else Some m);
     let m = (if m (buf + i) = SLASH \<and> m (buf + i + 1) = 0x2E \<and> m (buf + i + 2) = 0x2E \<and> (m (buf + i + 3) = 0 \<or> m (buf + i + 3) = SLASH)
              then snippath m (buf + entryloc) (i - entryloc + 3) else m);
     Some (if m (buf + i) = SLASH then i else entryloc, m) }"

partial_function (option) interpret_loop :: "mem \<Rightarrow> addr \<Rightarrow> u32 \<Rightarrow> u32 \<Rightarrow> mem option" where
  "interpret_loop m buf i entryloc = do {
     l \<leftarrow> strlen m buf;
     if i < l then do { r \<leftarrow> interpret_step m buf i entryloc; interpret_loop (snd r) buf (i + 1) (fst r) } else Some m }"

definition vfs_interpret_path :: "addr \<Rightarrow> 'd sys \<Rightarrow> 'd sys option" where
  "vfs_interpret_path buf s = do { m \<leftarrow> interpret_loop (smem s) buf 0 0; Some (set_mem m s) }"

definition vfs_fullpath :: "addr \<Rightarrow> 'd sys \<Rightarrow> (addr \<times> 'd sys) option" where
  "vfs_fullpath path s = do {
     (buf, s) \<leftarrow>
       (if smem s path \<noteq> SLASH then do {
          t \<leftarrow> get_task (get_current_task (sy_s s)) (sy_s s);
          lc \<leftarrow> strlen (smem s) (t_cwd t);
          lp \<leftarrow> strlen (smem s) path;
          (buf, s) \<leftarrow> on_k (kmalloc (lc + lp + 2)) s;
          (_, m) \<leftarrow> strcpy_s (smem s) buf (t_cwd t) (sint lc + 1);
          (_, m) \<leftarrow> strcat m buf (sy_lit s ''/'');
          (_, m) \<leftarrow> strcat m buf path;
          Some (buf, set_mem m s) }
        else on_k (strdup path) s);
     s \<leftarrow> vfs_interpret_path buf s;
     Some (buf, s) }"

subsection \<open>Creating and opening nodes\<close>

definition get_type :: "u32 \<Rightarrow> u8" where
  "get_type mode =
     (let t = mode AND 0xF000 in
      if t = 0x4000 then VFS_DIRECTORY else if t = 0x2000 then VFS_CHARDEVICE else if t = 0xA000 then VFS_SYMLINK
      else if t = 0x1000 then VFS_PIPE else if t = 0x6000 then VFS_BLOCKDEVICE else if t = 0xA000 then VFS_SYMLINK
      else if t = 0xC000 then VFS_SOCKET else VFS_FILE)"

definition find_dir_path :: "addr \<Rightarrow> 'd sys \<Rightarrow> (addr \<times> 'd sys) option" where
  "find_dir_path nodepath s = do {
     l \<leftarrow> strlen (smem s) nodepath;
     (path, s) \<leftarrow> on_k (kmalloc (l + 1)) s;
     let m = memcpy (smem s) path nodepath (l + 1);
     l \<leftarrow> strlen m path;
     m \<leftarrow> (if m (path + l - 1) = SLASH then do { l \<leftarrow> strlen m path; Some (m(path + l - 1 := 0)) } else Some m);
     cutoff \<leftarrow> strchr_r m path SLASH;
     (dir, s) \<leftarrow> vfs_find_path path (set_mem (m(cutoff := 0)) s);
     (_, s) \<leftarrow> on_k (kfree path) s;
     Some (dir, s) }"

partial_function (option) last_node :: "addr \<Rightarrow> 'd sys \<Rightarrow> addr option" where
  "last_node tmp s = do { n \<leftarrow> get_node tmp s; if n_nextnode n \<noteq> 0 then last_node (n_nextnode n) s else Some tmp }"

definition create_node :: "addr \<Rightarrow> u32 \<Rightarrow> u32 \<Rightarrow> 'd sys \<Rightarrow> (addr \<times> 'd sys) option" where
  "create_node nodepath flags mode s = do {
     (dir, s) \<leftarrow> find_dir_path nodepath s;
     if dir = 0 then Some (0, s)
     else do {
       (node, s) \<leftarrow> on_k (kmalloc SIZEOF_VFS_NODE) s;
       d \<leftarrow> get_node dir s;
       let s = set_node node (node_zero\<lparr>n_type := get_type mode, n_id := g_nodecount s, n_fs_info := n_fs_info d, n_parent := dir\<rparr>)
         (s\<lparr>g_nodecount := g_nodecount s + 1\<rparr>);
       d \<leftarrow> get_node dir s;
       tmp \<leftarrow> last_node (n_dirlist d) s;
       s \<leftarrow> upd_node tmp (\<lambda>n. n\<lparr>n_nextnode := node\<rparr>) s;
       Some (node, s) } }"

text \<open>The index of the last slash that is not the last character; \<open>-1\<close> when there is none. \<open>n\<close> is one more than the index.\<close>

primrec last_slash :: "mem \<Rightarrow> addr \<Rightarrow> nat \<Rightarrow> u32 \<Rightarrow> u32" where
  "last_slash m path 0 l = -1"
| "last_slash m path (Suc n) l = (if m (path + of_nat n) = SLASH \<and> of_nat n \<noteq> l then of_nat n else last_slash m path n l)"

definition creat_in_fs :: "'d env \<Rightarrow> addr \<Rightarrow> addr \<Rightarrow> u32 \<Rightarrow> 'd sys \<Rightarrow> (addr \<times> 'd sys) option" where
  "creat_in_fs E node path flags s = do {
     l \<leftarrow> strlen (smem s) path;
     let i = last_slash (smem s) path (unat l + 1) l;
     (newpath, s) \<leftarrow> on_k (kmalloc (l - i)) s;
     let s = set_mem (memcpy (smem s) newpath (path + i + 1) (l - i)) s;
     n \<leftarrow> get_node node s;
     (ret, s) \<leftarrow> (if n_creat n \<noteq> NF_null then None else fs_creat (en_ports E) node newpath flags s);
     (node, s) \<leftarrow>
       (if ret = -1 then do { (_, s) \<leftarrow> on_k (kfree node) s; (_, s) \<leftarrow> on_k (kfree newpath) s; Some (0, s) } else Some (node, s));
     (_, s) \<leftarrow> on_k (kfree newpath) s;
     Some (node, s) }"

definition vfs_open_node :: "'d env \<Rightarrow> addr \<Rightarrow> u32 \<Rightarrow> u32 \<Rightarrow> 'd sys \<Rightarrow> (addr \<times> 'd sys) option" where
  "vfs_open_node E path flags mode s = do {
     (node, s) \<leftarrow> vfs_find_path path s;
     (fail, node, s) \<leftarrow>
       (if node = 0 \<and> flags AND O_CREAT \<noteq> 0 then do {
          (node, s) \<leftarrow> create_node path flags mode s;
          if node = 0 then Some (True, 0, s)
          else do {
            n \<leftarrow> get_node node s;
            has \<leftarrow> (if n_creat n \<noteq> NF_null then Some True
                   else if n_fs_info n = 0 then Some False
                   else do { fs \<leftarrow> get_fs (n_fs_info n) s; Some (fs_create_node fs \<noteq> FS_null) });
            (node, s) \<leftarrow> (if has then creat_in_fs E node path flags s else Some (node, s));
            Some (False, node, s) } }
        else Some (node = 0, node, s));
     if fail then Some (0, s)
     else do {
       n \<leftarrow> get_node node s;
       if n_open n \<noteq> NF_null then None else Some (node, s) } }"

subsection \<open>Status and position\<close>

definition vfs_to_stat :: "u8 \<Rightarrow> u16" where
  "vfs_to_stat mode =
     (if mode = VFS_FILE then 0x8000 else if mode = VFS_DIRECTORY then 0x4000 else if mode = VFS_CHARDEVICE then 0x2000
      else if mode = VFS_BLOCKDEVICE then 0x6000 else if mode = VFS_PIPE then 0x1000 else if mode = VFS_SYMLINK then 0xA000
      else ucast mode)"

record stat =
  st_dev :: u16
  st_ino :: u16
  st_mode :: u32
  st_nlink :: u32
  st_uid :: u32
  st_gid :: u32
  st_rdev :: u32
  st_size :: u32
  st_blksize :: u32
  st_blocks :: u32

definition stat_of :: "addr \<Rightarrow> u16 \<Rightarrow> 'd sys \<Rightarrow> stat option" where
  "stat_of node mode s = do {
     n \<leftarrow> get_node node s;
     fs \<leftarrow> get_fs (n_fs_info n) s;
     blocks \<leftarrow> roundup (sint (n_filelength n)) 512;
     Some \<lparr>st_dev = 0, st_ino = ucast (n_id n), st_mode = ucast (vfs_to_stat (n_type n) OR mode), st_nlink = ucast (n_nlink n),
       st_uid = n_uid n, st_gid = n_gid n, st_rdev = 0, st_size = n_filelength n, st_blksize = fs_block_size fs,
       st_blocks = of_int blocks\<rparr> }"

definition store_stat :: "mem \<Rightarrow> addr \<Rightarrow> stat \<Rightarrow> mem" where
  "store_stat m a st =
     (let m = st16 (st16 m a (st_dev st)) (a + 2) (st_ino st);
          m = st32 (st32 m (a + 4) (st_mode st)) (a + 8) (st_nlink st);
          m = st32 (st32 m (a + 12) (st_uid st)) (a + 16) (st_gid st);
          m = st32 (st32 m (a + 20) (st_rdev st)) (a + 24) (st_size st) in
      st32 (st32 m (a + 28) (st_blksize st)) (a + 32) (st_blocks st))"

definition vfs_stat_node :: "addr \<Rightarrow> u16 \<Rightarrow> addr \<Rightarrow> 'd sys \<Rightarrow> (int \<times> 'd sys) option" where
  "vfs_stat_node node mode statbuf s =
     (if node = 0 then Some (-1, s)
      else do { st \<leftarrow> stat_of node mode s; Some (0, set_mem (store_stat (smem s) statbuf st) s) })"

definition vfs_fstat :: "int \<Rightarrow> addr \<Rightarrow> 'd sys \<Rightarrow> (int \<times> 'd sys) option" where
  "vfs_fstat fd statbuf s =
     (case sys_get_filedescriptor fd s of (None, s) \<Rightarrow> Some (-1, s)
      | (Some p, s) \<Rightarrow> do { x \<leftarrow> load_fd p s; vfs_stat_node (fd_node x) (fd_mode x) statbuf s })"

definition vfs_stat :: "addr \<Rightarrow> addr \<Rightarrow> 'd sys \<Rightarrow> (int \<times> 'd sys) option" where
  "vfs_stat pathname statbuf s = do {
     (node, s) \<leftarrow> vfs_find_path pathname s;
     (p, s) \<leftarrow> on_fd (get_filedescriptor_from_node node) s;
     (case p of None \<Rightarrow> vfs_stat_node node 0 statbuf s
      | Some p \<Rightarrow> do { x \<leftarrow> load_fd p s; vfs_stat_node node (fd_mode x) statbuf s }) }"

definition vfs_lseek :: "int \<Rightarrow> int \<Rightarrow> int \<Rightarrow> 'd sys \<Rightarrow> (int \<times> 'd sys) option" where
  "vfs_lseek fd off whence s =
     (case sys_get_filedescriptor fd s of (None, s) \<Rightarrow> Some (-1, s)
      | (Some p, s) \<Rightarrow> do {
          x \<leftarrow> load_fd p s;
          (if whence = 1 then do { s \<leftarrow> set_seek p (off + fd_seek x) s; Some (off + fd_seek x, s) }
           else if whence = 2 then
             (if fd_node x = 0 then Some (-1, s)
              else do {
                st \<leftarrow> stat_of (fd_node x) (fd_mode x) s;
                s \<leftarrow> set_seek p (off + sint (st_size st)) s;
                Some (off + sint (st_size st), s) })
           else do { s \<leftarrow> set_seek p off s; Some (off, s) }) })"

subsection \<open>Directories, opening and closing descriptors\<close>

definition vfs_opendir_node :: "'d env \<Rightarrow> addr \<Rightarrow> 'd sys \<Rightarrow> (addr \<times> 'd sys) option" where
  "vfs_opendir_node E node s =
     (if node = 0 then Some (0, s)
      else do {
        n \<leftarrow> get_node node s;
        if n_opendir n \<noteq> NF_null then None
        else if n_fs_info n = 0 then Some (0, s)
        else do {
          fs \<leftarrow> get_fs (n_fs_info n) s;
          if fs_dir_open fs = FS_null then Some (0, s)
          else if fs_dir_open fs = FN_ext2_open_dir_stream then ext2_open_dir_stream (en_ports E) (n_offset n) (n_fs_info n) s
          else None } })"

definition vfs_open_fd :: "'d env \<Rightarrow> int \<Rightarrow> addr \<Rightarrow> u32 \<Rightarrow> u32 \<Rightarrow> 'd sys \<Rightarrow> (int \<times> 'd sys) option" where
  "vfs_open_fd E li path flags mode s = do {
     (node, s) \<leftarrow> vfs_find_path path s;
     if node = 0 then Some (-1, s)
     else do {
       (fd, s) \<leftarrow> on_fd (register_filedescriptor li node flags mode) s;
       if flags AND O_DIRECTORY \<noteq> 0 then do {
         (d, s) \<leftarrow> vfs_opendir_node E node s;
         (_, s) \<leftarrow> vfs_lseek fd (sint d) 0 s;
         Some (fd, s) }
       else Some (fd, s) } }"

definition vfs_open :: "'d env \<Rightarrow> int \<Rightarrow> addr \<Rightarrow> u32 \<Rightarrow> u32 \<Rightarrow> 'd sys \<Rightarrow> (addr \<times> 'd sys) option" where
  "vfs_open E li path flags mode s = do {
     (node, s) \<leftarrow> vfs_open_node E path flags mode s;
     if node = 0 then Some (0, s)
     else do {
       (fd, s) \<leftarrow> on_fd (register_filedescriptor li node flags mode) s;
       if fd = -1 then Some (0, s)
       else do {
         (file, s) \<leftarrow> on_k (kmalloc 4) s;
         if file = 0 then Some (0, s)
         else do {
           n \<leftarrow> get_node node s;
           Some (file, s\<lparr>sy_files := (sy_files s)(file \<mapsto> \<lparr>f_vfs_node = node, f_fd = fd, f_filesize = n_filelength n\<rparr>)\<rparr>) } } } }"

definition vfs_creat :: "'d env \<Rightarrow> int \<Rightarrow> addr \<Rightarrow> u32 \<Rightarrow> 'd sys \<Rightarrow> (int \<times> 'd sys) option" where
  "vfs_creat E li path mode s = vfs_open_fd E li path 0x1201 mode s"

definition vfs_close :: "addr \<Rightarrow> 'd sys \<Rightarrow> (int \<times> 'd sys) option" where
  "vfs_close file s = do {
     f \<leftarrow> sy_files s file;
     (_, s) \<leftarrow> on_fd (close_filedescriptor (f_fd f)) s;
     n \<leftarrow> get_node (f_vfs_node f) s;
     (ret, s) \<leftarrow> (if n_close n \<noteq> NF_null then node_close (n_close n) (f_vfs_node f) s else Some (0, s));
     (r, s) \<leftarrow> on_k (kfree file) s;
     Some (if r = -1 then -1 else ret, s) }"

definition vfs_close_fd :: "int \<Rightarrow> 'd sys \<Rightarrow> (int \<times> 'd sys) option" where
  "vfs_close_fd fd s = do {
     (node, s) \<leftarrow> on_fd (get_filedescriptor_node fd) s;
     if node = 0 then Some (-1, s)
     else do {
       n \<leftarrow> get_node node s;
       (_, s) \<leftarrow> (if n_close n \<noteq> NF_null then node_close (n_close n) node s else Some (0, s));
       on_fd (close_filedescriptor fd) s } }"

definition vfs_readdir :: "'d env \<Rightarrow> addr \<Rightarrow> 'd sys \<Rightarrow> (addr \<times> 'd sys) option" where
  "vfs_readdir E dirstream s =
     (if dirstream = 0 \<or> ld32 (smem s) (dirstream + DIR_fs_info) = 0 then Some (0, s)
      else do {
        fs \<leftarrow> get_fs (ld32 (smem s) (dirstream + DIR_fs_info)) s;
        if fs_dir_read fs = FS_null then Some (0, s)
        else if fs_dir_read fs = FN_ext2_read_dir then ext2_read_dir (en_ports E) dirstream s
        else None })"

definition vfs_opendir :: "'d env \<Rightarrow> addr \<Rightarrow> 'd sys \<Rightarrow> (addr \<times> 'd sys) option" where
  "vfs_opendir E filepath s = do { (node, s) \<leftarrow> vfs_find_path filepath s; vfs_opendir_node E node s }"

text \<open>The loop of \<^verbatim>\<open>getdents\<close>: \<open>i\<close> bytes are in the buffer.\<close>

partial_function (option) getdents_loop :: "'d env \<Rightarrow> addr \<Rightarrow> addr \<Rightarrow> int \<Rightarrow> int \<Rightarrow> 'd sys \<Rightarrow> (int \<times> 'd sys) option" where
  "getdents_loop E dirstream buf i cnt s =
     (if i < cnt then do {
        r \<leftarrow> vfs_readdir E dirstream s;
        let s = snd r; let dirent = fst r;
        if dirent = 0 then Some (i, s)
        else do {
          let reclen = ld16 (smem s) (dirent + D_reclen);
          if i + uint reclen \<le> cnt then do {
            let m = memcpy (smem s) buf dirent (ucast reclen);
            let s = set_mem (st32 m (buf + D_off) (of_int (i + uint reclen))) s;
            getdents_loop E dirstream (buf + ucast (ld16 (smem s) (dirent + D_reclen))) (i + uint reclen) cnt s }
          else Some (i, s) } }
      else Some (i, s))"

definition getdents :: "'d env \<Rightarrow> int \<Rightarrow> addr \<Rightarrow> int \<Rightarrow> 'd sys \<Rightarrow> (int \<times> 'd sys) option" where
  "getdents E fd dir cnt s =
     (case sys_get_filedescriptor fd s of (None, s) \<Rightarrow> Some (-1, s)
      | (Some p, s) \<Rightarrow> do {
          x \<leftarrow> load_fd p s;
          if fd_seek x = 0 then Some (-1, set_errno EBADFD s)
          else getdents_loop E (of_int (fd_seek x)) dir 0 cnt s })"

subsection \<open>Nodes without a file system\<close>

definition vfs_setupnode ::
  "addr \<Rightarrow> u8 \<Rightarrow> u16 \<Rightarrow> u32 \<Rightarrow> u32 \<Rightarrow> u32 \<Rightarrow> u32 \<Rightarrow> node_fn \<Rightarrow> node_fn \<Rightarrow> node_fn \<Rightarrow> node_fn \<Rightarrow> node_fn \<Rightarrow> node_fn \<Rightarrow> node_fn \<Rightarrow> addr \<Rightarrow>
   'd sys \<Rightarrow> (addr \<times> 'd sys) option" where
  "vfs_setupnode name type permissions uid gid sz off opn close creat read write opendir readdir fsi s = do {
     (node, s) \<leftarrow> on_k (kmalloc SIZEOF_VFS_NODE) s;
     Some (node, set_node node (node_zero\<lparr>n_name := name, n_type := type, n_permissions := permissions, n_uid := uid, n_gid := gid,
       n_id := g_nodecount s, n_filelength := sz, n_fs_info := fsi, n_offset := off, n_open := opn, n_close := close, n_creat := creat,
       n_read := read, n_write := write, n_opendir := opendir, n_readdir := readdir\<rparr>) (s\<lparr>g_nodecount := g_nodecount s + 1\<rparr>)) }"

text \<open>The scan of \<^verbatim>\<open>vfs_get_name\<close> and \<^verbatim>\<open>vfs_link_node_vfs\<close>: from index \<open>n\<close> down to 1.\<close>

primrec slash_down :: "mem \<Rightarrow> addr \<Rightarrow> nat \<Rightarrow> nat option" where
  "slash_down m a 0 = None"
| "slash_down m a (Suc n) = (if m (a + of_nat (Suc n)) = SLASH then Some (Suc n) else slash_down m a n)"

definition vfs_get_name :: "addr \<Rightarrow> 'd sys \<Rightarrow> (addr \<times> 'd sys) option" where
  "vfs_get_name path s = do {
     l \<leftarrow> strlen (smem s) path;
     let pathlen = l + 1;
     (tmp, s) \<leftarrow> on_k (kmalloc pathlen) s;
     let m = memcpy (smem s) tmp path pathlen;
     let (m, pathlen) = (if m (path + pathlen - 1) = SLASH then (m(tmp + pathlen - 1 := 0), pathlen - 1) else (m, pathlen));
     Some (case slash_down m tmp (unat pathlen) of None \<Rightarrow> tmp | Some i \<Rightarrow> tmp + of_nat i + 1, set_mem m s) }"

definition vfs_link_node_vfs :: "addr \<Rightarrow> addr \<Rightarrow> 'd sys \<Rightarrow> (int \<times> 'd sys) option" where
  "vfs_link_node_vfs path node s = do {
     pathlen \<leftarrow> strlen (smem s) path;
     (tmp, s) \<leftarrow> on_k (kmalloc pathlen) s;
     let m = memcpy (smem s) tmp path pathlen;
     let (m, pathlen) = (if m (path + pathlen - 1) = SLASH then (m(tmp + pathlen - 1 := 0), pathlen - 1) else (m, pathlen));
     (dir, s) \<leftarrow> (case slash_down m tmp (unat pathlen) of None \<Rightarrow> Some (0, set_mem m s)
       | Some i \<Rightarrow> vfs_find_path tmp (set_mem (m(tmp + of_nat i := 0)) s));
     if dir = 0 then Some (-1, s)
     else do {
       s \<leftarrow> upd_node node (\<lambda>n. n\<lparr>n_parent := dir\<rparr>) s;
       d \<leftarrow> get_node dir s;
       ntmp \<leftarrow> last_node (n_dirlist d) s;
       s \<leftarrow> upd_node ntmp (\<lambda>n. n\<lparr>n_nextnode := node\<rparr>) s;
       (_, s) \<leftarrow> on_k (kfree tmp) s;
       Some (0, s) } }"

definition chardev_create :: "addr \<Rightarrow> node_fn \<Rightarrow> node_fn \<Rightarrow> node_fn \<Rightarrow> 'd sys \<Rightarrow> (addr \<times> 'd sys) option" where
  "chardev_create path read write cmd s = do {
     (pipe, s) \<leftarrow> sys_pipe_create s;
     if pipe = 0 then Some (0, s)
     else do {
       let read = (if read = NF_one then NF_pipe_read else read);
       let write = (if write = NF_one then NF_pipe_write else write);
       (name, s) \<leftarrow> vfs_get_name path s;
       p \<leftarrow> sy_pipes s pipe;
       rb \<leftarrow> sy_rings s (pipe_circbuf p);
       (node, s) \<leftarrow> vfs_setupnode name VFS_CHARDEVICE 0 0 0 (rb_size rb) pipe NF_null NF_chardev_close NF_null read write NF_null NF_null 0 s;
       s \<leftarrow> upd_node node (\<lambda>n. n\<lparr>n_cmd := cmd\<rparr>) s;
       (_, s) \<leftarrow> vfs_link_node_vfs path node s;
       Some (node, s) } }"

definition pipe_fds :: "int \<Rightarrow> addr \<Rightarrow> 'd sys \<Rightarrow> (int \<times> 'd sys) option" where
  "pipe_fds li pipefd s = do {
     (p, s) \<leftarrow> sys_pipe_create s;
     if p = 0 then Some (-1, s)
     else do {
       q \<leftarrow> sy_pipes s p;
       rb \<leftarrow> sy_rings s (pipe_circbuf q);
       (node, s) \<leftarrow> vfs_setupnode (sy_lit s ''pipe'') VFS_PIPE 0 0 0 (rb_size rb) p NF_null NF_pipe_close NF_null NF_pipe_read NF_pipe_write
         NF_null NF_null 0 s;
       if node = 0 then Some (-1, s)
       else do {
         (fd0, s) \<leftarrow> on_fd (register_filedescriptor li node 0 0) s;
         let s = set_mem (st32 (smem s) pipefd (of_int fd0)) s;
         (fd1, s) \<leftarrow> on_fd (register_filedescriptor li node 0 1) s;
         let s = set_mem (st32 (smem s) (pipefd + 4) (of_int fd1)) s;
         q \<leftarrow> sy_pipes s p;
         Some (0, s\<lparr>sy_pipes := (sy_pipes s)(p \<mapsto> q\<lparr>pipefd0 := ld32 (smem s) pipefd, pipefd1 := ld32 (smem s) (pipefd + 4)\<rparr>)\<rparr>) } } }"

definition mkfifo :: "addr \<Rightarrow> 'd sys \<Rightarrow> (int \<times> 'd sys) option" where
  "mkfifo path s = do {
     (p, s) \<leftarrow> sys_pipe_create s;
     if p = 0 then Some (-1, s)
     else do {
       (name, s) \<leftarrow> vfs_get_name path s;
       q \<leftarrow> sy_pipes s p;
       rb \<leftarrow> sy_rings s (pipe_circbuf q);
       (node, s) \<leftarrow> vfs_setupnode name VFS_PIPE 0 0 0 (rb_size rb) p NF_null NF_null NF_null NF_pipe_read NF_pipe_write NF_null NF_null 0 s;
       (_, s) \<leftarrow> vfs_link_node_vfs path node s;
       Some (0, s) } }"

definition vfs_sock_create_conn :: "addr \<Rightarrow> 'd sys \<Rightarrow> (addr \<times> 'd sys) option" where
  "vfs_sock_create_conn conn s =
     vfs_setupnode (sy_lit s ''socket_conn'') VFS_SOCKET 0 0 0 0 conn NF_null NF_null NF_null NF_null NF_null NF_null NF_null 0 s"

definition default_permissions :: u16 where
  "default_permissions = 0"

definition vfs_sock_create :: "addr \<Rightarrow> addr \<Rightarrow> 'd sys \<Rightarrow> (int \<times> 'd sys) option" where
  "vfs_sock_create path socket s = do {
     (name, s) \<leftarrow> vfs_get_name path s;
     eu \<leftarrow> task_euid (sy_s s);
     eg \<leftarrow> task_egid (sy_s s);
     (node, s) \<leftarrow> vfs_setupnode name VFS_SOCKET default_permissions eu eg 0 socket NF_null NF_sock_close NF_null NF_null NF_null NF_null NF_null 0 s;
     vfs_link_node_vfs path node s }"

definition init_char_specials :: "'d env \<Rightarrow> int \<Rightarrow> 'd sys \<Rightarrow> (int \<times> 'd sys) option" where
  "init_char_specials E li s = do {
     (_, s) \<leftarrow> chardev_create (sy_lit s ''/dev/stdin'') NF_one NF_tty_stdinwrite NF_null s;
     (_, s) \<leftarrow> chardev_create (sy_lit s ''/dev/stdout'') NF_null NF_tty_stdoutwrite NF_null s;
     (_, s) \<leftarrow> chardev_create (sy_lit s ''/dev/stderr'') NF_null NF_tty_stderrwrite NF_null s;
     (_, s) \<leftarrow> chardev_create (sy_lit s ''/dev/tty'') NF_tty_readtest NF_tty_stdoutwrite NF_termios_cmd s;
     (_, s) \<leftarrow> chardev_create (sy_lit s ''/dev/pts/0'') NF_tty_readtest NF_tty_stdoutwrite NF_null s;
     (_, s) \<leftarrow> chardev_create (sy_lit s ''/dev/null'') NF_read_null NF_write_null NF_null s;
     (_, s) \<leftarrow> chardev_create (sy_lit s ''/dev/fb0'') NF_one NF_fb_write NF_fb_cmd s;
     (_, s) \<leftarrow> vfs_open_fd E li (sy_lit s ''/dev/stdin'') 0 0 s;
     (_, s) \<leftarrow> vfs_open_fd E li (sy_lit s ''/dev/stdout'') 0 0 s;
     (_, s) \<leftarrow> vfs_open_fd E li (sy_lit s ''/dev/stderr'') 0 0 s;
     Some (0, s) }"

subsection \<open>Mounting\<close>

text \<open>\<^verbatim>\<open>loop_over_filesystem\<close> and its loop over the entries of a directory call each other: \<open>Enter\<close> is a call of the function,
  \<open>Entries\<close> is the loop with the stream, whether no entry was added yet, and the last node.\<close>

datatype fs_walk = Enter u32 bool addr | Entries addr bool addr

partial_function (option) walk_filesystem :: "'d env \<Rightarrow> addr \<Rightarrow> fs_walk \<Rightarrow> 'd sys \<Rightarrow> 'd sys option" where
  "walk_filesystem E fsi w s =
     (case w of
        Enter start rootnode startnode \<Rightarrow> do {
          r \<leftarrow> (if rootnode then do {
                 (root, s) \<leftarrow> ext2_vfs_entry (en_ports E) start (sy_lit s '''') (g_nodecount s) fsi (s\<lparr>g_nodecount := g_nodecount s + 1\<rparr>);
                 s \<leftarrow> upd_node root (\<lambda>n. n\<lparr>n_parent := root\<rparr>) (s\<lparr>g_vfs_root := root\<rparr>);
                 Some (root, s) }
               else Some (startnode, s));
          d \<leftarrow> ext2_open_dir_stream (en_ports E) start fsi (snd r);
          if fst d = 0 then Some (snd d)
          else do {
            s \<leftarrow> walk_filesystem E fsi (Entries (fst d) True (fst r)) (snd d);
            c \<leftarrow> ext2_close_dir_stream (fst d) s;
            Some (snd c) } }
      | Entries dirp fresh prevnode \<Rightarrow> do {
          d \<leftarrow> ext2_read_dir (en_ports E) dirp s;
          if fst d = 0 then Some (snd d)
          else do {
            let dname = fst d + D_name;
            r \<leftarrow> do {
              l \<leftarrow> strlen (smem (snd d)) dname;
              (name, s) \<leftarrow> on_k (kmalloc (l + 1)) (snd d);
              let s = set_mem ((memcpy (smem s) name dname l)(name + l := 0)) s;
              ext2_vfs_entry (en_ports E) (ld32 (smem s) (fst d)) name (g_nodecount s) fsi (s\<lparr>g_nodecount := g_nodecount s + 1\<rparr>) };
            let node = fst r;
            if node = 0 then walk_filesystem E fsi (Entries dirp fresh prevnode) (snd r)
            else do {
              s \<leftarrow> upd_node node (\<lambda>n. n\<lparr>n_parent := prevnode\<rparr>) (snd r);
              s \<leftarrow> (if fresh then upd_node prevnode (\<lambda>n. n\<lparr>n_dirlist := node\<rparr>) s else upd_node prevnode (\<lambda>n. n\<lparr>n_nextnode := node\<rparr>) s);
              n \<leftarrow> get_node node s;
              c1 \<leftarrow> strcmp (smem s) dname (sy_lit s ''.'');
              c2 \<leftarrow> strcmp (smem s) (sy_lit s ''..'') dname;
              s \<leftarrow> (if n_type n = VFS_DIRECTORY \<and> c1 \<noteq> 0 \<and> c2 \<noteq> 0 then walk_filesystem E fsi (Enter (n_offset n) False node) s else Some s);
              walk_filesystem E fsi (Entries dirp False node) s } } })"

definition loop_over_filesystem :: "'d env \<Rightarrow> u32 \<Rightarrow> bool \<Rightarrow> addr \<Rightarrow> addr \<Rightarrow> 'd sys \<Rightarrow> 'd sys option" where
  "loop_over_filesystem E start rootnode startnode fsi s = walk_filesystem E fsi (Enter start rootnode startnode) s"

definition check_vfs_initialised :: "'d sys \<Rightarrow> int" where
  "check_vfs_initialised s = (if g_vfs_root s \<noteq> 0 then 1 else 0)"

definition init_vfs :: "'d env \<Rightarrow> 'd sys \<Rightarrow> (int \<times> 'd sys) option" where
  "init_vfs E s = do {
     (fs, s) \<leftarrow> init_ext2_filesystem (en_ports E) (sy_lit s ''EXT2FS'') 1048576 (disk_list s) (s\<lparr>g_nodecount := 0\<rparr>);
     let s = s\<lparr>g_current_fs := fs\<rparr>;
     if fs = 0 then Some (-1, s)
     else do {
       s \<leftarrow> loop_over_filesystem E 2 True 0 fs (s\<lparr>g_vfs_root := 0\<rparr>);
       Some (0, s) } }"

subsection \<open>Device commands\<close>

definition ioctl :: "(node_fn \<Rightarrow> u32 \<Rightarrow> addr \<Rightarrow> 'd sys \<Rightarrow> (int \<times> 'd sys) option) \<Rightarrow> int \<Rightarrow> u32 \<Rightarrow> addr \<Rightarrow> 'd sys \<Rightarrow> (int \<times> 'd sys) option" where
  "ioctl cmd fd request args s =
     (case sys_get_filedescriptor fd s of (None, s) \<Rightarrow> Some (-1, s)
      | (Some p, s) \<Rightarrow> do {
          x \<leftarrow> load_fd p s;
          if fd_node x = 0 then Some (-1, s)
          else do {
            n \<leftarrow> get_node (fd_node x) s;
            if n_cmd n = NF_null then Some (-1, s) else cmd (n_cmd n) request args s } })"

end
