(* ===== verification/Sys_Users.thy ===== *)
theory Sys_Users
  imports Fs_Vfs
begin

text \<open>
  Users and the environment of programs: reading a line (\<^verbatim>\<open>kernel/libk/stdio/stdio.c\<close>), logging in (\<^verbatim>\<open>kernel/yanix/users/user.c\<close>,
  \<^verbatim>\<open>login.c\<close>), argument and environment vectors (\<^verbatim>\<open>kernel/yanix/env.c\<close>) and the system information
  (\<^verbatim>\<open>kernel/yanix/system.c\<close>).

  \<open>E\<close> and \<open>li\<close> are those of the file system. Memory that the code does not initialise is an argument. The lemmas characterise the
  password test: it accepts every password that agrees with the stored one up to the last character.
\<close>

abbreviation (input) "COLON \<equiv> (0x3A :: u8)"
abbreviation (input) "NEWLINE \<equiv> (0x0A :: u8)"
abbreviation (input) "BUFSIZ \<equiv> (0x400 :: int)"
abbreviation (input) "LOGIN_LEN \<equiv> (128 :: int)"
abbreviation (input) "EACCES \<equiv> (13 :: int)"
abbreviation (input) "E2BIG \<equiv> (7 :: int)"
abbreviation (input) "SIZEOF_USER \<equiv> (28 :: u32)"

subsection \<open>Lines (stdio.c)\<close>

primrec readline_loop :: "addr \<Rightarrow> int \<Rightarrow> addr \<Rightarrow> mem \<Rightarrow> int \<Rightarrow> nat \<Rightarrow> int \<times> mem" where
  "readline_loop data dataend buf m i 0 = (i, m)"
| "readline_loop data dataend buf m i (Suc n) =
     (if i = dataend then (-1, m)
      else
        let m = m(buf + of_int i := m (data + of_int i)) in
        if m (data + of_int i) = NEWLINE then (i + 1, m)
        else readline_loop data dataend buf m (i + 1) n)"

definition readline :: "addr \<Rightarrow> int \<Rightarrow> addr \<Rightarrow> int \<Rightarrow> mem \<Rightarrow> int \<times> mem" where
  "readline data dataend buf sz m =
     (case readline_loop data dataend buf m 0 (nat (sz - 1)) of (i, m) \<Rightarrow>
        if i = -1 then (-1, m) else (i, m(buf + of_int i := 0)))"

subsection \<open>Users (user.c, login.c)\<close>

definition evalpasswd :: "addr \<Rightarrow> addr \<Rightarrow> mem \<Rightarrow> int option" where
  "evalpasswd given correct m = do {
     l \<leftarrow> strlen m given;
     if m (correct + l) \<noteq> COLON then Some 1
     else Some (memcmp m given correct (l - 1)) }"

definition upd_user :: "(user \<Rightarrow> user) \<Rightarrow> 'd sys \<Rightarrow> 'd sys option" where
  "upd_user f s = do { u \<leftarrow> sy_users s (g_current_user s); Some (s\<lparr>sy_users := (sy_users s)(g_current_user s \<mapsto> f u)\<rparr>) }"

definition next_field :: "addr \<Rightarrow> 'd sys \<Rightarrow> addr option" where
  "next_field buf s = do { c \<leftarrow> strchr (smem s) buf COLON; Some (c + 1) }"

definition login_cleanup :: "addr \<Rightarrow> addr \<Rightarrow> addr \<Rightarrow> 'd sys \<Rightarrow> 'd sys option" where
  "login_cleanup filebuf line fp s = do {
     (_, s) \<leftarrow> on_k (kfree filebuf) s;
     (_, s) \<leftarrow> on_k (kfree line) s;
     (_, s) \<leftarrow> vfs_close fp s;
     Some s }"

definition login_user :: "addr \<Rightarrow> addr \<Rightarrow> addr \<Rightarrow> 'd sys \<Rightarrow> 'd sys option" where
  "login_user name passwd line s = do {
     l \<leftarrow> strlen (smem s) line;
     let s = set_mem ((smem s)(line + l - 1 := 0)) s;
     ln \<leftarrow> strlen (smem s) name;
     lp \<leftarrow> strlen (smem s) passwd;
     let buf = line + (ln + lp + 2);
     uid \<leftarrow> atoi (smem s) buf;
     s \<leftarrow> upd_user (\<lambda>u. u\<lparr>us_uid := uid\<rparr>) s;
     buf \<leftarrow> next_field buf s;
     gid \<leftarrow> atoi (smem s) buf;
     s \<leftarrow> upd_user (\<lambda>u. u\<lparr>us_gid := gid\<rparr>) s;
     buf \<leftarrow> next_field buf s;
     (n, s) \<leftarrow> on_k (strdup name) s;
     s \<leftarrow> upd_user (\<lambda>u. u\<lparr>us_name := n\<rparr>) s;
     c \<leftarrow> strchr (smem s) buf COLON;
     (g, s) \<leftarrow> on_k (strdup_s buf (c - buf)) s;
     s \<leftarrow> upd_user (\<lambda>u. u\<lparr>us_gcos := g\<rparr>) s;
     buf \<leftarrow> next_field buf s;
     c \<leftarrow> strchr (smem s) buf COLON;
     (h, s) \<leftarrow> on_k (strdup_s buf (c - buf)) s;
     s \<leftarrow> upd_user (\<lambda>u. u\<lparr>us_home := h\<rparr>) s;
     buf \<leftarrow> next_field buf s;
     (sh, s) \<leftarrow> on_k (strdup buf) s;
     upd_user (\<lambda>u. u\<lparr>us_shell := sh\<rparr>) s }"

partial_function (option) login_loop ::
  "addr \<Rightarrow> addr \<Rightarrow> u32 \<Rightarrow> addr \<Rightarrow> addr \<Rightarrow> addr \<Rightarrow> int \<Rightarrow> 'd sys \<Rightarrow> (int \<times> 'd sys) option" where
  "login_loop name passwd namelen filebuf line fp seek s =
     (case readline (filebuf + of_int seek) (BUFSIZ - seek) line LOGIN_LEN (smem s) of (ret, m) \<Rightarrow>
        let s = set_mem m s in
        if ret = -1 then do { s \<leftarrow> login_cleanup filebuf line fp s; Some (-1, s) }
        else if memcmp (smem s) line name namelen = 0 \<and> smem s (line + namelen) = COLON then do {
          e \<leftarrow> evalpasswd passwd (line + namelen + 1) (smem s);
          if e \<noteq> 0 then do { s \<leftarrow> login_cleanup filebuf line fp (set_errno EACCES s); Some (-1, s) }
          else do {
            s \<leftarrow> login_user name passwd line s;
            s \<leftarrow> login_cleanup filebuf line fp s;
            Some (0, s) } }
        else login_loop name passwd namelen filebuf line fp (seek + ret) s)"

definition user_login :: "'d env \<Rightarrow> int \<Rightarrow> addr \<Rightarrow> addr \<Rightarrow> 'd sys \<Rightarrow> (int \<times> 'd sys) option" where
  "user_login E li name passwd s = do {
     (filebuf, s) \<leftarrow> on_k (kmalloc (of_int BUFSIZ)) s;
     (line, s) \<leftarrow> on_k (kmalloc (of_int LOGIN_LEN)) s;
     namelen \<leftarrow> strlen (smem s) name;
     (fp, s) \<leftarrow> vfs_open E li (sy_lit s ''/etc/passwd'') 0 0 s;
     if fp = 0 then do {
       (_, s) \<leftarrow> on_k (kfree filebuf) s;
       (_, s) \<leftarrow> on_k (kfree line) s;
       Some (-1, s) }
     else do {
       f \<leftarrow> sy_files s fp;
       (_, s) \<leftarrow> vfs_read_fd E (f_fd f) filebuf (of_int BUFSIZ) s;
       login_loop name passwd namelen filebuf line fp 0 s } }"

definition init_user :: "user \<Rightarrow> 'd sys \<Rightarrow> (int \<times> 'd sys) option" where
  "init_user fresh s = do {
     (u, s) \<leftarrow> on_k (kmalloc SIZEOF_USER) s;
     let s = s\<lparr>g_current_user := u\<rparr>;
     if u = 0 then Some (1, s) else Some (0, s\<lparr>sy_users := (sy_users s)(u \<mapsto> fresh)\<rparr>) }"

definition get_current_user :: "'d sys \<Rightarrow> addr" where
  "get_current_user s = g_current_user s"

definition login :: "'d env \<Rightarrow> int \<Rightarrow> 'd sys \<Rightarrow> (int \<times> 'd sys) option" where
  "login E li s = do {
     (_, s) \<leftarrow> user_login E li (sy_lit s ''root'') (sy_lit s ''password'') s;
     Some (1, s) }"

subsection \<open>Arguments and environment (env.c)\<close>

abbreviation (input) "ENVIRONMENT_AMOUNT \<equiv> (256 :: u32)"
abbreviation (input) "EXECVE_MAX_ARGS \<equiv> (512 :: u32)"
abbreviation (input) "EXECVE_MAX_ENV \<equiv> (512 :: u32)"

partial_function (option) env_size_loop :: "mem \<Rightarrow> addr \<Rightarrow> u32 \<Rightarrow> u32 option" where
  "env_size_loop m vars amount = (if ld32 m (vars + 4 * amount) \<noteq> 0 then env_size_loop m vars (amount + 1) else Some amount)"

definition env_size :: "mem \<Rightarrow> addr \<Rightarrow> u32 option" where
  "env_size m vars = env_size_loop m vars 0"

definition make_userstring :: "addr \<Rightarrow> 'd sys \<Rightarrow> (addr \<times> 'd sys) option" where
  "make_userstring str s = do {
     l \<leftarrow> strlen (smem s) str;
     (us, s) \<leftarrow> on_k (kmalloc_user (l + 1)) s;
     Some (us, set_mem (memcpy (smem s) us str (l + 1)) s) }"

definition make_uservar :: "addr \<Rightarrow> addr \<Rightarrow> 'd sys \<Rightarrow> (addr \<times> 'd sys) option" where
  "make_uservar string1 string2 s = do {
     l1 \<leftarrow> strlen (smem s) string1;
     l2 \<leftarrow> strlen (smem s) string2;
     (us, s) \<leftarrow> on_k (kmalloc_user (l1 + l2 + 1)) s;
     let m = memcpy (smem s) us string1 l1;
     Some (us, set_mem (memcpy m (us + l1) string2 (l2 + 1)) s) }"

definition put_string :: "addr \<Rightarrow> u32 \<Rightarrow> (addr \<times> 'd sys) option \<Rightarrow> 'd sys option" where
  "put_string tab i r = do { (a, s) \<leftarrow> r; Some (set_mem (st32 (smem s) (tab + 4 * i) a) s) }"

definition make_envvars :: "'d sys \<Rightarrow> (addr \<times> 'd sys) option" where
  "make_envvars s = do {
     (env, s) \<leftarrow> on_k (kmalloc_user (4 * ENVIRONMENT_AMOUNT)) s;
     let s = set_mem (memset (smem s) env 0 (4 * ENVIRONMENT_AMOUNT)) s;
     u \<leftarrow> sy_users s (get_current_user s);
     s \<leftarrow> put_string env 0 (make_uservar (sy_lit s ''USER='') (us_name u) s);
     s \<leftarrow> put_string env 1 (make_uservar (sy_lit s ''HOME='') (us_home u) s);
     s \<leftarrow> put_string env 2 (make_userstring (sy_lit s ''PATH=/bin'') s);
     s \<leftarrow> put_string env 3 (make_uservar (sy_lit s ''PWD='') (us_home u) s);
     s \<leftarrow> put_string env 4 (make_uservar (sy_lit s ''TERM='') (sy_lit s ''yanix'') s);
     s \<leftarrow> put_string env 5 (make_uservar (sy_lit s ''PS1='') (sy_lit s ''sup: '') s);
     Some (env, s) }"

primrec make_args_loop :: "addr \<Rightarrow> u32 \<Rightarrow> addr list \<Rightarrow> 'd sys \<Rightarrow> 'd sys option" where
  "make_args_loop args i [] s = Some s"
| "make_args_loop args i (a # as) s = do { s \<leftarrow> put_string args i (make_userstring a s); make_args_loop args (i + 1) as s }"

definition make_args :: "addr list \<Rightarrow> 'd sys \<Rightarrow> (addr \<times> 'd sys) option" where
  "make_args valist s = do {
     let amount = of_nat (length valist);
     (args, s) \<leftarrow> on_k (kmalloc_user (4 * (amount + 1))) s;
     let s = set_mem (memset (smem s) args 0 (4 * (amount + 1))) s;
     s \<leftarrow> make_args_loop args 0 valist s;
     Some (args, s) }"

primrec copy_strings :: "addr \<Rightarrow> u32 \<Rightarrow> addr \<Rightarrow> u32 \<Rightarrow> nat \<Rightarrow> 'd sys \<Rightarrow> 'd sys option" where
  "copy_strings new i vec j 0 s = Some s"
| "copy_strings new i vec j (Suc n) s = do {
     s \<leftarrow> put_string new i (on_k (strdup_user (ld32 (smem s) (vec + 4 * j))) s);
     copy_strings new (i + 1) vec (j + 1) n s }"

definition combine_args_env :: "addr \<Rightarrow> addr \<Rightarrow> 'd sys \<Rightarrow> (addr \<times> 'd sys) option" where
  "combine_args_env argv env s = do {
     argvsize \<leftarrow> env_size (smem s) argv;
     if sint argvsize > sint EXECVE_MAX_ARGS then Some (0, set_errno E2BIG s)
     else do {
       envsize \<leftarrow> env_size (smem s) env;
       if sint envsize > sint EXECVE_MAX_ENV then Some (0, set_errno E2BIG s)
       else do {
         let paramsize = argvsize + envsize + 1;
         (new, s) \<leftarrow> on_k (kmalloc_user (paramsize * 4)) s;
         let s = set_mem (memset (smem s) new 0 (paramsize * 4)) s;
         s \<leftarrow> copy_strings new 0 argv 0 (nat (sint argvsize)) s;
         s \<leftarrow> copy_strings new (of_int (max 0 (sint argvsize))) env 0 (nat (sint envsize)) s;
         Some (new, s) } } }"

subsection \<open>System information (system.c)\<close>

definition init_sysinfo :: "'d env \<Rightarrow> int \<Rightarrow> addr \<Rightarrow> 'd sys \<Rightarrow> (int \<times> 'd sys) option" where
  "init_sysinfo E li buf s = do {
     (fp, s) \<leftarrow> vfs_open E li (sy_lit s ''/etc/hostname'') 0 0 s;
     (_, s) \<leftarrow> vfs_read E fp buf 256 s;
     (_, s) \<leftarrow> vfs_close fp s;
     (h, s) \<leftarrow> on_k (strdup buf) s;
     Some (0, s\<lparr>g_system := \<lparr>si_hostname = h, si_sysname = sy_lit s ''Yanix'', si_release = sy_lit s ''Yanix OS 0.0.1 (2020-5-31)'',
       si_version = sy_lit s ''0.0.1'', si_machine = sy_lit s ''i686'', si_totalram = 512 * 1024 * 1024, si_totalswap = 0\<rparr>\<rparr>) }"

subsection \<open>The password test\<close>

lemma memcmp_loop_eq: "memcmp_loop m a b n = 0 \<longleftrightarrow> (\<forall>i < n. m (a + of_nat i) = m (b + of_nat i))"
proof (induction n arbitrary: a b)
  case (Suc n)
  have "(\<forall>i < Suc n. m (a + of_nat i) = m (b + of_nat i)) \<longleftrightarrow> m a = m b \<and> (\<forall>i < n. m (a + 1 + of_nat i) = m (b + 1 + of_nat i))"
    by (auto simp: less_Suc_eq_0_disj add.assoc)
  with Suc show ?case by auto
qed simp

text \<open>C33. The password test does not look at the last character, nor for the end of the stored password. With the rest of
  the line of the user file after the name as \<open>line\<close>, a given password that is not empty and not longer than \<open>line\<close> is accepted
  exactly when \<open>line\<close> goes on after its length, with a colon, and agrees with it on all characters but the last: a password with another
  last character is accepted, and so is one that goes on with the following fields.\<close>

theorem evalpasswd_ignores_last:
  assumes g: "cstr m given passwd" "given \<noteq> 0" "passwd \<noteq> []" and c: "cstr m correct line" "length passwd \<le> length line" "length line < 2 ^ 32"
  shows "evalpasswd given correct m = Some 0 \<longleftrightarrow>
    length passwd < length line \<and> line ! length passwd = COLON \<and> butlast passwd = take (length passwd - 1) line"
proof -
  let ?n = "length passwd"
  have "unat (of_nat ?n - 1 :: u32) = ?n - 1" using g(3) c(2,3)
    by (simp add: unat_minus_nowrap unat_of_nat_nowrap word_le_nat_alt Suc_le_eq)
  moreover have "m (correct + of_nat ?n) = COLON \<longleftrightarrow> ?n < length line \<and> line ! ?n = COLON"
  proof (cases "?n < length line")
    case True
    with c show ?thesis by (simp add: cstr_nth)
  next
    case False
    with c(2) have "?n = length line" by simp
    with c(1) show ?thesis by (simp add: cstr_nth)
  qed
  moreover have "butlast passwd = take (?n - 1) line \<longleftrightarrow> (\<forall>i < ?n - 1. passwd ! i = line ! i)"
    using c(2) by (subst list_eq_iff_nth_eq) (simp add: nth_butlast)
  moreover have "m (given + of_nat i) = passwd ! i" "m (correct + of_nat i) = line ! i" if "i < ?n - 1" for i
    using g(1) c that by (simp_all add: cstr_nth)
  ultimately show ?thesis using g by (auto simp add: evalpasswd_def strlen_cstr memcmp_def memcmp_loop_eq)
qed

text \<open>Passwords in memory: \<open>pat\<close> is given, the line starts with \<open>pax:0:\<close>.\<close>

definition login_mem :: mem where
  "login_mem = (\<lambda>_. 0)(0x1000 := 0x70, 0x1001 := 0x61, 0x1002 := 0x74, 0x2000 := 0x70, 0x2001 := 0x61, 0x2002 := 0x78, 0x2003 := COLON,
     0x2004 := 0x30, 0x2005 := COLON)"

theorem evalpasswd_ignores_last_witness: "evalpasswd 0x1000 0x2000 login_mem = Some 0"
  using evalpasswd_ignores_last [of login_mem "0x1000" "[0x70, 0x61, 0x74]" "0x2000" "[0x70, 0x61, 0x78, COLON, 0x30, COLON]"]
  by (simp add: login_mem_def)

end
