(* ===== verification/Exec_Elf.thy ===== *)
theory Exec_Elf
  imports Sys_Users
begin

text \<open>
  Loading and starting programs (\<^verbatim>\<open>kernel/yanix/execute/elf.c\<close>, \<^verbatim>\<open>exec.c\<close>). The headers of a program file are bytes in
  memory at the offsets of the packed structures. \<open>skh\<close> is the heap of the kernel stacks, \<open>eoi\<close> what ending the interrupt does, and
  \<open>run\<close> what the loaded program does when the kernel calls it; entering user mode is an outcome. The lemmas show which
  range of addresses a program gets.
\<close>

abbreviation (input) "ELF_MAGIC \<equiv> (0x464c457f :: u32)"
abbreviation (input) "ELF_BIT32 \<equiv> (1 :: u8)"
abbreviation (input) "ELF_ARCH_X86 \<equiv> (3 :: u16)"
abbreviation (input) "ELF_SUPPORTED \<equiv> (1 :: u8)"
abbreviation (input) "ELF_TYPE_EXEC \<equiv> (2 :: u16)"
abbreviation (input) "ELF_PHDR_NULL \<equiv> (0 :: u32)"
abbreviation (input) "ELF_PHDR_LOAD \<equiv> (1 :: u32)"
abbreviation (input) "ELF_W \<equiv> (2 :: u32)"
abbreviation (input) "SIZEOF_ELF_HDR \<equiv> (52 :: u32)"
abbreviation (input) "SIZEOF_ELF_PHDR \<equiv> (32 :: u32)"
abbreviation (input) "ENOEXEC \<equiv> (8 :: int)"

definition hdr_magic :: "mem \<Rightarrow> addr \<Rightarrow> u32" where "hdr_magic m h = ld32 m h"
definition hdr_bit_type :: "mem \<Rightarrow> addr \<Rightarrow> u8" where "hdr_bit_type m h = m (h + 4)"
definition hdr_header_version :: "mem \<Rightarrow> addr \<Rightarrow> u8" where "hdr_header_version m h = m (h + 6)"
definition hdr_type :: "mem \<Rightarrow> addr \<Rightarrow> u16" where "hdr_type m h = ld16 m (h + 16)"
definition hdr_arch_type :: "mem \<Rightarrow> addr \<Rightarrow> u16" where "hdr_arch_type m h = ld16 m (h + 18)"
definition hdr_entry :: "mem \<Rightarrow> addr \<Rightarrow> u32" where "hdr_entry m h = ld32 m (h + 24)"
definition hdr_pheader_position :: "mem \<Rightarrow> addr \<Rightarrow> u32" where "hdr_pheader_position m h = ld32 m (h + 28)"
definition hdr_pheader_amount :: "mem \<Rightarrow> addr \<Rightarrow> u16" where "hdr_pheader_amount m h = ld16 m (h + 44)"

definition ph_type :: "mem \<Rightarrow> addr \<Rightarrow> u32" where "ph_type m p = ld32 m p"
definition ph_offset :: "mem \<Rightarrow> addr \<Rightarrow> u32" where "ph_offset m p = ld32 m (p + 4)"
definition ph_vaddr :: "mem \<Rightarrow> addr \<Rightarrow> u32" where "ph_vaddr m p = ld32 m (p + 8)"
definition ph_filesize :: "mem \<Rightarrow> addr \<Rightarrow> u32" where "ph_filesize m p = ld32 m (p + 16)"
definition ph_memsize :: "mem \<Rightarrow> addr \<Rightarrow> u32" where "ph_memsize m p = ld32 m (p + 20)"
definition ph_flags :: "mem \<Rightarrow> addr \<Rightarrow> u32" where "ph_flags m p = ld32 m (p + 24)"

definition on_vm :: "(vm \<Rightarrow> ('a \<times> vm) option) \<Rightarrow> 'd sys \<Rightarrow> ('a \<times> 'd sys) option" where
  "on_vm f s = do { (r, v) \<leftarrow> f (sc_vm (sy_s s)); Some (r, s\<lparr>sy_s := (sy_s s)\<lparr>sc_vm := v\<rparr>\<rparr>) }"

definition on_sched :: "(sched \<Rightarrow> sched option) \<Rightarrow> 'd sys \<Rightarrow> 'd sys option" where
  "on_sched f s = do { c \<leftarrow> f (sy_s s); Some (s\<lparr>sy_s := c\<rparr>) }"

definition upd_current :: "(task \<Rightarrow> task) \<Rightarrow> 'd sys \<Rightarrow> 'd sys option" where
  "upd_current f s = on_sched (upd_task (get_current_task (sy_s s)) f) s"

subsection \<open>Program files (elf.c)\<close>

definition elf_check_support :: "addr \<Rightarrow> 'd sys \<Rightarrow> int \<times> 'd sys" where
  "elf_check_support hdr s =
     (let m = smem s in
      if hdr_magic m hdr \<noteq> ELF_MAGIC then (-1, set_errno ENOEXEC s)
      else if hdr_bit_type m hdr \<noteq> ELF_BIT32 then (-1, set_errno ENOEXEC s)
      else if hdr_arch_type m hdr \<noteq> ELF_ARCH_X86 then (-1, set_errno ENOEXEC s)
      else if hdr_header_version m hdr < ELF_SUPPORTED then (-1, set_errno ENOEXEC s)
      else if hdr_type m hdr \<noteq> ELF_TYPE_EXEC then (-1, set_errno ENOEXEC s)
      else (0, s))"

definition elf_load_pheader :: "'d env \<Rightarrow> addr \<Rightarrow> addr \<Rightarrow> 'd sys \<Rightarrow> (int \<times> 'd sys) option" where
  "elf_load_pheader E fp phdr s = do {
     let va = ph_vaddr (smem s) phdr;
     (_, s) \<leftarrow> on_vm (map_mem va (va + ph_memsize (smem s) phdr) False (ph_flags (smem s) phdr AND ELF_W \<noteq> 0)) s;
     let s = set_mem (memset (smem s) (ph_vaddr (smem s) phdr) 0 (ph_memsize (smem s) phdr)) s;
     f \<leftarrow> sy_files s fp;
     (_, s) \<leftarrow> vfs_lseek (f_fd f) (sint (ph_offset (smem s) phdr)) 0 s;
     (_, s) \<leftarrow> vfs_read E fp (ph_vaddr (smem s) phdr) (ph_filesize (smem s) phdr) s;
     let m = smem s;
     let s = (if ph_filesize m phdr < ph_memsize m phdr
              then set_mem (memset m (ph_vaddr m phdr + ph_filesize m phdr) 0 (ph_memsize m phdr - ph_filesize m phdr)) s else s);
     Some (0, s) }"

text \<open>The loop reads the 16-bit number of headers anew in every round: loading a segment may overwrite the header.\<close>

function load_segments :: "'d env \<Rightarrow> addr \<Rightarrow> addr \<Rightarrow> addr \<Rightarrow> u32 \<Rightarrow> 'd sys \<Rightarrow> (int \<times> 'd sys) option" where
  "load_segments E fp hdr tab i s =
     (let ph = tab + SIZEOF_ELF_PHDR * i; m = smem s in
      if \<not> i < ucast (hdr_pheader_amount m hdr) then Some (0, s)
      else if ph_filesize m ph > ph_memsize m ph then Some (-1, set_errno ENOEXEC s)
      else if ph_type m ph = ELF_PHDR_NULL then load_segments E fp hdr tab (i + 1) s
      else if ph_type m ph = ELF_PHDR_LOAD then do {
        (r, s) \<leftarrow> elf_load_pheader E fp ph s;
        if r = -1 then Some (-1, s) else load_segments E fp hdr tab (i + 1) s }
      else load_segments E fp hdr tab (i + 1) s)"
  by pat_completeness auto

lemma header_index:
  fixes i :: u32 and n :: u16
  assumes "i < ucast n"
  shows "65535 - unat (i + 1) < 65535 - unat i"
proof -
  have "unat i < unat n" using assms by (simp add: word_less_nat_alt unat_ucast_u16)
  moreover have "unat n < 65536" using unsigned_less [of n] by simp
  moreover have "unat (i + 1) = Suc (unat i)" using calculation by (simp add: unat_plus_nowrap)
  ultimately show ?thesis by simp
qed

termination load_segments
  by (relation "measure (\<lambda>(E, fp, hdr, tab, i, s). 65535 - unat i)") (auto intro: header_index)

declare load_segments.simps [simp del]

primrec program_range :: "mem \<Rightarrow> addr \<Rightarrow> u32 \<Rightarrow> u32 \<Rightarrow> u32 \<Rightarrow> nat \<Rightarrow> u32 \<times> u32" where
  "program_range m tab i pbrk pstrt 0 = (pbrk, pstrt)"
| "program_range m tab i pbrk pstrt (Suc n) =
     (let ph = tab + SIZEOF_ELF_PHDR * i;
          pbrk = (if ph_vaddr m ph + ph_memsize m ph > pbrk then ph_vaddr m ph + ph_memsize m ph else pbrk);
          pstrt = (if ph_vaddr m ph < pstrt then ph_vaddr m ph else pstrt) in
      program_range m tab (i + 1) pbrk pstrt n)"

definition elf_loop_over_program_table :: "'d env \<Rightarrow> addr \<Rightarrow> addr \<Rightarrow> addr \<Rightarrow> 'd sys \<Rightarrow> (int \<times> 'd sys) option" where
  "elf_loop_over_program_table E fp hdr tab s = do {
     (r, s) \<leftarrow> load_segments E fp hdr tab 0 s;
     if r = -1 then Some (-1, s)
     else do {
       let m = smem s;
       let (pbrk, pstrt) = program_range m tab 1 (ph_vaddr m tab + ph_memsize m tab) (ph_vaddr m tab) (unat (hdr_pheader_amount m hdr) - 1);
       s \<leftarrow> upd_current (\<lambda>t. t\<lparr>t_program_break := pbrk\<rparr>) s;
       s \<leftarrow> upd_current (\<lambda>t. t\<lparr>t_program_start := pstrt\<rparr>) s;
       Some (0, s) } }"

definition load_elf_into_mem :: "'d env \<Rightarrow> addr \<Rightarrow> 'd sys \<Rightarrow> (u32 \<times> 'd sys) option" where
  "load_elf_into_mem E fp s = do {
     (hdr, s) \<leftarrow> on_k (kmalloc SIZEOF_ELF_HDR) s;
     (_, s) \<leftarrow> vfs_read E fp hdr SIZEOF_ELF_HDR s;
     case elf_check_support hdr s of (r, s) \<Rightarrow>
       if r = -1 then Some (0, s)
       else do {
         let phdr_sz = SIZEOF_ELF_PHDR * ucast (hdr_pheader_amount (smem s) hdr);
         (tab, s) \<leftarrow> on_k (kmalloc phdr_sz) s;
         f \<leftarrow> sy_files s fp;
         (_, s) \<leftarrow> vfs_lseek (f_fd f) (sint (hdr_pheader_position (smem s) hdr)) 0 s;
         (_, s) \<leftarrow> vfs_read E fp tab phdr_sz s;
         (r, s) \<leftarrow> elf_loop_over_program_table E fp hdr tab s;
         if r = -1 then Some (0, s)
         else do {
           let entry = hdr_entry (smem s) hdr;
           (_, s) \<leftarrow> on_k (kfree hdr) s;
           (_, s) \<leftarrow> on_k (kfree tab) s;
           Some (entry, s) } } }"

subsection \<open>Starting a program (exec.c)\<close>

datatype exec_outcome = Exec_returns int | Exec_user u32 u32 u32 addr

definition execve_base ::
  "'d env \<Rightarrow> int \<Rightarrow> addr \<Rightarrow> ('d sys \<Rightarrow> 'd sys) \<Rightarrow> (u32 \<Rightarrow> u32 \<Rightarrow> addr \<Rightarrow> 'd sys \<Rightarrow> 'd sys option) \<Rightarrow>
    bool \<Rightarrow> addr \<Rightarrow> addr \<Rightarrow> addr \<Rightarrow> 'd sys \<Rightarrow> (exec_outcome \<times> 'd sys) option" where
  "execve_base E li skh eoi run jmpuser filename argv envp s = do {
     (fp, s) \<leftarrow> vfs_open E li filename 0 0 s;
     if fp = 0 then Some (Exec_returns (-1), s)
     else do {
       (amount, args, s) \<leftarrow> (if argv = 0 then Some (0, 0, s) else do {
         amount \<leftarrow> env_size (smem s) argv;
         (args, s) \<leftarrow> combine_args_env argv envp s;
         Some (amount, args, s) });
       if argv \<noteq> 0 \<and> args = 0 then do { (_, s) \<leftarrow> vfs_close fp s; Some (Exec_returns (-1), s) }
       else do {
         (ret, s) \<leftarrow> load_elf_into_mem E fp s;
         if ret = 0 then do { (_, s) \<leftarrow> vfs_close fp s; Some (Exec_returns (-1), s) }
         else do {
           (_, s) \<leftarrow> vfs_close fp s;
           (nm, s) \<leftarrow> on_k (strdup filename) s;
           s \<leftarrow> upd_current (\<lambda>t. t\<lparr>t_name := nm\<rparr>) s;
           f \<leftarrow> check_filedescriptors (fdst s);
           let s = put_fdst f s;
           if \<not> jmpuser then do { s \<leftarrow> run ret amount args s; Some (Exec_returns 0, s) }
           else do {
             let s = eoi s;
             let s = s\<lparr>sy_s := (sy_s s)\<lparr>cpu_if := False\<rparr>\<rparr>;
             s \<leftarrow> on_sched (set_user_stack skh) s;
             stop \<leftarrow> get_current_stacktop (sy_s s);
             s \<leftarrow> on_sched jump_userspace s;
             Some (Exec_user ret stop amount args, s) } } } } }"

definition execve_user ::
  "'d env \<Rightarrow> int \<Rightarrow> addr \<Rightarrow> ('d sys \<Rightarrow> 'd sys) \<Rightarrow> (u32 \<Rightarrow> u32 \<Rightarrow> addr \<Rightarrow> 'd sys \<Rightarrow> 'd sys option) \<Rightarrow>
    addr \<Rightarrow> addr \<Rightarrow> addr \<Rightarrow> 'd sys \<Rightarrow> (exec_outcome \<times> 'd sys) option" where
  "execve_user E li skh eoi run filename argv envp s = execve_base E li skh eoi run True filename argv envp s"

definition execve ::
  "'d env \<Rightarrow> int \<Rightarrow> addr \<Rightarrow> ('d sys \<Rightarrow> 'd sys) \<Rightarrow> (u32 \<Rightarrow> u32 \<Rightarrow> addr \<Rightarrow> 'd sys \<Rightarrow> 'd sys option) \<Rightarrow>
    addr \<Rightarrow> addr \<Rightarrow> addr \<Rightarrow> 'd sys \<Rightarrow> (exec_outcome \<times> 'd sys) option" where
  "execve E li skh eoi run filename argv envp s = execve_base E li skh eoi run False filename argv envp s"

subsection \<open>The addresses of a program\<close>

definition ph_at :: "addr \<Rightarrow> nat \<Rightarrow> addr" where
  "ph_at tab i = tab + SIZEOF_ELF_PHDR * of_nat i"

definition ph_end :: "mem \<Rightarrow> addr \<Rightarrow> u32" where
  "ph_end m p = ph_vaddr m p + ph_memsize m p"

lemma program_range_max:
  "program_range m tab (of_nat i) b a n =
    (Max (insert b ((\<lambda>j. ph_end m (ph_at tab j)) ` {i..<i + n})), Min (insert a ((\<lambda>j. ph_vaddr m (ph_at tab j)) ` {i..<i + n})))"
proof (induction n arbitrary: i b a)
  case (Suc n)
  let ?e = "\<lambda>j. ph_end m (ph_at tab j)" and ?v = "\<lambda>j. ph_vaddr m (ph_at tab j)"
  have s: "{i..<i + Suc n} = insert i {Suc i..<Suc i + n}" by auto
  have mx: "Max (insert b (?e ` {i..<i + Suc n})) = Max (insert (if ?e i > b then ?e i else b) (?e ` {Suc i..<Suc i + n}))"
    unfolding s by (cases "n = 0") (auto simp: max_def ac_simps)
  have mn: "Min (insert a (?v ` {i..<i + Suc n})) = Min (insert (if ?v i < a then ?v i else a) (?v ` {Suc i..<Suc i + n}))"
    unfolding s by (cases "n = 0") (auto simp: min_def ac_simps)
  have "(of_nat i :: u32) + 1 = of_nat (Suc i)" by simp
  then show ?case unfolding program_range.simps Let_def mx mn
    by (simp only: Suc.IH ph_end_def ph_at_def)
qed simp

text \<open>C19. The addresses of a loaded program reach from the lowest address to the highest end in its whole header table. When
  the segments are loaded, the program break of the task is the greatest end and its start the least address over all
  headers, those of segments that are not loaded included.\<close>

theorem elf_program_range:
  assumes load: "load_segments E fp hdr tab 0 s = Some (0, s1)"
    and n: "n = unat (hdr_pheader_amount (smem s1) hdr)" "0 < n"
    and t: "get_task (get_current_task (sy_s s1)) (sy_s s1) = Some t"
  shows "\<exists>s2 t'. elf_loop_over_program_table E fp hdr tab s = Some (0, s2) \<and>
    get_task (get_current_task (sy_s s2)) (sy_s s2) = Some t' \<and>
    t_program_break t' = Max ((\<lambda>i. ph_end (smem s1) (ph_at tab i)) ` {..<n}) \<and>
    t_program_start t' = Min ((\<lambda>i. ph_vaddr (smem s1) (ph_at tab i)) ` {..<n})"
proof -
  let ?m = "smem s1" and ?c = "get_current_task (sy_s s1)"
  let ?b = "Max ((\<lambda>i. ph_end ?m (ph_at tab i)) ` {..<n})" and ?a = "Min ((\<lambda>i. ph_vaddr ?m (ph_at tab i)) ` {..<n})"
  have "{..<n} = insert 0 {1..<1 + (n - 1)}" using n(2) by auto
  then have "program_range ?m tab 1 (ph_vaddr ?m tab + ph_memsize ?m tab) (ph_vaddr ?m tab) (n - 1) = (?b, ?a)"
    using program_range_max [of ?m tab 1 "ph_end ?m tab" "ph_vaddr ?m tab" "n - 1"] by (simp add: ph_end_def ph_at_def)
  moreover have "?c \<noteq> 0" using t by (auto simp: get_task_def)
  ultimately have "elf_loop_over_program_table E fp hdr tab s = Some (0, s1\<lparr>sy_s := set_task ?c (t\<lparr>t_program_break := ?b, t_program_start := ?a\<rparr>) (sy_s s1)\<rparr>)"
    using load t n
    by (simp add: elf_loop_over_program_table_def upd_current_def on_sched_def upd_task_def get_task_def set_task_def get_current_task_def Let_def)
  with \<open>?c \<noteq> 0\<close> show ?thesis by (simp add: get_task_def set_task_def get_current_task_def)
qed

text \<open>A program with a program header table at 0x08048034 and the stack header of GNU tools, which is all zero but its type.\<close>

definition elf_mem :: mem where
  "elf_mem = (\<lambda>_. 0)(0x102C := 2, 0x2000 := 6, 0x2008 := 0x34, 0x2009 := 0x80, 0x200A := 0x04, 0x200B := 0x08, 0x2014 := 0x40,
     0x2020 := 0x51, 0x2021 := 0xE5, 0x2022 := 0x74, 0x2023 := 0x64)"

definition env0 :: "unit env" where
  "env0 = \<lparr>en_ports = ports0, en_tty_write = (\<lambda>_ _ n s. Some (n, s)), en_fb_write = (\<lambda>_ _ n s. Some (n, s))\<rparr>"

lemma elf_mem_words: "ld16 elf_mem 0x102C = 2" "ld32 elf_mem 0x2000 = 6" "ld32 elf_mem 0x2008 = 0x08048034" "ld32 elf_mem 0x2010 = 0"
  "ld32 elf_mem 0x2014 = 0x40" "ld32 elf_mem 0x2020 = 0x6474E551" "ld32 elf_mem 0x2028 = 0" "ld32 elf_mem 0x2030 = 0" "ld32 elf_mem 0x2034 = 0"
  by (simp_all add: elf_mem_def ld32_def ld16_def)

theorem elf_program_range_witness:
  "\<exists>s2 t'. elf_loop_over_program_table env0 0 0x1000 0x2000 (set_mem elf_mem sys0) = Some (0, s2) \<and>
    get_task (get_current_task (sy_s s2)) (sy_s s2) = Some t' \<and> t_program_break t' = 0x08048074 \<and> t_program_start t' = 0"
proof -
  note d = hdr_pheader_amount_def ph_filesize_def ph_memsize_def ph_type_def ph_vaddr_def elf_mem_words
  let ?s = "set_mem elf_mem sys0"
  have 2: "{..<2 :: nat} = {0, 1}" by auto
  have n: "unat (hdr_pheader_amount (smem ?s) 0x1000) = Suc (Suc 0)" by (simp add: d)
  have "load_segments env0 0 0x1000 0x2000 2 ?s = Some (0, ?s)" by (subst load_segments.simps) (simp add: d)
  then have "load_segments env0 0 0x1000 0x2000 1 ?s = Some (0, ?s)" by (subst load_segments.simps) (simp add: d)
  then have l: "load_segments env0 0 0x1000 0x2000 0 ?s = Some (0, ?s)" by (subst load_segments.simps) (simp add: d)
  obtain t where "get_task (get_current_task (sy_s ?s)) (sy_s ?s) = Some t"
    by (simp add: set_mem_def set_kst_def sys0_def get_current_task_def get_task_def sched1_def)
  from elf_program_range [OF l _ _ this, of 2] n show ?thesis by (simp add: 2 ph_end_def ph_at_def d)
qed

end
