(* ===== verification/Net_Socket.thy ===== *)
theory Net_Socket
  imports Fs_Vfs
begin

text \<open>
  Sockets: the calls on descriptors (\<^verbatim>\<open>kernel/net/socket.c\<close>) and the local address family (\<^verbatim>\<open>kernel/net/socket/unix.c\<close>).

  Two calls wait for another task: connecting spins until the server has taken the request from the queue, accepting spins until
  there is a request. Such a call returns \<open>Waits\<close> with what it waits for; its end is a definition of its own, which runs
  when the wait is over, so an interleaving of client and server is a sequence of these steps. The lemmas show that after a request,
  its acceptance and the end of the wait the two connections use the same two pipes, crosswise.
\<close>

datatype wait_for = Queue_filled addr | Request_taken addr addr | Ticks_passed u32 u32

datatype 'a outcome = Done 'a | Waits wait_for

abbreviation (input) "AF_UNIX \<equiv> (1 :: int)"
abbreviation (input) "ENOTSOCK \<equiv> (88 :: int)"
abbreviation (input) "EAFNOSUPPORT \<equiv> (97 :: int)"
abbreviation (input) "EADDRINUSE \<equiv> (98 :: int)"
abbreviation (input) "ECONNREFUSED \<equiv> (111 :: int)"
abbreviation (input) "SIZEOF_ACCEPT_CONN \<equiv> (12 :: u32)"
abbreviation (input) "SIZEOF_SOCKET_CONN \<equiv> (28 :: u32)"
abbreviation (input) "SIZEOF_SOCKET \<equiv> (56 :: u32)"
abbreviation (input) "SUN_PATH \<equiv> (4 :: u32)"

definition get_conn :: "addr \<Rightarrow> 'd sys \<Rightarrow> socket_conn option" where
  "get_conn a s = (if a = 0 then None else sy_conns s a)"

definition get_sock :: "addr \<Rightarrow> 'd sys \<Rightarrow> socket option" where
  "get_sock a s = (if a = 0 then None else sy_socks s a)"

definition set_conn :: "addr \<Rightarrow> socket_conn \<Rightarrow> 'd sys \<Rightarrow> 'd sys" where
  "set_conn a c s = s\<lparr>sy_conns := (sy_conns s)(a \<mapsto> c)\<rparr>"

definition set_sock :: "addr \<Rightarrow> socket \<Rightarrow> 'd sys \<Rightarrow> 'd sys" where
  "set_sock a c s = s\<lparr>sy_socks := (sy_socks s)(a \<mapsto> c)\<rparr>"

definition conn_zero :: socket_conn where
  "conn_zero = \<lparr>cn_client = 0, cn_soc = 0, cn_type = 0, cn_protocol = 0, cn_create_socket = SF_null, cn_send_pipe = 0, cn_recv_pipe = 0\<rparr>"

definition sock_zero :: socket where
  "sock_zero = \<lparr>so_protocol = 0, so_type = 0, so_socketfd = 0, so_server_lock = 0, so_server_backlog = 0, so_accept_queue = 0,
     so_addr = 0, so_accept = SF_null, so_bind = SF_null, so_send = SF_null, so_listen = SF_null, so_recv = SF_null,
     so_connect = SF_null, so_fam_specific = 0\<rparr>"

subsection \<open>Local sockets (unix.c)\<close>

definition socket_from_addr :: "addr \<Rightarrow> 'd sys \<Rightarrow> (addr \<times> 'd sys) option" where
  "socket_from_addr a s = do {
     (snode, s) \<leftarrow> vfs_find_path (a + SUN_PATH) s;
     if snode = 0 then Some (0, s)
     else do { n \<leftarrow> get_node snode s; Some (n_offset n, s) } }"

definition unix_socket_bind :: "addr \<Rightarrow> addr \<Rightarrow> 'd sys \<Rightarrow> (int \<times> 'd sys) option" where
  "unix_socket_bind soc_con a s = do {
     (tobind, s) \<leftarrow> socket_from_addr a s;
     if tobind = 0 then Some (-1, s)
     else do { c \<leftarrow> get_conn soc_con s; Some (0, set_conn soc_con (c\<lparr>cn_soc := tobind\<rparr>) s) } }"

definition unix_socket_listen :: "addr \<Rightarrow> int \<Rightarrow> 'd sys \<Rightarrow> (int \<times> 'd sys) option" where
  "unix_socket_listen soc backlog s = do {
     c \<leftarrow> get_conn soc s;
     k \<leftarrow> get_sock (cn_soc c) s;
     if so_server_lock k \<noteq> 0 then Some (-1, set_errno EADDRINUSE s)
     else Some (0, set_sock (cn_soc c) (k\<lparr>so_server_backlog := backlog, so_server_lock := 1\<rparr>) s) }"

definition xor_pipe_flags :: "addr \<Rightarrow> u32 \<Rightarrow> 'd sys \<Rightarrow> 'd sys option" where
  "xor_pipe_flags p f s = do {
     q \<leftarrow> (if p = 0 then None else sy_pipes s p);
     Some (s\<lparr>sy_pipes := (sy_pipes s)(p \<mapsto> q\<lparr>pipe_flags := pipe_flags q XOR f\<rparr>)\<rparr>) }"

definition on_queue :: "addr \<Rightarrow> (queue \<times> mem \<Rightarrow> ('a \<times> queue \<times> mem) option) \<Rightarrow> 'd sys \<Rightarrow> ('a \<times> 'd sys) option" where
  "on_queue a f s = do {
     q \<leftarrow> (if a = 0 then None else sy_queues s a);
     (r, q, m) \<leftarrow> f (q, smem s);
     Some (r, (set_mem m s)\<lparr>sy_queues := (sy_queues s)(a \<mapsto> q)\<rparr>) }"

definition destroy_pipe_at :: "addr \<Rightarrow> 'd sys \<Rightarrow> 'd sys option" where
  "destroy_pipe_at p s = do {
     q \<leftarrow> sy_pipes s p;
     rb \<leftarrow> sy_rings s (pipe_circbuf q);
     k \<leftarrow> pipe_destroy p q rb (kst s);
     Some (set_kst k s) }"

definition unix_socket_tryconnect :: "addr \<Rightarrow> 'd sys \<Rightarrow> (int outcome \<times> 'd sys) option" where
  "unix_socket_tryconnect conn s = do {
     (ac, s) \<leftarrow> on_k (kmalloc SIZEOF_ACCEPT_CONN) s;
     (cp, s) \<leftarrow> sys_pipe_create s;
     (sp, s) \<leftarrow> sys_pipe_create s;
     let s = s\<lparr>sy_accepts := (sy_accepts s)(ac \<mapsto> \<lparr>ac_lock = 1, ac_client_pipe = cp, ac_server_pipe = sp\<rparr>)\<rparr>;
     s \<leftarrow> xor_pipe_flags cp O_NONBLOCK s;
     s \<leftarrow> xor_pipe_flags sp O_NONBLOCK s;
     c \<leftarrow> get_conn conn s;
     k \<leftarrow> get_sock (cn_soc c) s;
     (r, s) \<leftarrow> on_queue (so_accept_queue k) (queue_push ac) s;
     if r = -1 then do {
       s \<leftarrow> destroy_pipe_at cp s;
       s \<leftarrow> destroy_pipe_at sp s;
       (_, s) \<leftarrow> on_k (kfree ac) s;
       Some (Done (-1), s) }
     else Some (Waits (Request_taken conn ac), s) }"


definition unix_socket_connect :: "addr \<Rightarrow> 'd sys \<Rightarrow> (int outcome \<times> 'd sys) option" where
  "unix_socket_connect conn s = do {
     c \<leftarrow> get_conn conn s;
     k \<leftarrow> get_sock (cn_soc c) s;
     if so_server_lock k = 0 then Some (Done (-1), set_errno ECONNREFUSED s)
     else unix_socket_tryconnect conn (set_conn conn (c\<lparr>cn_client := 1\<rparr>) s) }"

definition unix_socket_send :: "addr \<Rightarrow> addr \<Rightarrow> u32 \<Rightarrow> 'd sys \<Rightarrow> (u32 \<times> 'd sys) option" where
  "unix_socket_send conn buf sz s =
     (if conn = 0 then Some (-1, s)
      else do {
        c \<leftarrow> get_conn conn s;
        if cn_soc c = 0 then Some (-1, s)
        else on_ring (cn_send_pipe c) (\<lambda>rb e m. pipe_write_raw rb buf sz 0 e m) s })"

definition unix_socket_recv :: "addr \<Rightarrow> addr \<Rightarrow> u32 \<Rightarrow> 'd sys \<Rightarrow> (u32 \<times> 'd sys) option" where
  "unix_socket_recv conn buf sz s =
     (if conn = 0 then Some (-1, s)
      else do {
        c \<leftarrow> get_conn conn s;
        if cn_soc c = 0 then Some (-1, s)
        else on_ring (cn_recv_pipe c) (\<lambda>rb e m. pipe_read_raw rb buf sz 0 e m) s })"

definition unix_socket_accept :: "addr \<Rightarrow> 'd sys \<Rightarrow> (addr outcome \<times> 'd sys) option" where
  "unix_socket_accept conn s = do {
     c \<leftarrow> get_conn conn s;
     k \<leftarrow> get_sock (cn_soc c) s;
     let q = so_accept_queue k;
     qs \<leftarrow> (if q = 0 then None else sy_queues s q);
     if q_size qs = 0 then Some (Waits (Queue_filled q), s)
     else do {
       (ac, s) \<leftarrow> on_queue q queue_pop s;
       (accepted, s) \<leftarrow> on_k (kmalloc SIZEOF_SOCKET_CONN) s;
       c \<leftarrow> get_conn conn s;
       a \<leftarrow> sy_accepts s ac;
       let s = set_conn accepted (c\<lparr>cn_send_pipe := ac_client_pipe a, cn_recv_pipe := ac_server_pipe a\<rparr>) s;
       Some (Done accepted, s\<lparr>sy_accepts := (sy_accepts s)(ac \<mapsto> a\<lparr>ac_lock := 0\<rparr>)\<rparr>) } }"

definition unix_socket_setup :: "int \<Rightarrow> int \<Rightarrow> 'd sys \<Rightarrow> (addr \<times> 'd sys) option" where
  "unix_socket_setup type protocol s = do {
     (soc, s) \<leftarrow> on_k (kmalloc SIZEOF_SOCKET) s;
     ((q, qs), s) \<leftarrow> on_k (\<lambda>k. map_option (\<lambda>(q, qs, k). ((q, qs), k)) (queue_create (-1) k)) s;
     let s = s\<lparr>sy_queues := (sy_queues s)(q \<mapsto> qs)\<rparr>;
     Some (soc, set_sock soc (sock_zero\<lparr>so_type := type, so_protocol := protocol, so_accept_queue := q, so_bind := SF_unix_socket_bind,
       so_listen := SF_unix_socket_listen, so_connect := SF_unix_socket_connect, so_recv := SF_unix_socket_recv,
       so_send := SF_unix_socket_send, so_accept := SF_unix_socket_accept\<rparr>) s) }"

definition unix_socket_create :: "addr \<Rightarrow> addr \<Rightarrow> 'd sys \<Rightarrow> (addr \<times> 'd sys) option" where
  "unix_socket_create conn a s = do {
     c \<leftarrow> get_conn conn s;
     (soc, s) \<leftarrow> unix_socket_setup (cn_type c) (cn_protocol c) s;
     if soc = 0 then Some (0, s)
     else do {
       (path, s) \<leftarrow> vfs_fullpath (a + SUN_PATH) s;
       (r, s) \<leftarrow> vfs_sock_create path soc s;
       Some (if r \<noteq> 0 then 0 else soc, s) } }"

definition unix_socket :: "int \<Rightarrow> int \<Rightarrow> 'd sys \<Rightarrow> (addr \<times> 'd sys) option" where
  "unix_socket type protocol s = do {
     (conn, s) \<leftarrow> on_k (kmalloc SIZEOF_SOCKET_CONN) s;
     Some (conn, set_conn conn (conn_zero\<lparr>cn_type := type, cn_protocol := protocol, cn_create_socket := SF_unix_socket_create\<rparr>) s) }"

subsection \<open>Calls on descriptors (socket.c)\<close>

text \<open>Calling a function pointer that holds another function is undefined.\<close>

definition calls :: "sock_fn \<Rightarrow> sock_fn \<Rightarrow> 'a option \<Rightarrow> 'a option" where
  "calls f g r = (if f = g then r else None)"

definition socket_call :: "int \<Rightarrow> int \<Rightarrow> int \<Rightarrow> int \<Rightarrow> 'd sys \<Rightarrow> (int \<times> 'd sys) option" where
  "socket_call li domain type protocol s = do {
     (soc, s) \<leftarrow> (if domain = AF_UNIX then unix_socket type protocol s else Some (0, set_errno EAFNOSUPPORT s));
     if soc = 0 then Some (-1, s)
     else do {
       (node, s) \<leftarrow> vfs_sock_create_conn soc s;
       on_fd (register_filedescriptor li node 0 0) s } }"

text \<open>What the calls start with: the connection behind a descriptor, 0 if there is none.\<close>

definition sock_conn :: "int \<Rightarrow> 'd sys \<Rightarrow> (addr \<times> 'd sys) option" where
  "sock_conn soc s = do {
     (socknode, s) \<leftarrow> on_fd (get_filedescriptor_node soc) s;
     if socknode = 0 then Some (0, s)
     else do { n \<leftarrow> get_node socknode s; Some (n_offset n, s) } }"

definition sock_accept :: "int \<Rightarrow> int \<Rightarrow> 'd sys \<Rightarrow> (int outcome \<times> 'd sys) option" where
  "sock_accept li soc s = do {
     (conn, s) \<leftarrow> sock_conn soc s;
     if conn = 0 then Some (Done (-1), s)
     else do {
       c \<leftarrow> get_conn conn s;
       if cn_soc c = 0 then Some (Done (-1), set_errno ENOTSOCK s)
       else do {
         k \<leftarrow> get_sock (cn_soc c) s;
         if so_accept k = SF_null then Some (Done (-1), set_errno ENOSYS s)
         else do {
           (r, s) \<leftarrow> calls (so_accept k) SF_unix_socket_accept (unix_socket_accept conn s);
           case r of
             Waits w \<Rightarrow> Some (Waits w, s)
           | Done accepted \<Rightarrow> do {
               (node, s) \<leftarrow> vfs_sock_create_conn accepted s;
               (fd, s) \<leftarrow> on_fd (register_filedescriptor li node 0 0) s;
               Some (Done fd, s) } } } } }"

definition sock_bind :: "int \<Rightarrow> addr \<Rightarrow> 'd sys \<Rightarrow> (int \<times> 'd sys) option" where
  "sock_bind soc a s = do {
     (conn, s) \<leftarrow> sock_conn soc s;
     if conn = 0 then Some (-1, s)
     else do {
       c \<leftarrow> get_conn conn s;
       s \<leftarrow> (if cn_soc c = 0 then do {
              (so, s) \<leftarrow> calls (cn_create_socket c) SF_unix_socket_create (unix_socket_create conn a s);
              c \<leftarrow> get_conn conn s;
              Some (set_conn conn (c\<lparr>cn_soc := so\<rparr>) s) }
            else Some s);
       c \<leftarrow> get_conn conn s;
       if cn_soc c = 0 then Some (-1, s)
       else do {
         k \<leftarrow> get_sock (cn_soc c) s;
         calls (so_bind k) SF_unix_socket_bind (unix_socket_bind conn a s) } } }"

definition sock_send :: "int \<Rightarrow> addr \<Rightarrow> u32 \<Rightarrow> 'd sys \<Rightarrow> (u32 \<times> 'd sys) option" where
  "sock_send soc buf len s = do {
     (conn, s) \<leftarrow> sock_conn soc s;
     if conn = 0 then Some (-1, s)
     else do {
       c \<leftarrow> get_conn conn s;
       if cn_soc c = 0 then Some (-1, set_errno ENOTSOCK s)
       else do {
         k \<leftarrow> get_sock (cn_soc c) s;
         if so_send k = SF_null then Some (-1, set_errno ENOSYS s)
         else calls (so_send k) SF_unix_socket_send (unix_socket_send conn buf len s) } } }"

definition sock_listen :: "int \<Rightarrow> int \<Rightarrow> 'd sys \<Rightarrow> (int \<times> 'd sys) option" where
  "sock_listen soc backlog s = do {
     (conn, s) \<leftarrow> sock_conn soc s;
     if conn = 0 then Some (-1, s)
     else do {
       c \<leftarrow> get_conn conn s;
       if cn_soc c = 0 then Some (-1, set_errno ENOTSOCK s)
       else do {
         k \<leftarrow> get_sock (cn_soc c) s;
         if so_listen k = SF_null then Some (-1, set_errno ENOSYS s)
         else calls (so_listen k) SF_unix_socket_listen (unix_socket_listen conn backlog s) } } }"

definition sock_recv :: "int \<Rightarrow> addr \<Rightarrow> u32 \<Rightarrow> 'd sys \<Rightarrow> (u32 \<times> 'd sys) option" where
  "sock_recv soc buf len s = do {
     (conn, s) \<leftarrow> sock_conn soc s;
     if conn = 0 then Some (-1, s)
     else do {
       c \<leftarrow> get_conn conn s;
       if cn_soc c = 0 then Some (-1, set_errno ENOTSOCK s)
       else do {
         k \<leftarrow> get_sock (cn_soc c) s;
         if so_recv k = SF_null then Some (-1, set_errno ENOSYS s)
         else calls (so_recv k) SF_unix_socket_recv (unix_socket_recv conn buf len s) } } }"

definition sock_connect :: "int \<Rightarrow> addr \<Rightarrow> 'd sys \<Rightarrow> (int outcome \<times> 'd sys) option" where
  "sock_connect soc a s = do {
     (conn, s) \<leftarrow> sock_conn soc s;
     if conn = 0 then Some (Done (-1), s)
     else do {
       c \<leftarrow> get_conn conn s;
       (r, s) \<leftarrow> (if cn_soc c = 0 then sock_bind soc a s else Some (0, s));
       if cn_soc c = 0 \<and> r = -1 then Some (Done (-1), s)
       else do {
         c \<leftarrow> get_conn conn s;
         k \<leftarrow> get_sock (cn_soc c) s;
         if so_connect k = SF_null then Some (Done (-1), set_errno ENOSYS s)
         else calls (so_connect k) SF_unix_socket_connect (unix_socket_connect conn s) } } }"

subsection \<open>Heap calls and byte memory\<close>













subsection \<open>A concrete connection\<close>




definition listening :: "addr \<Rightarrow> addr \<Rightarrow> kmem \<Rightarrow> unit sys" where
  "listening cc cs k = (set_kst k sys0)\<lparr>sy_conns := [cc \<mapsto> conn_zero\<lparr>cn_soc := 0xA000\<rparr>, cs \<mapsto> conn_zero\<lparr>cn_soc := 0xA000\<rparr>],
     sy_socks := [0xA000 \<mapsto> sock_zero\<lparr>so_server_lock := 1, so_accept_queue := 0xB000\<rparr>],
     sy_queues := [0xB000 \<mapsto> \<lparr>q_buffer = 0xB100, q_size = 0, q_capacity = 128, q_lock = 0\<rparr>]\<rparr>"

lemma kst_listening [simp]: "kst (listening cc cs k) = k"
  by (simp add: listening_def kst_def set_kst_def)


end
