(* ===== verification/Arch_Cpu.thy ===== *)
theory Arch_Cpu
  imports Sys_State
begin

text \<open>
  The processor tables and the interrupt hardware of \<^verbatim>\<open>kernel/arch/i386/cpu\<close>: segment descriptors and the task state segment
  (\<^verbatim>\<open>gdt.c\<close>), interrupt gates (\<^verbatim>\<open>idt.c\<close>), the interrupt controller and the timer chip (\<^verbatim>\<open>pic.c\<close>, \<^verbatim>\<open>apic.c\<close>, \<^verbatim>\<open>ic.c\<close>,
  \<^verbatim>\<open>pit.c\<close>, \<^verbatim>\<open>timer.c\<close>) and the dispatch of interrupts (\<^verbatim>\<open>isr.c\<close>).

  The addresses of the assembly entry points and of the tables themselves are chosen by the linker, \<open>cp_sym\<close>. An index outside of
  a table is undefined. The functions in \<open>interrupt_handlers\<close> belong to other components, so the two handlers take
  as an argument what calling one of them does.
\<close>

subsection \<open>Data\<close>

record gdt_entry =
  g_limit_low :: u16
  g_base_low :: u16
  g_base_middle :: u8
  g_access :: u8
  g_granularity :: u8
  g_base_high :: u8

record descriptor_ptr =
  dp_limit :: u16
  dp_base :: u32

record tss_entry =
  tss_prev_tss :: u32
  tss_esp0 :: u32
  tss_ss0 :: u32
  tss_esp1 :: u32
  tss_ss1 :: u32
  tss_esp2 :: u32
  tss_ss2 :: u32
  tss_cr3 :: u32
  tss_eip :: u32
  tss_eflags :: u32
  tss_eax :: u32
  tss_ecx :: u32
  tss_edx :: u32
  tss_ebx :: u32
  tss_esp :: u32
  tss_ebp :: u32
  tss_esi :: u32
  tss_edi :: u32
  tss_es :: u32
  tss_cs :: u32
  tss_ss :: u32
  tss_ds :: u32
  tss_fs :: u32
  tss_gs :: u32
  tss_ldt :: u32
  tss_trap :: u16
  tss_iomap_base :: u16

record idt_gate =
  i_low_offset :: u16
  i_sel :: u16
  i_zero :: u8
  i_flags :: u8
  i_high_offset :: u16

record registers =
  r_ds :: u32
  r_edi :: u32
  r_esi :: u32
  r_ebp :: u32
  r_useless :: u32
  r_ebx :: u32
  r_edx :: u32
  r_ecx :: u32
  r_eax :: u32
  r_int_no :: u32
  r_err_code :: u32
  r_eip :: u32
  r_cs :: u32
  r_eflags :: u32
  r_esp :: u32
  r_ss :: u32

datatype isr_fn = IH_null | IH_timer_callback | IH_page_fault | IH_syscall_handler | IH_rtl8139_interrupt_handler | IH_keyboard_callback

record 'd cpu =
  cp_sys :: "'d sys"
  cp_sym :: "string \<Rightarrow> addr"
  gdt_entries :: "gdt_entry list"
  gdt_ptr :: descriptor_ptr
  tss_entries :: "tss_entry list"
  loaded_gdt :: addr
  loaded_tss :: u32
  idt :: "idt_gate list"
  idt_reg :: descriptor_ptr
  loaded_idt :: addr
  interrupt_handlers :: "u8 \<Rightarrow> isr_fn"
  g_latest_irq :: u32
  apic :: int
  g_pit_frequency :: u32

abbreviation (input) "GDT_AMOUNT \<equiv> (6 :: u32)"
abbreviation (input) "IDT_ENTRIES \<equiv> (256 :: u32)"
abbreviation (input) "KERNEL_CS \<equiv> (8 :: u16)"
abbreviation (input) "SIZEOF_GDT_ENTRY \<equiv> (8 :: u32)"
abbreviation (input) "SIZEOF_TSS_ENTRY \<equiv> (104 :: u32)"
abbreviation (input) "SIZEOF_IDT_GATE \<equiv> (8 :: u32)"

definition on_dev :: "('d sys \<Rightarrow> 'd sys) \<Rightarrow> 'd cpu \<Rightarrow> 'd cpu" where
  "on_dev f c = c\<lparr>cp_sys := f (cp_sys c)\<rparr>"

definition tab_set :: "int \<Rightarrow> 'a \<Rightarrow> 'a list \<Rightarrow> 'a list option" where
  "tab_set n x xs = (if 0 \<le> n \<and> n < int (length xs) then Some (xs[nat n := x]) else None)"

subsection \<open>Segment descriptors and the task state segment (gdt.c)\<close>

definition gdt_set_gate :: "int \<Rightarrow> u32 \<Rightarrow> u32 \<Rightarrow> u8 \<Rightarrow> u8 \<Rightarrow> 'd cpu \<Rightarrow> 'd cpu option" where
  "gdt_set_gate num base limit acc gran c = do {
     g \<leftarrow> tab_set num
       \<lparr>g_limit_low = ucast (limit AND 0xFFFF),
        g_base_low = ucast (base AND 0xFFFF),
        g_base_middle = ucast (drop_bit 16 base AND 0xFF),
        g_access = acc,
        g_granularity = ucast (drop_bit 16 limit AND 0x0F) OR (gran AND 0xF0),
        g_base_high = ucast (drop_bit 24 base AND 0xFF)\<rparr> (gdt_entries c);
     Some (c\<lparr>gdt_entries := g\<rparr>) }"

definition tss_zero :: tss_entry where
  "tss_zero = \<lparr>tss_prev_tss = 0, tss_esp0 = 0, tss_ss0 = 0, tss_esp1 = 0, tss_ss1 = 0, tss_esp2 = 0, tss_ss2 = 0, tss_cr3 = 0,
     tss_eip = 0, tss_eflags = 0, tss_eax = 0, tss_ecx = 0, tss_edx = 0, tss_ebx = 0, tss_esp = 0, tss_ebp = 0, tss_esi = 0,
     tss_edi = 0, tss_es = 0, tss_cs = 0, tss_ss = 0, tss_ds = 0, tss_fs = 0, tss_gs = 0, tss_ldt = 0, tss_trap = 0,
     tss_iomap_base = 0\<rparr>"

definition write_tss :: "int \<Rightarrow> int \<Rightarrow> u16 \<Rightarrow> u32 \<Rightarrow> 'd cpu \<Rightarrow> 'd cpu option" where
  "write_tss num gatenum ss0 esp0 c = do {
     let base = cp_sym c ''tss_entries'' + SIZEOF_TSS_ENTRY * word_of_int num;
     let limit = base + SIZEOF_TSS_ENTRY;
     c \<leftarrow> gdt_set_gate gatenum base limit 0xE9 0x00 c;
     t \<leftarrow> tab_set num (tss_zero\<lparr>tss_ss0 := ucast ss0, tss_esp0 := esp0, tss_cs := 0x0B,
       tss_ss := 0x13, tss_ds := 0x13, tss_es := 0x13, tss_fs := 0x13, tss_gs := 0x13,
       tss_iomap_base := ucast SIZEOF_TSS_ENTRY\<rparr>) (tss_entries c);
     Some (c\<lparr>tss_entries := t\<rparr>) }"

definition init_gdt :: "'d cpu \<Rightarrow> 'd cpu option" where
  "init_gdt c = do {
     let c = c\<lparr>gdt_ptr := \<lparr>dp_limit = ucast (SIZEOF_GDT_ENTRY * GDT_AMOUNT - 1), dp_base = cp_sym c ''gdt_entries''\<rparr>\<rparr>;
     c \<leftarrow> gdt_set_gate 0 0 0 0 0 c;
     c \<leftarrow> gdt_set_gate 1 0 0xFFFFFFFF 0x9A 0xCF c;
     c \<leftarrow> gdt_set_gate 2 0 0xFFFFFFFF 0x92 0xCF c;
     c \<leftarrow> gdt_set_gate 3 0 0xFFFFFFFF 0xFA 0xCF c;
     c \<leftarrow> gdt_set_gate 4 0 0xFFFFFFFF 0xF2 0xCF c;
     c \<leftarrow> write_tss 0 5 0x10 0 c;
     Some (c\<lparr>loaded_gdt := cp_sym c ''gdt_ptr'', loaded_tss := 0x28\<rparr>) }"

definition tss_set_kernel_stack :: "u32 \<Rightarrow> 'd cpu \<Rightarrow> 'd cpu option" where
  "tss_set_kernel_stack stack c = (case tss_entries c of
     [] \<Rightarrow> None
   | t # ts \<Rightarrow> Some (c\<lparr>tss_entries := t\<lparr>tss_ss0 := 0x10, tss_esp0 := stack\<rparr> # ts\<rparr>))"

definition init_descriptor_tables :: "'d cpu \<Rightarrow> 'd cpu option" where
  "init_descriptor_tables c = init_gdt c"

subsection \<open>Interrupt gates (idt.c)\<close>

definition low16 :: "u32 \<Rightarrow> u16" where
  "low16 a = ucast (a AND 0xFFFF)"

definition high16 :: "u32 \<Rightarrow> u16" where
  "high16 a = ucast (drop_bit 16 a AND 0xFFFF)"

definition set_idt_gate :: "int \<Rightarrow> u32 \<Rightarrow> 'd cpu \<Rightarrow> 'd cpu option" where
  "set_idt_gate n handler c = do {
     t \<leftarrow> tab_set n \<lparr>i_low_offset = low16 handler, i_sel = KERNEL_CS, i_zero = 0, i_flags = 0x8e OR 0x60,
       i_high_offset = high16 handler\<rparr> (idt c);
     Some (c\<lparr>idt := t\<rparr>) }"

definition set_task_gate :: "int \<Rightarrow> u32 \<Rightarrow> 'd cpu \<Rightarrow> 'd cpu option" where
  "set_task_gate n handler c = do {
     t \<leftarrow> tab_set n \<lparr>i_low_offset = 0, i_sel = 0x28, i_zero = 0, i_flags = 0x85, i_high_offset = 0\<rparr> (idt c);
     Some (c\<lparr>idt := t\<rparr>) }"

definition set_idt :: "'d cpu \<Rightarrow> 'd cpu" where
  "set_idt c = c\<lparr>idt_reg := \<lparr>dp_limit = ucast (IDT_ENTRIES * SIZEOF_IDT_GATE - 1), dp_base = cp_sym c ''idt''\<rparr>,
     loaded_idt := cp_sym c ''idt_reg''\<rparr>"

subsection \<open>Interrupt controller and timer chip (pic.c, apic.c, ic.c, pit.c, timer.c)\<close>

abbreviation (input) "PIC_MASTER_CMD \<equiv> (0x20 :: u32)"
abbreviation (input) "PIC_MASTER_DATA \<equiv> (0x21 :: u32)"
abbreviation (input) "PIC_SLAVE_CMD \<equiv> (0xA0 :: u32)"
abbreviation (input) "PIC_SLAVE_DATA \<equiv> (0xA1 :: u32)"
abbreviation (input) "PIC_CMD_EOI \<equiv> (0x20 :: u32)"

definition pic_remap :: "'d ports \<Rightarrow> u8 \<Rightarrow> u8 \<Rightarrow> 'd cpu \<Rightarrow> 'd cpu" where
  "pic_remap P master_offset slave_offset = on_dev (\<lambda>s.
     let s = outb P PIC_MASTER_CMD 0x11 s;
         s = outb P PIC_SLAVE_CMD 0x11 s;
         s = outb P PIC_MASTER_DATA (ucast master_offset) s;
         s = outb P PIC_SLAVE_DATA (ucast slave_offset) s;
         s = outb P PIC_MASTER_DATA 4 s;
         s = outb P PIC_SLAVE_DATA 2 s;
         s = outb P PIC_MASTER_DATA 1 s;
         s = outb P PIC_SLAVE_DATA 1 s;
         s = outb P PIC_MASTER_DATA 0 s in
     outb P PIC_SLAVE_DATA 0 s)"

definition pic_send_eio :: "'d ports \<Rightarrow> u32 \<Rightarrow> 'd cpu \<Rightarrow> 'd cpu" where
  "pic_send_eio P irq = on_dev (\<lambda>s.
     let s = (if irq \<ge> 8 then outb P PIC_SLAVE_CMD PIC_CMD_EOI s else s) in
     outb P PIC_MASTER_CMD PIC_CMD_EOI s)"

definition init_pic :: int where
  "init_pic = 0"

definition init_apic :: int where
  "init_apic = -1"

definition apic_send_eio :: "u32 \<Rightarrow> 'd cpu \<Rightarrow> 'd cpu" where
  "apic_send_eio irq c = c"

definition init_ic :: "'d cpu \<Rightarrow> 'd cpu" where
  "init_ic c = (let c = c\<lparr>apic := 0\<rparr> in if init_apic = -1 then c else c\<lparr>apic := 1\<rparr>)"

definition ic_send_eio :: "'d ports \<Rightarrow> u32 \<Rightarrow> 'd cpu \<Rightarrow> 'd cpu" where
  "ic_send_eio P irq c = (if apic c \<noteq> 0 then apic_send_eio irq c else pic_send_eio P irq c)"

definition arch_register_interrupt_handler :: "u8 \<Rightarrow> isr_fn \<Rightarrow> 'd cpu \<Rightarrow> 'd cpu" where
  "arch_register_interrupt_handler n handler c = c\<lparr>interrupt_handlers := (interrupt_handlers c)(n := handler)\<rparr>"

abbreviation (input) "PIT_INPUT_FREQ \<equiv> (1193180 :: u32)"

definition init_pit :: "'d ports \<Rightarrow> u32 \<Rightarrow> isr_fn \<Rightarrow> 'd cpu \<Rightarrow> 'd cpu option" where
  "init_pit P freq callback c =
     (let c = arch_register_interrupt_handler 32 callback c in
      if freq = 0 then None
      else
        let divisor = PIT_INPUT_FREQ div freq;
            low = divisor AND 0xFF;
            high = drop_bit 8 divisor AND 0xFF;
            c = on_dev (\<lambda>s. outb P 0x40 high (outb P 0x40 low (outb P 0x43 0x36 s))) c in
        Some (c\<lparr>g_pit_frequency := freq\<rparr>))"

definition pit_get_freq :: "'d cpu \<Rightarrow> u32" where
  "pit_get_freq c = g_pit_frequency c"

definition arch_init_timer :: "'d ports \<Rightarrow> u32 \<Rightarrow> isr_fn \<Rightarrow> 'd cpu \<Rightarrow> 'd cpu option" where
  "arch_init_timer P frequency callback c = init_pit P frequency callback c"

definition arch_timer_get_frequency :: "'d cpu \<Rightarrow> u32" where
  "arch_timer_get_frequency c = pit_get_freq c"

subsection \<open>Dispatch (isr.c)\<close>

fun set_gates :: "(int \<times> string) list \<Rightarrow> 'd cpu \<Rightarrow> 'd cpu option" where
  "set_gates [] c = Some c"
| "set_gates ((n, h) # gs) c = do { c \<leftarrow> set_idt_gate n (cp_sym c h) c; set_gates gs c }"

definition isr_gates :: "(int \<times> string) list" where
  "isr_gates = [(0, ''isr0''), (1, ''isr1''), (2, ''isr2''), (3, ''isr3''), (4, ''isr4''), (5, ''isr5''), (6, ''isr6''), (7, ''isr7''),
     (8, ''isr8''), (9, ''isr9''), (10, ''isr10''), (11, ''isr11''), (12, ''isr12''), (13, ''isr13''), (14, ''isr14''), (15, ''isr15''),
     (16, ''isr16''), (17, ''isr17''), (18, ''isr18''), (19, ''isr19''), (20, ''isr20''), (21, ''isr21''), (22, ''isr22''),
     (23, ''isr23''), (24, ''isr24''), (25, ''isr25''), (26, ''isr26''), (27, ''isr27''), (28, ''isr28''), (29, ''isr29''),
     (30, ''isr30''), (31, ''isr31''), (128, ''isr128'')]"

definition irq_gates :: "(int \<times> string) list" where
  "irq_gates = [(32, ''irq0''), (33, ''irq1''), (34, ''irq2''), (35, ''irq3''), (36, ''irq4''), (37, ''irq5''), (38, ''irq6''), (39, ''irq7''),
     (40, ''irq8''), (41, ''irq9''), (42, ''irq10''), (43, ''irq11''), (44, ''irq12''), (45, ''irq13''), (46, ''irq14''), (47, ''irq15'')]"

definition isr_install :: "'d ports \<Rightarrow> 'd cpu \<Rightarrow> 'd cpu option" where
  "isr_install P c = do {
     c \<leftarrow> set_gates isr_gates c;
     let c = pic_remap P 0x20 0x28 c;
     c \<leftarrow> set_gates irq_gates c;
     Some (set_idt c) }"

text \<open>An interrupt without a handler halts the processor.\<close>

definition isr_handler :: "(isr_fn \<Rightarrow> registers \<Rightarrow> 'd cpu \<Rightarrow> 'd cpu option) \<Rightarrow> registers \<Rightarrow> 'd cpu \<Rightarrow> 'd cpu option" where
  "isr_handler call r c =
     (let h = interrupt_handlers c (ucast (r_int_no r AND 0xFF)) in
      if h = IH_null then None else call h r c)"

definition end_of_interrupt :: "'d ports \<Rightarrow> 'd cpu \<Rightarrow> 'd cpu" where
  "end_of_interrupt P c = ic_send_eio P (g_latest_irq c) c"

definition irq_handler :: "'d ports \<Rightarrow> (isr_fn \<Rightarrow> registers \<Rightarrow> 'd cpu \<Rightarrow> 'd cpu option) \<Rightarrow> registers \<Rightarrow> 'd cpu \<Rightarrow> 'd cpu option" where
  "irq_handler P call r c = do {
     let c = c\<lparr>g_latest_irq := r_int_no r - 32\<rparr>;
     if r_int_no r \<ge> 256 then None
     else do {
       let h = interrupt_handlers c (ucast (r_int_no r));
       c \<leftarrow> (if h \<noteq> IH_null then call h r c else Some c);
       Some (end_of_interrupt P c) } }"

definition arch_init :: "'d ports \<Rightarrow> 'd cpu \<Rightarrow> (int \<times> 'd cpu) option" where
  "arch_init P c = do {
     c \<leftarrow> init_descriptor_tables c;
     c \<leftarrow> isr_install P c;
     Some (0, init_ic c) }"

subsection \<open>What the processor reads from the tables\<close>

definition gdt_base :: "gdt_entry \<Rightarrow> u32" where
  "gdt_base e = ucast (g_base_low e) OR push_bit 16 (ucast (g_base_middle e)) OR push_bit 24 (ucast (g_base_high e))"

definition gdt_limit :: "gdt_entry \<Rightarrow> u32" where
  "gdt_limit e = ucast (g_limit_low e) OR push_bit 16 (ucast (g_granularity e AND 0x0F))"





lemma bit_masks: "bit (0xFF :: int) n \<longleftrightarrow> n < 8" "bit (0xFFFF :: int) n \<longleftrightarrow> n < 16" "bit (0x0F :: int) n \<longleftrightarrow> n < 4"
  "bit (0xFFFFF :: int) n \<longleftrightarrow> n < 20" "bit (0xF0 :: int) n \<longleftrightarrow> 4 \<le> n \<and> n < 8"
proof -
  have m: "(0xFF :: int) = mask 8" "(0xFFFF :: int) = mask 16" "(0x0F :: int) = mask 4" "(0xFFFFF :: int) = mask 20"
    "(0xF0 :: int) = push_bit 4 (mask 4)"
    by (simp_all add: mask_eq_exp_minus_1 push_bit_eq_mult)
  show "bit (0xFF :: int) n \<longleftrightarrow> n < 8" unfolding m by (simp add: bit_mask_iff)
  show "bit (0xFFFF :: int) n \<longleftrightarrow> n < 16" unfolding m by (simp add: bit_mask_iff)
  show "bit (0x0F :: int) n \<longleftrightarrow> n < 4" unfolding m by (simp add: bit_mask_iff)
  show "bit (0xFFFFF :: int) n \<longleftrightarrow> n < 20" unfolding m by (simp add: bit_mask_iff)
  show "bit (0xF0 :: int) n \<longleftrightarrow> 4 \<le> n \<and> n < 8" unfolding m by (auto simp: bit_push_bit_iff bit_mask_iff)
qed

lemma split_base: "ucast (ucast (base AND 0xFFFF) :: u16) OR push_bit 16 (ucast (ucast (drop_bit 16 base AND 0xFF) :: u8))
    OR push_bit 24 (ucast (ucast (drop_bit 24 base AND 0xFF) :: u8)) = (base :: u32)" (is "?l = _")
proof (rule bit_word_eqI)
  fix n assume n: "n < LENGTH(32)"
  note b = bit_or_iff bit_and_iff bit_ucast_iff bit_push_bit_iff bit_drop_bit_eq bit_masks
  consider "n < 16" | "16 \<le> n" "n < 24" | "24 \<le> n" by linarith
  then show "bit ?l n \<longleftrightarrow> bit base n" using n by cases (auto simp: b)
qed

lemma split_limit: "ucast (ucast (limit AND 0xFFFF) :: u16) OR
    push_bit 16 (ucast ((ucast (drop_bit 16 limit AND 0x0F) OR (gran AND 0xF0) :: u8) AND 0x0F)) = (limit AND 0xFFFFF :: u32)"
  by (rule bit_word_eqI)
    (auto simp: bit_or_iff bit_and_iff bit_ucast_iff bit_push_bit_iff bit_drop_bit_eq bit_masks)


lemma flags_keep: "(ucast (drop_bit 16 limit AND 0x0F :: u32) OR (gran AND 0xF0)) AND 0xF0 = (gran AND 0xF0 :: u8)"
  by (rule bit_word_eqI) (auto simp: bit_or_iff bit_and_iff bit_ucast_iff bit_drop_bit_eq bit_masks)



text \<open>C21. A segment descriptor holds what it was set to: the processor reads back the base address, the low 20 bits of the limit, the
  access byte and the four granularity flags, and the other descriptors are unchanged.\<close>

theorem gdt_gate_roundtrip:
  assumes "0 \<le> num" "num < int (length (gdt_entries c))"
  shows "\<exists>c' e. gdt_set_gate num base limit acc gran c = Some c' \<and> e = gdt_entries c' ! nat num \<and>
    gdt_base e = base \<and> gdt_limit e = limit AND 0xFFFFF \<and> g_access e = acc \<and> g_granularity e AND 0xF0 = gran AND 0xF0 \<and>
    (\<forall>k. k \<noteq> nat num \<longrightarrow> gdt_entries c' ! k = gdt_entries c ! k)"
  using assms by (simp add: gdt_set_gate_def tab_set_def gdt_base_def gdt_limit_def split_base split_limit flags_keep nat_less_iff)






subsection \<open>A concrete processor\<close>

definition cpu0 :: "unit cpu" where
  "cpu0 = \<lparr>cp_sys = \<lparr>sy_s = sched1, sy_dev = (), sy_lit = (\<lambda>_. 0), sy_disks = Map.empty, disk_list = 0, sy_ramdisks = Map.empty,
       sy_ata = Map.empty, selected_mode = 0, selected_drive = 0, g_ata_lock = 0, sy_fs = Map.empty, g_current_fs = 0,
       sy_nodes = Map.empty, g_vfs_root = 0, g_nodecount = 0, sy_pipes = Map.empty, sy_rings = Map.empty, sy_files = Map.empty,
     sy_users = Map.empty, g_current_user = 0, g_system = sysinfo_zero, sy_conns = Map.empty, sy_socks = Map.empty,
     sy_accepts = Map.empty, sy_queues = Map.empty, sy_timer = \<lparr>ticks_since_boot = 0, ti_period = 4, ti_frequency = 250\<rparr>\<rparr>,
     cp_sym = (\<lambda>x. if x = ''isr14'' then 0xC0101234 else if x = ''idt_reg'' then 0xC0130000 else 0xC0100000),
     gdt_entries = replicate 6 \<lparr>g_limit_low = 0, g_base_low = 0, g_base_middle = 0, g_access = 0, g_granularity = 0, g_base_high = 0\<rparr>,
     gdt_ptr = \<lparr>dp_limit = 0, dp_base = 0\<rparr>, tss_entries = [tss_zero, tss_zero], loaded_gdt = 0, loaded_tss = 0,
     idt = replicate 256 \<lparr>i_low_offset = 0, i_sel = 0, i_zero = 0, i_flags = 0, i_high_offset = 0\<rparr>,
     idt_reg = \<lparr>dp_limit = 0, dp_base = 0\<rparr>, loaded_idt = 0, interrupt_handlers = (\<lambda>_. IH_null), g_latest_irq = 0, apic = 0,
     g_pit_frequency = 0\<rparr>"


theorem gdt_gate_roundtrip_witness:
  "\<exists>c' e. gdt_set_gate 5 0xC0123456 0xABCDE 0xE9 0x40 cpu0 = Some c' \<and> e = gdt_entries c' ! nat 5 \<and> gdt_base e = 0xC0123456 \<and>
    gdt_limit e = 0xABCDE AND 0xFFFFF \<and> g_access e = 0xE9 \<and> g_granularity e AND 0xF0 = 0x40 AND 0xF0 \<and>
    (\<forall>k. k \<noteq> nat 5 \<longrightarrow> gdt_entries c' ! k = gdt_entries cpu0 ! k)"
  by (rule gdt_gate_roundtrip) (simp_all add: cpu0_def)


end
