(* ===== verification/Sys_Calls.thy ===== *)
theory Sys_Calls
  imports Exec_Elf Net_Socket Arch_Cpu
begin

text \<open>
  System calls: the calls (\<^verbatim>\<open>kernel/proc/syscalls/syscalls.c\<close>), their table (\<^verbatim>\<open>lists.c\<close>), the interrupt handler that
  selects one (\<^verbatim>\<open>handler.c\<close>) and sleeping (\<^verbatim>\<open>kernel/yanix/functions/kfunctions.c\<close>).

  The record \<open>kenv\<close> collects what the calls depend on and the kernel does not decide: the devices and the terminal, uninitialised
  fields, the heap of the kernel stacks, what ending the interrupt does, what the result register holds after a call without result, what a started program and the signal
  handlers of programs do, and the commands of the devices. A call returns a value for the register, waits for another task or the
  timer, enters user mode or does not come back. The error number is that of the layer that failed.
\<close>

record 'd kenv =
  ke_env :: "'d env"
  ke_li :: int
  ke_er :: int
  ke_it :: int
  ke_skh :: addr
  ke_eoi :: "'d sys \<Rightarrow> 'd sys"
  ke_run :: "u32 \<Rightarrow> u32 \<Rightarrow> addr \<Rightarrow> 'd sys \<Rightarrow> 'd sys option"
  ke_sig :: "addr \<Rightarrow> int \<Rightarrow> sched \<Rightarrow> sched option"
  ke_eax :: u32
  ke_cmd :: "node_fn \<Rightarrow> u32 \<Rightarrow> addr \<Rightarrow> 'd sys \<Rightarrow> (int \<times> 'd sys) option"

datatype sysres = Ret u32 | Wait wait_for | User u32 u32 u32 addr | Gone

abbreviation (input) "SIGKILL \<equiv> (9 :: int)"
abbreviation (input) "EMLINK \<equiv> (31 :: int)"
abbreviation (input) "ERANGE \<equiv> (34 :: int)"
abbreviation (input) "S_IFIFO \<equiv> (0x1000 :: u32)"
abbreviation (input) "SIZEOF_US_SYSINFO \<equiv> (64 :: u32)"
abbreviation (input) "UTSNAME_ENTRY_LEN \<equiv> (65 :: u32)"

subsection \<open>Helpers\<close>

definition err :: "(int \<times> 'd sys) option \<Rightarrow> (int \<times> 'd sys) option" where
  "err r = do { (ret, s) \<leftarrow> r; Some (if ret = -1 then - km_errno (kst s) else ret, s) }"

definition err_u :: "(u32 \<times> 'd sys) option \<Rightarrow> (int \<times> 'd sys) option" where
  "err_u r = do { (ret, s) \<leftarrow> r; Some (if ret = -1 then - km_errno (kst s) else sint ret, s) }"

definition err_w :: "(int outcome \<times> 'd sys) option \<Rightarrow> (int outcome \<times> 'd sys) option" where
  "err_w r = do { (ret, s) \<leftarrow> r; Some (case ret of Done x \<Rightarrow> Done (if x = -1 then - km_errno (kst s) else x) | Waits w \<Rightarrow> Waits w, s) }"

definition cur_task :: "'d sys \<Rightarrow> task option" where
  "cur_task s = get_task (get_current_task (sy_s s)) (sy_s s)"

definition on_sched_r :: "(sched \<Rightarrow> ('a \<times> sched) option) \<Rightarrow> 'd sys \<Rightarrow> ('a \<times> 'd sys) option" where
  "on_sched_r f s = do { (r, c) \<leftarrow> f (sy_s s); Some (r, s\<lparr>sy_s := c\<rparr>) }"

definition st64 :: "mem \<Rightarrow> addr \<Rightarrow> 64 word \<Rightarrow> mem" where
  "st64 m a v = st32 (st32 m a (ucast v)) (a + 4) (ucast (drop_bit 32 v))"

definition ld64 :: "mem \<Rightarrow> addr \<Rightarrow> 64 word" where
  "ld64 m a = ucast (ld32 m a) OR push_bit 32 (ucast (ld32 m (a + 4)))"

subsection \<open>Sleeping (kfunctions.c)\<close>

definition tick_sleep :: "u32 \<Rightarrow> 'd sys \<Rightarrow> wait_for" where
  "tick_sleep amount s = Ticks_passed (timer_get_cur_ticks (sy_timer s)) amount"

definition ticks_passed :: "u32 \<Rightarrow> u32 \<Rightarrow> 'd sys \<Rightarrow> bool" where
  "ticks_passed start amount s \<longleftrightarrow> \<not> timer_get_cur_ticks (sy_timer s) - start \<le> amount"

definition sleep :: "u32 \<Rightarrow> 'd sys \<Rightarrow> wait_for option" where
  "sleep milliseconds s =
     (let p = timer_get_period (sy_timer s) in
      if p = 0 then None
      else let amount = milliseconds div p; amount = (if amount = 0 then 1 else amount) in Some (tick_sleep amount s))"

subsection \<open>The calls (syscalls.c)\<close>

definition sys_exit :: "'d kenv \<Rightarrow> int \<Rightarrow> 'd sys \<Rightarrow> (sysres \<times> 'd sys) option" where
  "sys_exit K status s = do {
     s \<leftarrow> on_sched (send_sig (ke_sig K) SIGKILL) s;
     s \<leftarrow> on_sched (\<lambda>c. kill_proc (get_current_task c) c) s;
     Some (Gone, s) }"

definition sys_fstat :: "int \<Rightarrow> addr \<Rightarrow> 'd sys \<Rightarrow> (int \<times> 'd sys) option" where
  "sys_fstat fd st s = err (vfs_fstat fd st s)"

definition sys_stat :: "addr \<Rightarrow> addr \<Rightarrow> 'd sys \<Rightarrow> (int \<times> 'd sys) option" where
  "sys_stat path st s = err (vfs_stat path st s)"

definition sys_times :: "addr \<Rightarrow> 'd sys \<Rightarrow> (int \<times> 'd sys) option" where
  "sys_times buf s = Some (-1, s)"

definition sys_kill :: "'d kenv \<Rightarrow> u32 \<Rightarrow> int \<Rightarrow> 'd sys \<Rightarrow> (int \<times> 'd sys) option" where
  "sys_kill K pid sig s = on_sched_r (send_pid_sig (ke_sig K) pid sig) s"

definition sys_link :: "addr \<Rightarrow> addr \<Rightarrow> 'd sys \<Rightarrow> (int \<times> 'd sys) option" where
  "sys_link old new s = Some (-1, set_errno EMLINK s)"

definition sys_unlink :: "addr \<Rightarrow> 'd sys \<Rightarrow> (int \<times> 'd sys) option" where
  "sys_unlink name s = Some (-1, set_errno ENOENT s)"

definition sys_wait :: "addr \<Rightarrow> 'd sys \<Rightarrow> (int \<times> 'd sys) option" where
  "sys_wait status s = do {
     (r, s) \<leftarrow> on_sched_r task_wait s;
     Some (if r = 0 then 0 else - sc_errno (sy_s s), s) }"

definition sys_lseek :: "int \<Rightarrow> int \<Rightarrow> int \<Rightarrow> 'd sys \<Rightarrow> (int \<times> 'd sys) option" where
  "sys_lseek fd off mode s = err (vfs_lseek fd off mode s)"

definition sys_isatty :: "int \<Rightarrow> 'd sys \<Rightarrow> (int \<times> 'd sys) option" where
  "sys_isatty fd s = Some (1, s)"

definition sys_signal :: "int \<Rightarrow> addr \<Rightarrow> 'd sys \<Rightarrow> (int \<times> 'd sys) option" where
  "sys_signal signum handler s = do { (_, s) \<leftarrow> on_sched_r (signal signum handler) s; Some (0, s) }"

definition sys_readdir :: "int \<Rightarrow> addr \<Rightarrow> int \<Rightarrow> 'd sys \<Rightarrow> (int \<times> 'd sys) option" where
  "sys_readdir fd dirp cnt s = Some (-1, s)"

definition sys_getdents :: "'d kenv \<Rightarrow> int \<Rightarrow> addr \<Rightarrow> int \<Rightarrow> 'd sys \<Rightarrow> (int \<times> 'd sys) option" where
  "sys_getdents K fd dirp cnt s = err (getdents (ke_env K) fd dirp cnt s)"

definition sys_chdir :: "addr \<Rightarrow> 'd sys \<Rightarrow> (int \<times> 'd sys) option" where
  "sys_chdir path s = do {
     (buf, s) \<leftarrow> vfs_fullpath path s;
     (node, s) \<leftarrow> vfs_find_path buf s;
     if node \<noteq> 0 then do {
       t \<leftarrow> cur_task s;
       (_, s) \<leftarrow> on_k (kfree (t_cwd t)) s;
       s \<leftarrow> upd_current (\<lambda>t. t\<lparr>t_cwd := buf\<rparr>) s;
       Some (0, s) }
     else Some (- ENOENT, s) }"

definition sys_requesterrno :: "'d sys \<Rightarrow> (int \<times> 'd sys) option" where
  "sys_requesterrno s = Some (km_errno (kst s), s)"

definition sys_getcwd :: "addr \<Rightarrow> int \<Rightarrow> 'd sys \<Rightarrow> (addr \<times> 'd sys) option" where
  "sys_getcwd buf mx s = do {
     t \<leftarrow> cur_task s;
     l \<leftarrow> strlen (smem s) (t_cwd t);
     let len = sint (l + 1);
     if buf = 0 \<and> mx \<noteq> 0 \<and> mx < len then Some (0, set_errno ERANGE s)
     else do {
       let len = (if buf = 0 \<and> mx \<noteq> 0 then mx else len);
       (buf, s) \<leftarrow> (if buf = 0 then on_k (kmalloc_user (of_int len)) s else Some (buf, s));
       (_, m) \<leftarrow> strcpy_s (smem s) buf (t_cwd t) len;
       Some (buf, set_mem m s) } }"

definition sys_pipe :: "'d kenv \<Rightarrow> addr \<Rightarrow> 'd sys \<Rightarrow> (int \<times> 'd sys) option" where
  "sys_pipe K pipefd s = pipe_fds (ke_li K) pipefd s"

definition sys_mkdir :: "addr \<Rightarrow> u16 \<Rightarrow> 'd sys \<Rightarrow> (int \<times> 'd sys) option" where
  "sys_mkdir path mode s = Some (-1, s)"

definition sys_fcntl :: "int \<Rightarrow> int \<Rightarrow> u32 \<Rightarrow> 'd sys \<Rightarrow> (int \<times> 'd sys) option" where
  "sys_fcntl fd cmd arg s =
     (if cmd = 0 then on_fd (dup_filedescriptor fd (sint arg)) s
      else if cmd = 2 then on_fd (setflags_filedescriptor fd arg) s
      else Some (0, s))"

definition sys_mmap :: "'d sys \<Rightarrow> (u32 \<times> 'd sys) option" where
  "sys_mmap s = Some (of_int (- ENOMEM), s)"

definition sys_munmap :: "'d sys \<Rightarrow> (int \<times> 'd sys) option" where
  "sys_munmap s = Some (- EINVAL, s)"

definition sys_fork :: "'d kenv \<Rightarrow> 'd sys \<Rightarrow> (u32 \<times> 'd sys) option" where
  "sys_fork K s = on_sched_r (fork (ke_er K) (ke_it K)) s"

definition sys_write :: "'d kenv \<Rightarrow> int \<Rightarrow> addr \<Rightarrow> u32 \<Rightarrow> 'd sys \<Rightarrow> (int \<times> 'd sys) option" where
  "sys_write K fd buf amount s =
     (if fd = 2 \<and> amount > 0xC00 then Some (sint amount, s) else err_u (vfs_write_fd (ke_env K) fd buf amount s))"

definition sys_close :: "int \<Rightarrow> 'd sys \<Rightarrow> (int \<times> 'd sys) option" where
  "sys_close fd s = (if fd < 3 then Some (-1, s) else err (vfs_close_fd fd s))"

definition sys_execve :: "'d kenv \<Rightarrow> addr \<Rightarrow> addr \<Rightarrow> addr \<Rightarrow> 'd sys \<Rightarrow> (sysres \<times> 'd sys) option" where
  "sys_execve K filename argv envp s = do {
     (r, s) \<leftarrow> execve_user (ke_env K) (ke_li K) (ke_skh K) (ke_eoi K) (ke_run K) filename argv envp s;
     Some (case r of Exec_returns _ \<Rightarrow> Ret (of_int (- km_errno (kst s))) | Exec_user eip stk argc args \<Rightarrow> User eip stk argc args, s) }"

definition sys_getwd :: "addr \<Rightarrow> 'd sys \<Rightarrow> (int \<times> 'd sys) option" where
  "sys_getwd buf s = Some (0, s)"

definition sys_chown :: "addr \<Rightarrow> u32 \<Rightarrow> u32 \<Rightarrow> 'd sys \<Rightarrow> (int \<times> 'd sys) option" where
  "sys_chown path owner grp s = Some (0, s)"

definition sys_sysinfo :: "u32 \<Rightarrow> addr \<Rightarrow> 'd sys \<Rightarrow> (int \<times> 'd sys) option" where
  "sys_sysinfo freq si s = do {
     let m = memset (smem s) si 0 SIZEOF_US_SYSINFO;
     up \<leftarrow> timer_secs_since_boot freq (sy_timer s);
     free \<leftarrow> phys_freeram_amount (sc_vm (sy_s s));
     procs \<leftarrow> get_proccount (sy_s s);
     let m = st32 m si up;
     let m = st32 m (si + 16) (si_totalram (g_system s));
     let m = st32 m (si + 20) free;
     let m = st32 m (si + 24) sharedram_amount;
     let m = st32 m (si + 28) bufferram_amount;
     let m = st32 m (si + 32) (si_totalswap (g_system s));
     let m = st32 m (si + 36) phys_freeswap_amount;
     let m = st16 m (si + 40) (of_int procs);
     Some (0, set_mem m s) }"

definition sys_compatibility :: "int \<Rightarrow> 'd sys \<Rightarrow> (int \<times> 'd sys) option" where
  "sys_compatibility newmode s = Some (0, s)"

partial_function (option) sbrk_loop :: "u32 \<Rightarrow> u32 \<Rightarrow> bool \<Rightarrow> 'd sys \<Rightarrow> (int \<times> 'd sys) option" where
  "sbrk_loop i incr is_kernel s = do {
     t \<leftarrow> cur_task s;
     if i < t_program_break t + incr then do {
       (page, s) \<leftarrow> on_vm (get_page i True (t_directory t)) s;
       page \<leftarrow> page;
       (r, s) \<leftarrow> on_vm (flagforce_alloc_frame page is_kernel True) s;
       if r \<noteq> 0 then Some (-1, s) else sbrk_loop (i + 0x1000) incr is_kernel s }
     else Some (0, s) }"

definition sys_sbrk :: "u32 \<Rightarrow> 'd sys \<Rightarrow> (u32 \<times> 'd sys) option" where
  "sys_sbrk incr s = do {
     t \<leftarrow> cur_task s;
     (r, s) \<leftarrow> sbrk_loop (t_program_break t) incr (t_ring t \<noteq> 3) s;
     if r = -1 then Some (-1, s)
     else do {
       s \<leftarrow> upd_current (\<lambda>t. t\<lparr>t_program_break := t_program_break t + incr\<rparr>) s;
       t \<leftarrow> cur_task s;
       Some (t_program_break t - incr, s) } }"

definition sys_getpid :: "'d sys \<Rightarrow> (u32 \<times> 'd sys) option" where
  "sys_getpid s = do { p \<leftarrow> getpid (sy_s s); Some (p, s) }"

definition sys_creat :: "'d kenv \<Rightarrow> addr \<Rightarrow> u32 \<Rightarrow> 'd sys \<Rightarrow> (int \<times> 'd sys) option" where
  "sys_creat K path mode s = err (vfs_creat (ke_env K) (ke_li K) path mode s)"

definition sys_open :: "'d kenv \<Rightarrow> addr \<Rightarrow> u32 \<Rightarrow> u32 \<Rightarrow> 'd sys \<Rightarrow> (int \<times> 'd sys) option" where
  "sys_open K path flags mode s =
     (if path = -1 then Some (- ENOENT, s) else err (vfs_open_fd (ke_env K) (ke_li K) path flags mode s))"

definition sys_read :: "'d kenv \<Rightarrow> int \<Rightarrow> addr \<Rightarrow> u32 \<Rightarrow> 'd sys \<Rightarrow> (int \<times> 'd sys) option" where
  "sys_read K fd buf amount s = err_u (vfs_read_fd (ke_env K) fd buf amount s)"

definition task_field :: "(task \<Rightarrow> u32) \<Rightarrow> 'd sys \<Rightarrow> (u32 \<times> 'd sys) option" where
  "task_field f s = do { t \<leftarrow> cur_task s; Some (f t, s) }"

definition sys_getuid :: "'d sys \<Rightarrow> (u32 \<times> 'd sys) option" where
  "sys_getuid s = task_field t_uid s"

definition sys_geteuid :: "'d sys \<Rightarrow> (u32 \<times> 'd sys) option" where
  "sys_geteuid s = task_field t_euid s"

definition sys_dup2 :: "int \<Rightarrow> int \<Rightarrow> 'd sys \<Rightarrow> (int \<times> 'd sys) option" where
  "sys_dup2 oldfd newfd s = err (on_fd (dup2_filedescriptor oldfd newfd) s)"

definition sys_dup :: "int \<Rightarrow> 'd sys \<Rightarrow> (int \<times> 'd sys) option" where
  "sys_dup oldfd s = on_fd (dup_filedescriptor oldfd (-1)) s"

definition sys_sigaction :: "'d sys \<Rightarrow> (int \<times> 'd sys) option" where
  "sys_sigaction s = Some (-1, s)"

definition sys_umask :: "u16 \<Rightarrow> 'd sys \<Rightarrow> (u32 \<times> 'd sys) option" where
  "sys_umask newmask s = do {
     t \<leftarrow> cur_task s;
     s \<leftarrow> upd_current (\<lambda>t. t\<lparr>t_umask := t_umask t AND 0x1FF\<rparr>) s;
     Some (ucast (t_umask t), s) }"

definition sys_getppid :: "'d sys \<Rightarrow> (u32 \<times> 'd sys) option" where
  "sys_getppid s = task_field t_parent s"

definition sys_lstat :: "addr \<Rightarrow> addr \<Rightarrow> 'd sys \<Rightarrow> (int \<times> 'd sys) option" where
  "sys_lstat path st s = sys_stat path st s"

definition sys_pipe2 :: "'d sys \<Rightarrow> (int \<times> 'd sys) option" where
  "sys_pipe2 s = Some (-1, s)"

definition sys_getgid :: "'d sys \<Rightarrow> (u32 \<times> 'd sys) option" where
  "sys_getgid s = task_field t_gid s"

definition sys_ioctl :: "'d kenv \<Rightarrow> int \<Rightarrow> u32 \<Rightarrow> addr \<Rightarrow> 'd sys \<Rightarrow> (int \<times> 'd sys) option" where
  "sys_ioctl K fd request argp s = ioctl (ke_cmd K) fd request argp s"

definition set_task_field :: "(task \<Rightarrow> task) \<Rightarrow> 'd sys \<Rightarrow> (int \<times> 'd sys) option" where
  "set_task_field f s = do { s \<leftarrow> upd_current f s; Some (0, s) }"

definition sys_setuid :: "u32 \<Rightarrow> 'd sys \<Rightarrow> (int \<times> 'd sys) option" where
  "sys_setuid uid s = set_task_field (\<lambda>t. t\<lparr>t_uid := uid\<rparr>) s"

definition sys_seteuid :: "u32 \<Rightarrow> 'd sys \<Rightarrow> (int \<times> 'd sys) option" where
  "sys_seteuid euid s = set_task_field (\<lambda>t. t\<lparr>t_euid := euid\<rparr>) s"

definition sys_getgroups :: "'d sys \<Rightarrow> (int \<times> 'd sys) option" where
  "sys_getgroups s = Some (-1, s)"

definition sys_setgroups :: "'d sys \<Rightarrow> (int \<times> 'd sys) option" where
  "sys_setgroups s = Some (-1, s)"

definition sys_sigprocmask :: "'d sys \<Rightarrow> (int \<times> 'd sys) option" where
  "sys_sigprocmask s = Some (-1, s)"

definition sys_getegid :: "'d sys \<Rightarrow> (u32 \<times> 'd sys) option" where
  "sys_getegid s = task_field t_egid s"

definition sys_wait3 :: "addr \<Rightarrow> 'd sys \<Rightarrow> (int \<times> 'd sys) option" where
  "sys_wait3 status s = sys_wait status s"

definition sys_sigsuspend :: "'d sys \<Rightarrow> (int \<times> 'd sys) option" where
  "sys_sigsuspend s = Some (-1, s)"

definition sys_gethostname :: "addr \<Rightarrow> u32 \<Rightarrow> 'd sys \<Rightarrow> (int \<times> 'd sys) option" where
  "sys_gethostname name len s = do {
     (_, m) \<leftarrow> strcpy_s (smem s) name (si_hostname (g_system s)) (sint len);
     Some (0, set_mem m s) }"

definition sys_sethostname :: "addr \<Rightarrow> u32 \<Rightarrow> 'd sys \<Rightarrow> (int \<times> 'd sys) option" where
  "sys_sethostname name len s = do {
     (_, s) \<leftarrow> on_k (kfree (si_hostname (g_system s))) s;
     (h, s) \<leftarrow> on_k (strdup name) s;
     Some (0, s\<lparr>g_system := (g_system s)\<lparr>si_hostname := h\<rparr>\<rparr>) }"

definition sys_alarm :: "'d sys \<Rightarrow> (int \<times> 'd sys) option" where
  "sys_alarm s = Some (-1, s)"

definition sys_nanosleep :: "addr \<Rightarrow> 'd sys \<Rightarrow> (sysres \<times> 'd sys) option" where
  "sys_nanosleep tim s = do {
     let time = ucast (ld64 (smem s) tim * 1000) + ucast (ld64 (smem s) (tim + 8)) div 1000;
     w \<leftarrow> sleep time s;
     Some (Wait w, s) }"

definition sys_fchmod :: "'d sys \<Rightarrow> (int \<times> 'd sys) option" where
  "sys_fchmod s = Some (-1, s)"

definition sys_setgid :: "u32 \<Rightarrow> 'd sys \<Rightarrow> (int \<times> 'd sys) option" where
  "sys_setgid gid s = set_task_field (\<lambda>t. t\<lparr>t_gid := gid\<rparr>) s"

definition sys_setregid :: "u32 \<Rightarrow> u32 \<Rightarrow> 'd sys \<Rightarrow> (int \<times> 'd sys) option" where
  "sys_setregid real effective s = set_task_field (\<lambda>t. t\<lparr>t_gid := real, t_egid := effective\<rparr>) s"

definition sys_setreuid :: "u32 \<Rightarrow> u32 \<Rightarrow> 'd sys \<Rightarrow> (int \<times> 'd sys) option" where
  "sys_setreuid real effective s = set_task_field (\<lambda>t. t\<lparr>t_uid := real, t_euid := effective\<rparr>) s"

definition sys_access :: "'d sys \<Rightarrow> (int \<times> 'd sys) option" where
  "sys_access s = Some (-1, s)"

definition sys_time :: "'d sys \<Rightarrow> (int \<times> 'd sys) option" where
  "sys_time s = Some (-1, s)"

definition sys_mknod :: "addr \<Rightarrow> u16 \<Rightarrow> 'd sys \<Rightarrow> (int \<times> 'd sys) option" where
  "sys_mknod path mode s = (if ucast mode AND S_IFIFO \<noteq> 0 then mkfifo path s else Some (-1, s))"

definition sys_getgrent :: "'d sys \<Rightarrow> (u32 \<times> 'd sys) option" where
  "sys_getgrent s = Some (0, s)"

text \<open>The two calls without a result leave what the register holds, \<open>ke_eax\<close>.\<close>

definition sys_setgrent :: "'d kenv \<Rightarrow> 'd sys \<Rightarrow> (u32 \<times> 'd sys) option" where
  "sys_setgrent K s = Some (ke_eax K, s)"

definition sys_endgrent :: "'d kenv \<Rightarrow> 'd sys \<Rightarrow> (u32 \<times> 'd sys) option" where
  "sys_endgrent K s = Some (ke_eax K, s)"

definition sys_select :: "'d sys \<Rightarrow> (int \<times> 'd sys) option" where
  "sys_select s = Some (-1, s)"

definition sys_uname :: "addr \<Rightarrow> 'd sys \<Rightarrow> (int \<times> 'd sys) option" where
  "sys_uname buf s = do {
     let g = g_system s;
     ls \<leftarrow> strlen (smem s) (si_sysname g);
     ln \<leftarrow> strlen (smem s) (si_sysname g);
     lr \<leftarrow> strlen (smem s) (si_release g);
     lv \<leftarrow> strlen (smem s) (si_version g);
     lm \<leftarrow> strlen (smem s) (si_machine g);
     let m = memcpy (smem s) buf (si_sysname g) (ls + 1);
     let m = memcpy m (buf + UTSNAME_ENTRY_LEN) (si_sysname g) (ln + 1);
     let m = memcpy m (buf + 2 * UTSNAME_ENTRY_LEN) (si_release g) (lr + 1);
     let m = memcpy m (buf + 3 * UTSNAME_ENTRY_LEN) (si_version g) (lv + 1);
     let m = memcpy m (buf + 4 * UTSNAME_ENTRY_LEN) (si_machine g) (lm + 1);
     Some (0, set_mem m s) }"

definition sys_gettimeofday :: "u32 \<Rightarrow> addr \<Rightarrow> 'd sys \<Rightarrow> (int \<times> 'd sys) option" where
  "sys_gettimeofday freq tv s =
     (if tv = 0 then Some (-1, s)
      else do {
        (sec, usec) \<leftarrow> time_since_boot freq (ld64 (smem s) (tv + 8)) (sy_timer s);
        Some (0, set_mem (st64 (st64 (smem s) tv sec) (tv + 8) usec) s) })"

definition sys_socket :: "'d kenv \<Rightarrow> int \<Rightarrow> int \<Rightarrow> int \<Rightarrow> 'd sys \<Rightarrow> (int \<times> 'd sys) option" where
  "sys_socket K domain type protocol s = err (socket_call (ke_li K) domain type protocol s)"

definition sys_bind :: "int \<Rightarrow> addr \<Rightarrow> 'd sys \<Rightarrow> (int \<times> 'd sys) option" where
  "sys_bind soc a s = err (sock_bind soc a s)"

definition sys_listen :: "int \<Rightarrow> int \<Rightarrow> 'd sys \<Rightarrow> (int \<times> 'd sys) option" where
  "sys_listen soc backlog s = err (sock_listen soc backlog s)"

definition sys_accept :: "'d kenv \<Rightarrow> int \<Rightarrow> 'd sys \<Rightarrow> (int outcome \<times> 'd sys) option" where
  "sys_accept K soc s = err_w (sock_accept (ke_li K) soc s)"

definition sys_send :: "int \<Rightarrow> addr \<Rightarrow> u32 \<Rightarrow> 'd sys \<Rightarrow> (int \<times> 'd sys) option" where
  "sys_send soc buf len s = err_u (sock_send soc buf len s)"

definition sys_recv :: "int \<Rightarrow> addr \<Rightarrow> u32 \<Rightarrow> 'd sys \<Rightarrow> (int \<times> 'd sys) option" where
  "sys_recv soc buf len s = err_u (sock_recv soc buf len s)"

definition sys_connect :: "int \<Rightarrow> addr \<Rightarrow> 'd sys \<Rightarrow> (int outcome \<times> 'd sys) option" where
  "sys_connect soc a s = err_w (sock_connect soc a s)"

subsection \<open>The table (lists.c)\<close>

definition ret_i :: "(int \<times> 'd sys) option \<Rightarrow> (sysres \<times> 'd sys) option" where
  "ret_i r = do { (x, s) \<leftarrow> r; Some (Ret (of_int x), s) }"

definition ret_u :: "(u32 \<times> 'd sys) option \<Rightarrow> (sysres \<times> 'd sys) option" where
  "ret_u r = do { (x, s) \<leftarrow> r; Some (Ret x, s) }"

definition ret_w :: "(int outcome \<times> 'd sys) option \<Rightarrow> (sysres \<times> 'd sys) option" where
  "ret_w r = do { (x, s) \<leftarrow> r; Some (case x of Done y \<Rightarrow> Ret (of_int y) | Waits w \<Rightarrow> Wait w, s) }"

type_synonym 'd syscall = "u32 \<Rightarrow> u32 \<Rightarrow> u32 \<Rightarrow> 'd sys \<Rightarrow> (sysres \<times> 'd sys) option"

definition syscalls_yanix :: "'d kenv \<Rightarrow> u32 \<Rightarrow> 'd syscall option list" where
  "syscalls_yanix K freq =
    [None,
     Some (\<lambda>b c d s. sys_exit K (sint b) s),
     Some (\<lambda>b c d s. ret_u (sys_fork K s)),
     Some (\<lambda>b c d s. ret_i (sys_read K (sint b) c d s)),
     Some (\<lambda>b c d s. ret_i (sys_write K (sint b) c d s)),
     Some (\<lambda>b c d s. ret_i (sys_open K b c d s)),
     Some (\<lambda>b c d s. ret_i (sys_close (sint b) s)),
     Some (\<lambda>b c d s. ret_i (sys_wait b s)),
     Some (\<lambda>b c d s. ret_i (sys_creat K b c s)),
     Some (\<lambda>b c d s. ret_i (sys_link b c s)),
     Some (\<lambda>b c d s. ret_i (sys_unlink b s)),
     Some (\<lambda>b c d s. sys_execve K b c d s),
     Some (\<lambda>b c d s. ret_i (sys_kill K b (sint c) s)),
     Some (\<lambda>b c d s. ret_i (sys_lstat b c s)),
     Some (\<lambda>b c d s. ret_i (sys_lseek (sint b) (sint c) (sint d) s)),
     Some (\<lambda>b c d s. ret_u (sys_sbrk b s)),
     Some (\<lambda>b c d s. ret_i (sys_times b s)),
     Some (\<lambda>b c d s. ret_i (sys_isatty (sint b) s)),
     Some (\<lambda>b c d s. ret_i (sys_stat b c s)),
     Some (\<lambda>b c d s. ret_i (sys_signal (sint b) c s)),
     Some (\<lambda>b c d s. ret_i (sys_readdir (sint b) c (sint d) s)),
     Some (\<lambda>b c d s. ret_i (sys_getdents K (sint b) c (sint d) s)),
     Some (\<lambda>b c d s. ret_i (sys_chdir b s)),
     Some (\<lambda>b c d s. ret_u (sys_getcwd b (sint c) s)),
     Some (\<lambda>b c d s. ret_i (sys_pipe K b s)),
     Some (\<lambda>b c d s. ret_i (sys_mkdir b (ucast c) s)),
     Some (\<lambda>b c d s. ret_i (sys_fcntl (sint b) (sint c) d s)),
     Some (\<lambda>b c d s. ret_i (sys_getwd b s)),
     Some (\<lambda>b c d s. ret_i (sys_fstat (sint b) c s)),
     Some (\<lambda>b c d s. ret_u (sys_mmap s)),
     Some (\<lambda>b c d s. ret_i (sys_munmap s)),
     Some (\<lambda>b c d s. ret_i (sys_chown b c d s)),
     Some (\<lambda>b c d s. ret_i (sys_sysinfo freq b s)),
     Some (\<lambda>b c d s. ret_u (sys_getuid s)),
     Some (\<lambda>b c d s. ret_u (sys_geteuid s)),
     Some (\<lambda>b c d s. ret_i (sys_dup2 (sint b) (sint c) s)),
     Some (\<lambda>b c d s. ret_i (sys_dup (sint b) s)),
     Some (\<lambda>b c d s. ret_i (sys_sigaction s)),
     Some (\<lambda>b c d s. ret_u (sys_umask (ucast b) s)),
     Some (\<lambda>b c d s. ret_u (sys_getpid s)),
     Some (\<lambda>b c d s. ret_u (sys_getppid s)),
     Some (\<lambda>b c d s. ret_i (sys_pipe2 s)),
     Some (\<lambda>b c d s. ret_u (sys_getgid s)),
     Some (\<lambda>b c d s. ret_i (sys_ioctl K (sint b) c d s)),
     Some (\<lambda>b c d s. ret_i (sys_setuid b s)),
     Some (\<lambda>b c d s. ret_i (sys_seteuid b s)),
     Some (\<lambda>b c d s. ret_i (sys_getgroups s)),
     Some (\<lambda>b c d s. ret_i (sys_setgroups s)),
     Some (\<lambda>b c d s. ret_i (sys_sigprocmask s)),
     Some (\<lambda>b c d s. ret_u (sys_getegid s)),
     Some (\<lambda>b c d s. ret_i (sys_sigsuspend s)),
     Some (\<lambda>b c d s. ret_i (sys_wait3 b s)),
     Some (\<lambda>b c d s. ret_i (sys_gethostname b c s)),
     Some (\<lambda>b c d s. ret_i (sys_sethostname b c s)),
     Some (\<lambda>b c d s. ret_i (sys_alarm s)),
     Some (\<lambda>b c d s. sys_nanosleep b s),
     Some (\<lambda>b c d s. ret_i (sys_fchmod s)),
     Some (\<lambda>b c d s. ret_i (sys_setgid b s)),
     Some (\<lambda>b c d s. ret_i (sys_setregid b c s)),
     Some (\<lambda>b c d s. ret_i (sys_setreuid b c s)),
     Some (\<lambda>b c d s. ret_i (sys_access s)),
     Some (\<lambda>b c d s. ret_i (sys_time s)),
     Some (\<lambda>b c d s. ret_i (sys_requesterrno s)),
     Some (\<lambda>b c d s. ret_i (sys_mknod b (ucast c) s)),
     Some (\<lambda>b c d s. ret_u (sys_getgrent s)),
     Some (\<lambda>b c d s. ret_u (sys_setgrent K s)),
     Some (\<lambda>b c d s. ret_u (sys_endgrent K s)),
     Some (\<lambda>b c d s. ret_i (sys_select s)),
     Some (\<lambda>b c d s. ret_i (sys_uname b s)),
     Some (\<lambda>b c d s. ret_i (sys_gettimeofday freq b s)),
     Some (\<lambda>b c d s. ret_i (sys_socket K (sint b) (sint c) (sint d) s)),
     Some (\<lambda>b c d s. ret_i (sys_bind (sint b) c s)),
     Some (\<lambda>b c d s. ret_i (sys_listen (sint b) (sint c) s)),
     Some (\<lambda>b c d s. ret_w (sys_accept K (sint b) s)),
     Some (\<lambda>b c d s. ret_i (sys_send (sint b) c d s)),
     Some (\<lambda>b c d s. ret_i (sys_recv (sint b) c d s)),
     Some (\<lambda>b c d s. ret_w (sys_connect (sint b) c s))]"

definition syscalls_linux :: "'d kenv \<Rightarrow> u32 \<Rightarrow> 'd syscall option list" where
  "syscalls_linux K freq = []"

subsection \<open>The handler (handler.c)\<close>

datatype compat = No_calls | Compat_yanix | Compat_linux

definition syscall_list :: "compat \<Rightarrow> 'd kenv \<Rightarrow> u32 \<Rightarrow> 'd syscall option list" where
  "syscall_list md K freq = (case md of No_calls \<Rightarrow> [] | Compat_yanix \<Rightarrow> syscalls_yanix K freq | Compat_linux \<Rightarrow> syscalls_linux K freq)"

text \<open>No call uses more than three of the five arguments that are passed.\<close>

definition syscall_handler :: "'d ports \<Rightarrow> 'd kenv \<Rightarrow> compat \<Rightarrow> registers \<Rightarrow> 'd cpu \<Rightarrow> (sysres \<times> registers \<times> 'd cpu) option" where
  "syscall_handler P K md regs c =
     (let calls = syscall_list md K (arch_timer_get_frequency c) in
      if unat (r_eax regs) \<ge> length calls then Some (Ret (r_eax regs), regs, c)
      else case calls ! unat (r_eax regs) of
        None \<Rightarrow> Some (Ret (r_eax regs), regs, c)
      | Some f \<Rightarrow> do {
          let c = end_of_interrupt P c;
          let c = c\<lparr>cp_sys := (cp_sys c)\<lparr>sy_s := (sy_s (cp_sys c))\<lparr>cpu_if := True\<rparr>\<rparr>\<rparr>;
          (r, s) \<leftarrow> f (r_ebx regs) (r_ecx regs) (r_edx regs) (cp_sys c);
          let c = c\<lparr>cp_sys := s\<rparr>;
          Some (r, case r of Ret x \<Rightarrow> regs\<lparr>r_eax := x\<rparr> | _ \<Rightarrow> regs, c) })"

definition switch_syscalls :: "int \<Rightarrow> compat \<Rightarrow> int \<times> compat" where
  "switch_syscalls newmode md = (if newmode = 2 then (0, Compat_linux) else if newmode = 1 then (0, Compat_yanix) else (-1, md))"

definition init_syscalls :: "'d cpu \<Rightarrow> int \<times> compat \<times> 'd cpu" where
  "init_syscalls c = (0, Compat_yanix, arch_register_interrupt_handler 0x80 IH_syscall_handler c)"

subsection \<open>Growing a program\<close>

lemma cur_task_vm [simp]: "cur_task (s\<lparr>sy_s := (sy_s s)\<lparr>sc_vm := v\<rparr>\<rparr>) = cur_task s"
  by (simp add: cur_task_def get_task_def get_current_task_def)

lemma on_vm_frame: "on_vm f s = Some (r, s') \<Longrightarrow> cur_task s' = cur_task s \<and> get_current_task (sy_s s') = get_current_task (sy_s s)"
  by (auto simp: on_vm_def get_current_task_def elim!: bind_SomeE)

lemma on_vm_same: "f (sc_vm (sy_s s)) = Some (r, sc_vm (sy_s s)) \<Longrightarrow> on_vm f s = Some (r, s)"
  by (simp add: on_vm_def)

lemma next_block: "0 < n \<Longrightarrow> n < x mod n + y \<Longrightarrow> (x + y - 1) div n \<noteq> x div n" for n :: nat
proof -
  assume n: "0 < n" "n < x mod n + y"
  have "n * (x div n) + x mod n = x" by simp
  then have "n * Suc (x div n) \<le> x + y - 1" using n unfolding mult_Suc_right by linarith
  from div_le_mono [OF this, of n] n(1) show ?thesis by simp
qed

lemma upd_current_some:
  assumes "cur_task s = Some t"
  shows "\<exists>s'. upd_current f s = Some s' \<and> cur_task s' = Some (f t) \<and> sc_vm (sy_s s') = sc_vm (sy_s s)"
  using assms by (auto simp: upd_current_def on_sched_def upd_task_def cur_task_def get_task_def set_task_def get_current_task_def split: if_splits)

text \<open>C32. Growing a program by at most a page maps one page only. The call allocates the page of the old program break, moves the break and
  returns the old one; when the grown part crosses a page boundary its end lies in another page, which is not
  allocated.\<close>

theorem sbrk_maps_one_page:
  assumes t: "cur_task s = Some t" "t_program_break t = b"
    and incr: "0 < incr" "incr \<le> 0x1000" "unat b + 0x2000 < 2 ^ 32"
    and page: "on_vm (get_page b True (t_directory t)) s = Some (Some pg, s1)"
      "on_vm (flagforce_alloc_frame pg (t_ring t \<noteq> 3) True) s1 = Some (0, s2)"
  shows "\<exists>s3. sys_sbrk incr s = Some (b, s3) \<and> sc_vm (sy_s s3) = sc_vm (sy_s s2) \<and>
    cur_task s3 = Some (t\<lparr>t_program_break := b + incr\<rparr>) \<and>
    (unat b mod 0x1000 + unat incr > 0x1000 \<longrightarrow> (b + incr - 1) div 0x1000 \<noteq> b div 0x1000)"
proof -
  have u: "unat (b + incr) = unat b + unat incr" "unat (b + 0x1000) = unat b + 0x1000"
    using incr by (simp_all add: unat_plus_nowrap word_le_nat_alt)
  have l: "b < b + incr" "\<not> b + 0x1000 < b + incr" using incr u by (simp_all add: word_less_nat_alt word_le_nat_alt)
  have c: "cur_task s2 = Some t" using t(1) page on_vm_frame by metis
  have "sbrk_loop (b + 0x1000) incr (t_ring t \<noteq> 3) s2 = Some (0, s2)" using c l t(2) by (subst sbrk_loop.simps) simp
  then have lp: "sbrk_loop b incr (t_ring t \<noteq> 3) s = Some (0, s2)" using t page l by (subst sbrk_loop.simps) simp
  obtain s3 where s3: "upd_current (\<lambda>t. t\<lparr>t_program_break := t_program_break t + incr\<rparr>) s2 = Some s3"
    "cur_task s3 = Some (t\<lparr>t_program_break := t_program_break t + incr\<rparr>)" "sc_vm (sy_s s3) = sc_vm (sy_s s2)"
    using upd_current_some [OF c] by blast
  have "(b + incr - 1) div 0x1000 \<noteq> b div 0x1000" if x: "unat b mod 0x1000 + unat incr > 0x1000"
  proof
    assume "(b + incr - 1) div 0x1000 = b div 0x1000"
    then have "unat ((b + incr - 1) div 0x1000) = unat (b div 0x1000)" by simp
    then have "unat (b + incr - 1) div 0x1000 = unat b div 0x1000" by (simp add: unat_div)
    moreover have "unat (b + incr - 1) = unat b + unat incr - 1" using u incr by (simp add: unat_minus_nowrap word_le_nat_alt word_less_nat_alt)
    ultimately show False using next_block [of "0x1000" "unat b" "unat incr"] x by simp
  qed
  with lp t s3 show ?thesis by (simp add: sys_sbrk_def)
qed

definition grow_task :: task where
  "grow_task = (task1 1 0x400 0x200)\<lparr>t_program_break := 0x5800, t_directory := 0x1000\<rparr>"

definition grow_sys :: "unit sys" where
  "grow_sys = sys0\<lparr>sy_s := set_task 0x100 grow_task sched1\<rparr>"

lemma grow_sys_simps [simp]: "cur_task grow_sys = Some grow_task" "t_program_break grow_task = 0x5800" "t_directory grow_task = 0x1000"
  "sc_vm (sy_s grow_sys) = vm1"
  by (simp_all add: grow_sys_def grow_task_def cur_task_def set_task_def get_task_def get_current_task_def)

theorem sbrk_maps_one_page_witness:
  "\<exists>s3. sys_sbrk 0x900 grow_sys = Some (0x5800, s3) \<and> cur_task s3 = Some (grow_task\<lparr>t_program_break := 0x6100\<rparr>) \<and>
    (0x5800 + 0x900 - 1) div 0x1000 \<noteq> (0x5800 :: u32) div 0x1000"
proof -
  have g: "get_page 0x5800 True 0x1000 vm1 = Some (Some (0x10000, 5), vm1)" by (simp add: get_page_def)
  have p: "load_page (0x10000, 5) vm1 = Some (page_of 1)" by (simp add: load_page_def vm1_def)
  obtain v where v: "flagforce_alloc_frame (0x10000, 5) (t_ring grow_task \<noteq> 3) True vm1 = Some (0, v)"
    using p by (auto simp: flagforce_alloc_frame_def alloc_frame_def set_frame_flags_def store_page_def vm1_def page_of_def)
  have a: "on_vm (get_page 0x5800 True (t_directory grow_task)) grow_sys = Some (Some (0x10000, 5), grow_sys)"
    using g by (intro on_vm_same) simp
  have b: "on_vm (flagforce_alloc_frame (0x10000, 5) (t_ring grow_task \<noteq> 3) True) grow_sys = Some (0, grow_sys\<lparr>sy_s := (sy_s grow_sys)\<lparr>sc_vm := v\<rparr>\<rparr>)"
    using v by (simp add: on_vm_def)
  show ?thesis using sbrk_maps_one_page [OF grow_sys_simps(1,2) _ _ _ a b, of "0x900"] by auto
qed

end
