(* ===== verification/Spec2Isabelle.thy ===== *)
theory Spec2Isabelle
  imports Sys_Calls
begin

text \<open>
  A verification development of the yanix kernel.
\<close>

end
